(* ===== verification/Prelude.thy ===== *)
theory Prelude
  imports Main "HOL-Library.Word"
begin

unbundle bit_operations_syntax

text \<open>
  Shared vocabulary of the development: the fixed-width integer types of the wire, the
  collections of rewrite rules the component theories extend, and generic facts on
  machine words, lists and big-endian numbers that no single component owns.
\<close>

section \<open>Types of the wire\<close>

type_synonym byte = "8 word"
type_synonym i16 = "16 word"
type_synonym i32 = "32 word"
type_synonym i64 = "64 word"
type_synonym rune = "32 word"

section \<open>Rule collections\<close>

text \<open>
  \<open>writes\<close>: what a writer appends to an output buffer.
  \<open>reads\<close>: what a reader returns when its input continues with encoded data.
  \<open>sticky\<close>: a reader does nothing once the error flag is set.
  \<open>progress\<close>: how a reader moves the read position.
\<close>

named_theorems writes
named_theorems reads
named_theorems sticky
named_theorems progress

section \<open>Words\<close>

lemma take_bit_small: "unat (r::'a::len word) < 2 ^ k \<Longrightarrow> take_bit k r = r"
  by (simp add: unsigned_take_bit_eq take_bit_nat_eq_self word_unat_eq_iff)

lemma high_bits: "unat (r::'a::len word) < 2 ^ k \<Longrightarrow> k \<le> n \<Longrightarrow> \<not> bit r n"
  using take_bit_small[of r k] by (metis bit_take_bit_iff not_le)

lemma sint_small:
  assumes a: "unat (r::'a::len word) < 2 ^ (LENGTH('a) - 1)"
  shows "sint r = int (unat r)"
proof -
  have "signed_take_bit (LENGTH('a) - Suc 0) (uint r) = take_bit (LENGTH('a) - Suc 0) (uint r)"
    by (rule signed_take_bit_eq_if_positive) (use high_bits[OF a] in \<open>simp add: bit_uint_iff\<close>)
  moreover have "uint r = int (unat r)" by simp
  moreover have "take_bit (LENGTH('a) - Suc 0) (int (unat r)) = int (unat r)"
    using a by (simp only: take_bit_of_nat take_bit_nat_eq_self One_nat_def)
  ultimately show ?thesis by (simp only: sint_uint)
qed

lemma sint_of_nat_small:
  assumes "n < 2 ^ (LENGTH('a) - 1)"
  shows "sint (word_of_nat n :: 'a::len word) = int n"
proof -
  have "(2::nat) ^ (LENGTH('a) - 1) \<le> 2 ^ LENGTH('a)" by (rule power_increasing) simp_all
  with assms have "n < 2 ^ LENGTH('a)" by (rule less_le_trans)
  then have "take_bit LENGTH('a) n = n" by (rule take_bit_nat_eq_self)
  then have "unat (word_of_nat n :: 'a word) = n"
    by (simp add: unsigned_of_nat)
  with assms sint_small[of "word_of_nat n :: 'a word"] show ?thesis by simp
qed

lemma unat_and_mask: "unat (x AND mask k) = unat (x::'a::len word) mod 2 ^ k"
  by (metis take_bit_eq_mask unsigned_take_bit_eq take_bit_eq_mod)

lemma unat_drop_bit_div: "unat (drop_bit k r) = unat (r::'a::len word) div 2 ^ k"
  by (metis unat_drop_bit_eq drop_bit_eq_div)

lemma unat_and_not_mask:
  "unat (x AND NOT (mask k)) = unat (x::'a::len word) div 2 ^ k * 2 ^ k"
proof -
  have "unat (x AND NOT (mask k)) = push_bit k (drop_bit k (unat x))"
    by (rule bit_eqI) (auto simp: bit_simps bit_imp_le_length)
  then show ?thesis by (simp only: push_bit_eq_mult drop_bit_eq_div)
qed

lemma unat_push_or:
  assumes a: "unat (a::'a::len word) < 2 ^ k"
  shows "unat (push_bit k c OR a) = unat (push_bit k c) + unat a"
proof -
  have "unat (push_bit k c OR a) = unat (push_bit k c) OR unat a"
    by (simp only: unsigned_or_eq)
  moreover have "unat (push_bit k c) AND unat a = 0"
    by (rule bit_eqI) (use high_bits[OF a] in \<open>auto simp: bit_simps not_le\<close>)
  ultimately show ?thesis by (simp add: disjunctive_add_eq_or)
qed

lemma div_eq_iff_bounds:
  "0 < m \<Longrightarrow> (n div m = q) = (m * q \<le> n \<and> n < m * Suc q)" for n m q :: nat
  using div_nat_eqI[of m q n] by (auto simp: dividend_less_times_div)

lemma byte_lt: "unat (x::byte) < 256"
  using unsigned_less[of x, where 'a=nat] by simp

lemma byte_and_high:
  "unat ((x::byte) AND 0x80) = unat x div 128 * 128"
  "unat (x AND 0xE0) = unat x div 32 * 32"
  "unat (x AND 0xF0) = unat x div 16 * 16"
proof -
  have e: "(0x80::byte) = NOT (mask 7)" "(0xE0::byte) = NOT (mask 5)" "(0xF0::byte) = NOT (mask 4)"
    by (simp_all add: mask_numeral)
  show "unat (x AND 0x80) = unat x div 128 * 128"
    unfolding e(1) by (simp only: unat_and_not_mask) simp
  show "unat (x AND 0xE0) = unat x div 32 * 32"
    unfolding e(2) by (simp only: unat_and_not_mask) simp
  show "unat (x AND 0xF0) = unat x div 16 * 16"
    unfolding e(3) by (simp only: unat_and_not_mask) simp
qed

lemma byte_lead_tests:
  "((x::byte) AND 0x80 = 0) = (unat x < 128)"
  "((x::byte) AND 0xE0 = 0xC0) = (192 \<le> unat x \<and> unat x < 224)"
  "((x::byte) AND 0xF0 = 0xE0) = (224 \<le> unat x \<and> unat x < 240)"
proof -
  have "((x::byte) AND 0x80 = 0) = (unat x div 128 * 128 = 0)"
    by (simp only: word_unat_eq_iff byte_and_high) simp
  then show "((x::byte) AND 0x80 = 0) = (unat x < 128)" by auto
  have "((x::byte) AND 0xE0 = 0xC0) = (unat x div 32 * 32 = 192)"
    by (simp only: word_unat_eq_iff byte_and_high) simp
  then show "((x::byte) AND 0xE0 = 0xC0) = (192 \<le> unat x \<and> unat x < 224)"
    using div_eq_iff_bounds[of 32 "unat x" 6] by auto
  have "((x::byte) AND 0xF0 = 0xE0) = (unat x div 16 * 16 = 224)"
    by (simp only: word_unat_eq_iff byte_and_high) simp
  then show "((x::byte) AND 0xF0 = 0xE0) = (224 \<le> unat x \<and> unat x < 240)"
    using div_eq_iff_bounds[of 16 "unat x" 14] by auto
qed

lemma byte_or_lead:
  "unat (a::byte) < 64 \<Longrightarrow> unat (0x80 OR a) = 128 + unat a"
  "unat (a::byte) < 32 \<Longrightarrow> unat (0xC0 OR a) = 192 + unat a"
  "unat (a::byte) < 16 \<Longrightarrow> unat (0xE0 OR a) = 224 + unat a"
  "unat (a::byte) < 8 \<Longrightarrow> unat (0xF0 OR a) = 240 + unat a"
  using unat_push_or[of a 6 2] unat_push_or[of a 5 6] unat_push_or[of a 4 14]
    unat_push_or[of a 3 30]
  by simp_all

lemma unat_and_low:
  "unat (x AND 0x07) = unat (x::'a::len word) mod 8"
  "unat (x AND 0x0F) = unat (x::'a::len word) mod 16"
  "unat (x AND 0x1F) = unat (x::'a::len word) mod 32"
  "unat (x AND 0x3F) = unat (x::'a::len word) mod 64"
  "unat (x AND 0x3FF) = unat (x::'a::len word) mod 1024"
  using unat_and_mask[of x 3] unat_and_mask[of x 4] unat_and_mask[of x 5] unat_and_mask[of x 6]
    unat_and_mask[of x 10]
  by (simp_all add: mask_numeral)

section \<open>Lists\<close>

lemma nth_append_at [simp]: "(xs @ x # ys) ! length xs = x"
  by simp

lemma drop_append_at [simp]: "drop (length xs + n) (xs @ ys) = drop n ys"
  by simp

lemma list_cases3 [case_names Nil One Two More]:
  assumes "xs = [] \<Longrightarrow> P" "\<And>a. xs = [a] \<Longrightarrow> P" "\<And>a b. xs = [a, b] \<Longrightarrow> P"
    and "\<And>a b c ys. xs = a # b # c # ys \<Longrightarrow> P"
  shows P
  using assms by (metis list.exhaust)

section \<open>Big-endian numbers\<close>

text \<open>
  \<open>nat_of_be\<close> is Go's \<^verbatim>\<open>big.Int.SetBytes\<close>: the natural number whose big-endian base-256
  digits are given.  \<open>be_of_nat\<close> is \<^verbatim>\<open>big.Int.Bytes\<close>: the shortest such digit list.
\<close>

definition nat_of_be :: "byte list \<Rightarrow> nat" where
  "nat_of_be bs = foldl (\<lambda>a b. a * 256 + unat b) 0 bs"

fun be_of_nat :: "nat \<Rightarrow> byte list" where
  "be_of_nat n = (if n = 0 then [] else be_of_nat (n div 256) @ [word_of_nat n])"

declare be_of_nat.simps [simp del]

lemma nat_of_be_Nil [simp]: "nat_of_be [] = 0"
  by (simp add: nat_of_be_def)

lemma nat_of_be_snoc [simp]: "nat_of_be (bs @ [b]) = nat_of_be bs * 256 + unat b"
  by (simp add: nat_of_be_def)

lemma nat_of_be_append: "nat_of_be (as @ bs) = nat_of_be as * 256 ^ length bs + nat_of_be bs"
proof (induction bs rule: rev_induct)
  case (snoc b bs)
  have "nat_of_be (as @ bs @ [b]) = nat_of_be (as @ bs) * 256 + unat b"
    by (metis append_assoc nat_of_be_snoc)
  with snoc show ?case by (simp add: algebra_simps)
qed simp

lemma nat_of_be_replicate_zero [simp]: "nat_of_be (replicate k 0) = 0"
proof (induction k)
  case (Suc k)
  have "replicate (Suc k) (0::byte) = replicate k 0 @ [0]"
    by (simp add: replicate_append_same)
  with Suc show ?case by (simp del: replicate_Suc)
qed simp

lemma nat_of_be_less: "nat_of_be bs < 256 ^ length bs"
proof (induction bs rule: rev_induct)
  case (snoc b bs)
  then have "nat_of_be bs * 256 + 256 \<le> 256 ^ length bs * 256"
    by (metis Suc_leI add.commute mult_Suc mult_le_mono1)
  then show ?case using byte_lt[of b] by simp
qed simp

lemma nat_of_be_Cons: "nat_of_be (b # bs) = unat b * 256 ^ length bs + nat_of_be bs"
  using nat_of_be_append[of "[b]" bs] nat_of_be_snoc[of "[]" b] by simp

lemma be_of_nat_0 [simp]: "be_of_nat 0 = []"
  by (simp add: be_of_nat.simps)

lemma be_of_nat_pos: "0 < n \<Longrightarrow> be_of_nat n = be_of_nat (n div 256) @ [word_of_nat n]"
  by (subst be_of_nat.simps) simp

lemma nat_of_be_of_nat [simp]: "nat_of_be (be_of_nat n) = n"
proof (induction n rule: be_of_nat.induct)
  case (1 n)
  show ?case
  proof (cases "n = 0")
    case False
    with 1 show ?thesis
      by (simp add: be_of_nat_pos unsigned_of_nat take_bit_eq_mod)
  qed simp
qed

lemma be_of_nat_eq_Nil [simp]: "be_of_nat n = [] \<longleftrightarrow> n = 0"
  by (subst be_of_nat.simps) simp

lemma be_of_nat_hd: "0 < n \<Longrightarrow> be_of_nat n ! 0 \<noteq> 0"
proof (induction n rule: be_of_nat.induct)
  case (1 n)
  show ?case
  proof (cases "n div 256 = 0")
    case True
    then have "n < 256" by simp
    then have "unat (word_of_nat n :: byte) = n"
      by (simp add: unsigned_of_nat take_bit_nat_eq_self)
    moreover have "be_of_nat n = [word_of_nat n]"
      using True \<open>0 < n\<close> by (simp add: be_of_nat_pos)
    ultimately show ?thesis using \<open>0 < n\<close> by auto
  next
    case False
    then have "be_of_nat (n div 256) \<noteq> []" by simp
    moreover have "be_of_nat (n div 256) ! 0 \<noteq> 0"
      using "1.IH" False \<open>0 < n\<close> by simp
    ultimately show ?thesis
      using be_of_nat_pos[OF \<open>0 < n\<close>] by (simp add: nth_append)
  qed
qed

lemma length_be_of_nat_le: "n < 256 ^ k \<Longrightarrow> length (be_of_nat n) \<le> k"
proof (induction k arbitrary: n)
  case 0
  then show ?case by simp
next
  case (Suc k)
  show ?case
  proof (cases "n = 0")
    case False
    have "n div 256 < 256 ^ k"
      using Suc.prems by (simp add: less_mult_imp_div_less mult.commute)
    with Suc.IH False show ?thesis by (simp add: be_of_nat_pos)
  qed simp
qed

lemma be_of_nat_hd_bounds:
  assumes "0 < n"
  shows "unat (be_of_nat n ! 0) * 256 ^ (length (be_of_nat n) - 1) \<le> n"
    and "n < Suc (unat (be_of_nat n ! 0)) * 256 ^ (length (be_of_nat n) - 1)"
proof -
  from assms obtain b bs where b: "be_of_nat n = b # bs"
    by (cases "be_of_nat n") auto
  then have n: "n = unat b * 256 ^ length bs + nat_of_be bs"
    by (metis nat_of_be_Cons nat_of_be_of_nat)
  with b show "unat (be_of_nat n ! 0) * 256 ^ (length (be_of_nat n) - 1) \<le> n"
    by simp
  show "n < Suc (unat (be_of_nat n ! 0)) * 256 ^ (length (be_of_nat n) - 1)"
    using n b nat_of_be_less[of bs] by simp
qed

end
