(* ===== verification/GoLang.thy ===== *)
theory GoLang
  imports Prelude "HOL-Library.Signed_Division"
begin

unbundle bit_operations_syntax

text \<open>
  The parts of Go and of its standard library that the driver uses: strings as byte
  sequences, the conversions between strings, byte slices and runes, UTF-16, error
  values and times.  A Go string is a HOL \<open>string\<close>: one \<open>char\<close> per byte.
\<close>

section \<open>Errors\<close>

text \<open>
  \<open>Errorf m\<close> is \<^verbatim>\<open>fmt.Errorf\<close>/\<^verbatim>\<open>errors.New\<close> with the constant text \<open>m\<close> of the format (the
  formatted arguments are left out), \<open>Wrapf m e\<close> the same with \<^verbatim>\<open>%w\<close>.  \<open>ServerError\<close> is
  \<^verbatim>\<open>*hsql.Error\<close>: message, SQLState and code.  \<open>NetError\<close> is any failure of the socket and
  \<open>CtxError\<close> what \<^verbatim>\<open>ctx.Err()\<close> returns.
\<close>

datatype go_error =
    ErrShortBuffer
  | ErrBadConn
  | ErrSkip
  | EOF
  | ErrUnexpectedEOF
  | NetError
  | CtxError
  | ErrRowsClosed
  | ErrNoCurrentRow
  | ServerError string string i32
  | Errorf string
  | Wrapf string go_error

text \<open>A call that returns a value and an error: the value is only meaningful without an error.\<close>

type_synonym 'a go_result = "go_error + 'a"

section \<open>Strings, byte slices and runes\<close>

definition bytes_of_string :: "string \<Rightarrow> byte list" where
  "bytes_of_string s = map of_char s"

definition string_of_bytes :: "byte list \<Rightarrow> string" where
  "string_of_bytes bs = map (\<lambda>b. char_of (unat b)) bs"

lemma unat_of_char: "unat (of_char c :: byte) = of_char c"
proof -
  have "(of_char c :: byte) = word_of_nat (of_char c)" by (simp only: of_nat_of_char)
  then show ?thesis by (simp only: unsigned_of_nat) (simp add: take_bit_nat_eq_self)
qed

lemma of_char_char_of: "of_char (char_of (unat (b::byte))) = b"
proof -
  have "(of_char (char_of (unat b)) :: byte) = word_of_nat (of_char (char_of (unat b)))"
    by (simp only: of_nat_of_char)
  also have "of_char (char_of (unat b)) = unat b"
    using byte_lt[of b] by (simp only: of_char_of mod_less)
  finally show ?thesis by simp
qed

lemma string_of_bytes_of_string [simp]: "string_of_bytes (bytes_of_string s) = s"
  by (simp add: string_of_bytes_def bytes_of_string_def o_def unat_of_char)

lemma bytes_of_string_of_bytes [simp]: "bytes_of_string (string_of_bytes bs) = bs"
  by (simp add: string_of_bytes_def bytes_of_string_def o_def of_char_char_of)

lemma bytes_of_string_append [simp]:
  "bytes_of_string (s @ t) = bytes_of_string s @ bytes_of_string t"
  by (simp add: bytes_of_string_def)

lemma length_bytes_of_string [simp]: "length (bytes_of_string s) = length s"
  by (simp add: bytes_of_string_def)

text \<open>\<^verbatim>\<open>utf8.RuneError\<close>, the replacement character.\<close>

abbreviation RuneError :: rune where "RuneError \<equiv> 0xFFFD"

text \<open>
  The accept range of the second byte after each lead byte (the table of
  \<^verbatim>\<open>unicode/utf8\<close>): overlong forms, surrogates and code points above U+10FFFF are excluded.
\<close>

definition accept2 :: "byte \<Rightarrow> byte \<Rightarrow> bool" where
  "accept2 b0 b1 =
     ((if b0 = 0xE0 then 0xA0 else if b0 = 0xF0 then 0x90 else 0x80) \<le> b1 \<and>
      b1 \<le> (if b0 = 0xED then 0x9F else if b0 = 0xF4 then 0x8F else 0xBF))"

definition cont :: "byte \<Rightarrow> bool" where
  "cont b = (0x80 \<le> b \<and> b \<le> 0xBF)"

text \<open>
  \<^verbatim>\<open>utf8.DecodeRune\<close>: the first rune of a byte sequence and its width; an invalid byte is
  U+FFFD with width 1.
\<close>

fun DecodeRune :: "byte list \<Rightarrow> rune \<times> nat" where
  "DecodeRune [] = (RuneError, 0)"
| "DecodeRune (b0 # bs) =
     (if b0 < 0x80 then (ucast b0, 1)
      else if 0xC2 \<le> b0 \<and> b0 \<le> 0xDF then
        (case bs of
           b1 # _ \<Rightarrow>
             if accept2 b0 b1
             then (push_bit 6 (ucast (b0 AND 0x1F)) OR ucast (b1 AND 0x3F), 2)
             else (RuneError, 1)
         | _ \<Rightarrow> (RuneError, 1))
      else if 0xE0 \<le> b0 \<and> b0 \<le> 0xEF then
        (case bs of
           b1 # b2 # _ \<Rightarrow>
             if accept2 b0 b1 \<and> cont b2
             then (push_bit 12 (ucast (b0 AND 0x0F)) OR
                   (push_bit 6 (ucast (b1 AND 0x3F)) OR ucast (b2 AND 0x3F)), 3)
             else (RuneError, 1)
         | _ \<Rightarrow> (RuneError, 1))
      else if 0xF0 \<le> b0 \<and> b0 \<le> 0xF4 then
        (case bs of
           b1 # b2 # b3 # _ \<Rightarrow>
             if accept2 b0 b1 \<and> cont b2 \<and> cont b3
             then (push_bit 18 (ucast (b0 AND 0x07)) OR
                   (push_bit 12 (ucast (b1 AND 0x3F)) OR
                    (push_bit 6 (ucast (b2 AND 0x3F)) OR ucast (b3 AND 0x3F))), 4)
             else (RuneError, 1)
         | _ \<Rightarrow> (RuneError, 1))
      else (RuneError, 1))"

declare DecodeRune.simps(2) [simp del]

text \<open>\<^verbatim>\<open>for _, r := range s\<close>: the runes of a string, decoded one after the other.\<close>

fun decode_utf8 :: "byte list \<Rightarrow> rune list" where
  "decode_utf8 [] = []"
| "decode_utf8 (b0 # bs) =
     (let (r, n) = DecodeRune (b0 # bs) in r # decode_utf8 (drop (n - 1) bs))"

declare decode_utf8.simps(2) [simp del]

definition range_runes :: "string \<Rightarrow> rune list" where
  "range_runes s = decode_utf8 (bytes_of_string s)"

text \<open>\<^verbatim>\<open>utf8.AppendRune\<close>: surrogates and out-of-range values are written as U+FFFD.\<close>

definition encode_rune :: "rune \<Rightarrow> byte list" where
  "encode_rune r0 =
     (let r = (if r0 > 0x10FFFF \<or> (0xD800 \<le> r0 \<and> r0 \<le> 0xDFFF) then RuneError else r0) in
      if r \<le> 0x7F then [ucast r]
      else if r \<le> 0x7FF then
        [0xC0 OR ucast (drop_bit 6 r), 0x80 OR (ucast r AND 0x3F)]
      else if r \<le> 0xFFFF then
        [0xE0 OR ucast (drop_bit 12 r), 0x80 OR (ucast (drop_bit 6 r) AND 0x3F),
         0x80 OR (ucast r AND 0x3F)]
      else
        [0xF0 OR ucast (drop_bit 18 r), 0x80 OR (ucast (drop_bit 12 r) AND 0x3F),
         0x80 OR (ucast (drop_bit 6 r) AND 0x3F), 0x80 OR (ucast r AND 0x3F)])"

text \<open>\<^verbatim>\<open>string(runes)\<close>.\<close>

definition string_of_runes :: "rune list \<Rightarrow> string" where
  "string_of_runes rs = string_of_bytes (concat (map encode_rune rs))"

text \<open>A Unicode scalar value: a code point that is not a surrogate.\<close>

definition scalar :: "rune \<Rightarrow> bool" where
  "scalar r \<longleftrightarrow> unat r < 0xD800 \<or> (0xE000 \<le> unat r \<and> unat r < 0x110000)"

section \<open>UTF-16\<close>

type_synonym u16 = "16 word"

text \<open>\<^verbatim>\<open>utf16.Encode\<close> and \<^verbatim>\<open>utf16.Decode\<close>.\<close>

fun utf16_encode :: "rune list \<Rightarrow> u16 list" where
  "utf16_encode [] = []"
| "utf16_encode (r # rs) =
     (if r < 0xD800 \<or> (0xE000 \<le> r \<and> r < 0x10000) then ucast r # utf16_encode rs
      else if 0x10000 \<le> r \<and> r \<le> 0x10FFFF then
        (0xD800 + ucast (drop_bit 10 (r - 0x10000) AND 0x3FF)) #
        (0xDC00 + ucast ((r - 0x10000) AND 0x3FF)) # utf16_encode rs
      else ucast RuneError # utf16_encode rs)"

fun utf16_decode :: "u16 list \<Rightarrow> rune list" where
  "utf16_decode [] = []"
| "utf16_decode (u # us) =
     (if u < 0xD800 \<or> 0xE000 \<le> u then ucast u # utf16_decode us
      else if u < 0xDC00 then
        (case us of
           v # vs \<Rightarrow>
             if 0xDC00 \<le> v \<and> v < 0xE000
             then ((push_bit 10 (ucast u - 0xD800) OR (ucast v - 0xDC00)) + 0x10000) # utf16_decode vs
             else RuneError # utf16_decode us
         | [] \<Rightarrow> RuneError # utf16_decode us)
      else RuneError # utf16_decode us)"

declare utf16_decode.simps(2) [simp del]

section \<open>Facts on runes\<close>

lemma scalar_RuneError [simp]: "scalar RuneError"
  by (simp add: scalar_def)

lemma rune_fields:
  assumes "unat (r::rune) < 0x110000"
  shows "unat (ucast r AND 0x3F :: byte) = unat r mod 64"
    and "unat (ucast (drop_bit 6 r) AND 0x3F :: byte) = unat r div 64 mod 64"
    and "unat (ucast (drop_bit 12 r) AND 0x3F :: byte) = unat r div 4096 mod 64"
    and "unat (ucast (drop_bit 6 r) :: byte) = unat r div 64 mod 256"
    and "unat (ucast (drop_bit 12 r) :: byte) = unat r div 4096 mod 256"
    and "unat (ucast (drop_bit 18 r) :: byte) = unat r div 262144 mod 256"
    and "unat (ucast r :: byte) = unat r mod 256"
  by (simp_all add: unat_and_low unsigned_ucast_eq take_bit_eq_mod unat_drop_bit_div mod_mod_cancel)

lemma unat_push_ucast:
  "k \<le> 24 \<Longrightarrow> unat (push_bit k (ucast (x::byte) :: rune)) = unat x * 2 ^ k"
proof -
  assume k: "k \<le> 24"
  have "(2::nat) ^ k \<le> 2 ^ 24" using k by (rule power_increasing) simp
  then have "unat x * 2 ^ k < 256 * 2 ^ 24"
    by (intro mult_less_le_imp_less) (use byte_lt[of x] in simp_all)
  then have l: "unat x * 2 ^ k < 2 ^ LENGTH(32)" by simp
  have x: "unat (ucast x :: rune) = unat x"
    using byte_lt[of x] by (simp add: unsigned_ucast_eq take_bit_nat_eq_self)
  have "unat (push_bit k (ucast x :: rune)) = take_bit LENGTH(32) (push_bit k (unat x))"
    by (simp only: unsigned_push_bit_eq x)
  then show ?thesis
    by (simp only: push_bit_eq_mult[of k "unat x"] take_bit_nat_eq_self[OF l])
qed

lemma unat_ucast_byte: "unat (ucast (x::byte) :: rune) = unat x"
  using unat_push_ucast[of 0 x] by simp

lemma lead_mods:
  "(128 + a) mod 64 = a mod 64" "(192 + a) mod 32 = a mod 32"
  "(224 + a) mod 16 = a mod 16" "(240 + a) mod 8 = a mod 8" for a :: nat
proof -
  have "(128 + a) mod 64 = (2 * 64 + a) mod 64" "(192 + a) mod 32 = (6 * 32 + a) mod 32"
    "(224 + a) mod 16 = (14 * 16 + a) mod 16" "(240 + a) mod 8 = (30 * 8 + a) mod 8"
    by simp_all
  then show "(128 + a) mod 64 = a mod 64" "(192 + a) mod 32 = a mod 32"
    "(224 + a) mod 16 = a mod 16" "(240 + a) mod 8 = a mod 8"
    by (simp_all only: mod_mult_self3)
qed

lemma three_digits: "n div 4096 * 4096 + (n div 64 mod 64 * 64 + n mod 64) = (n::nat)"
proof -
  have "n div 4096 = n div 64 div 64" by (simp add: div_mult2_eq[symmetric])
  then show ?thesis
    using div_mult_mod_eq[of "n div 64" 64] div_mult_mod_eq[of n 64] by linarith
qed

lemma four_digits:
  "n div 262144 * 262144 + (n div 4096 mod 64 * 4096 + (n div 64 mod 64 * 64 + n mod 64)) = (n::nat)"
proof -
  have "n div 262144 = n div 4096 div 64" by (simp add: div_mult2_eq[symmetric])
  then show ?thesis
    using div_mult_mod_eq[of "n div 4096" 64] three_digits[of n] by linarith
qed

lemma rune_join:
  "unat a < 2 ^ k \<Longrightarrow> k \<le> 24 \<Longrightarrow>
   unat (push_bit k (ucast (x::byte)) OR (a::rune)) = unat x * 2 ^ k + unat a"
  by (simp add: unat_push_or unat_push_ucast)

lemma encode_rune_cases:
  assumes "scalar r"
  shows "encode_rune r =
    (if unat r < 0x80 then [ucast r]
     else if unat r < 0x800 then
       [0xC0 OR ucast (drop_bit 6 r), 0x80 OR (ucast r AND 0x3F)]
     else if unat r < 0x10000 then
       [0xE0 OR ucast (drop_bit 12 r), 0x80 OR (ucast (drop_bit 6 r) AND 0x3F),
        0x80 OR (ucast r AND 0x3F)]
     else
       [0xF0 OR ucast (drop_bit 18 r), 0x80 OR (ucast (drop_bit 12 r) AND 0x3F),
        0x80 OR (ucast (drop_bit 6 r) AND 0x3F), 0x80 OR (ucast r AND 0x3F)])"
proof -
  have "\<not> (r > 0x10FFFF \<or> (0xD800 \<le> r \<and> r \<le> 0xDFFF))"
    using assms by (auto simp: scalar_def word_less_nat_alt word_le_nat_alt)
  then have "(if r > 0x10FFFF \<or> (0xD800 \<le> r \<and> r \<le> 0xDFFF) then RuneError else r) = r"
    by (rule if_not_P)
  then show ?thesis
    by (simp only: encode_rune_def Let_def) (simp add: word_le_nat_alt less_Suc_eq_le[symmetric])
qed

text \<open>Decoding takes one rune off the front of its own encoding.\<close>

lemma DecodeRune_encode_rune:
  assumes "scalar r"
  shows "DecodeRune (encode_rune r @ bs) = (r, length (encode_rune r))"
proof -
  have r: "unat r < 0x110000" using assms by (auto simp: scalar_def)
  note f = rune_fields[OF r]
  note enc = encode_rune_cases[OF assms]
  consider "unat r < 0x80" | "0x80 \<le> unat r" "unat r < 0x800"
    | "0x800 \<le> unat r" "unat r < 0x10000" | "0x10000 \<le> unat r"
    by linarith
  then show ?thesis
  proof cases
    case 1
    then show ?thesis
      by (simp add: enc DecodeRune.simps(2) word_less_nat_alt f word_unat_eq_iff unat_ucast_byte)
  next
    case 2
    let ?b0 = "0xC0 OR ucast (drop_bit 6 r) :: byte" and ?b1 = "0x80 OR (ucast r AND 0x3F) :: byte"
    have b: "unat ?b0 = 192 + unat r div 64" "unat ?b1 = 128 + unat r mod 64"
      using 2 by (simp_all add: byte_or_lead f)
    have "unat (push_bit 6 (ucast (?b0 AND 0x1F)) OR ucast (?b1 AND 0x3F) :: rune) = unat r"
      using 2 by (simp add: rune_join unat_ucast_byte unat_and_low b lead_mods)
    then have v: "push_bit 6 (ucast (?b0 AND 0x1F)) OR ucast (?b1 AND 0x3F) = r"
      by (simp only: word_unat_eq_iff)
    have t: "\<not> ?b0 < 0x80" "0xC2 \<le> ?b0" "?b0 \<le> 0xDF" "accept2 ?b0 ?b1"
      using 2 by (auto simp: accept2_def word_less_nat_alt word_le_nat_alt b word_unat_eq_iff)
    show ?thesis using 2 by (simp add: enc DecodeRune.simps(2) t v)
  next
    case 3
    let ?b0 = "0xE0 OR ucast (drop_bit 12 r) :: byte"
      and ?b1 = "0x80 OR (ucast (drop_bit 6 r) AND 0x3F) :: byte"
      and ?b2 = "0x80 OR (ucast r AND 0x3F) :: byte"
    have b: "unat ?b0 = 224 + unat r div 4096" "unat ?b1 = 128 + unat r div 64 mod 64"
      "unat ?b2 = 128 + unat r mod 64"
      using 3 by (simp_all add: byte_or_lead f)
    have "unat (push_bit 12 (ucast (?b0 AND 0x0F)) OR
        (push_bit 6 (ucast (?b1 AND 0x3F)) OR ucast (?b2 AND 0x3F)) :: rune)
      = unat r div 4096 * 4096 + (unat r div 64 mod 64 * 64 + unat r mod 64)"
      using 3 by (simp add: rune_join unat_ucast_byte unat_and_low b lead_mods)
    also have "\<dots> = unat r" by (simp add: three_digits)
    finally have v: "push_bit 12 (ucast (?b0 AND 0x0F)) OR
        (push_bit 6 (ucast (?b1 AND 0x3F)) OR ucast (?b2 AND 0x3F)) = r"
      by (simp only: word_unat_eq_iff)
    have "unat r < 55296 \<Longrightarrow> unat r div 4096 = 13 \<Longrightarrow> unat r div 64 mod 64 \<le> 31"
      using three_digits[of "unat r"] by linarith
    then have t: "\<not> ?b0 < 0x80" "\<not> ?b0 \<le> 0xDF" "0xE0 \<le> ?b0" "?b0 \<le> 0xEF"
        "accept2 ?b0 ?b1" "cont ?b2"
      using 3 assms by (auto simp: accept2_def cont_def scalar_def word_less_nat_alt
          word_le_nat_alt b word_unat_eq_iff)
    show ?thesis using 3 by (simp add: enc DecodeRune.simps(2) t v)
  next
    case 4
    let ?b0 = "0xF0 OR ucast (drop_bit 18 r) :: byte"
      and ?b1 = "0x80 OR (ucast (drop_bit 12 r) AND 0x3F) :: byte"
      and ?b2 = "0x80 OR (ucast (drop_bit 6 r) AND 0x3F) :: byte"
      and ?b3 = "0x80 OR (ucast r AND 0x3F) :: byte"
    have b: "unat ?b0 = 240 + unat r div 262144" "unat ?b1 = 128 + unat r div 4096 mod 64"
      "unat ?b2 = 128 + unat r div 64 mod 64" "unat ?b3 = 128 + unat r mod 64"
      using 4 r by (simp_all add: byte_or_lead f)
    have "unat (push_bit 18 (ucast (?b0 AND 0x07)) OR (push_bit 12 (ucast (?b1 AND 0x3F)) OR
        (push_bit 6 (ucast (?b2 AND 0x3F)) OR ucast (?b3 AND 0x3F))) :: rune)
      = unat r div 262144 * 262144 + (unat r div 4096 mod 64 * 4096 +
          (unat r div 64 mod 64 * 64 + unat r mod 64))"
      using 4 r by (simp add: rune_join unat_ucast_byte unat_and_low b lead_mods)
    also have "\<dots> = unat r" by (simp add: four_digits)
    finally have v: "push_bit 18 (ucast (?b0 AND 0x07)) OR (push_bit 12 (ucast (?b1 AND 0x3F)) OR
        (push_bit 6 (ucast (?b2 AND 0x3F)) OR ucast (?b3 AND 0x3F))) = r"
      by (simp only: word_unat_eq_iff)
    have "unat r div 262144 = 4 \<Longrightarrow> unat r div 4096 mod 64 \<le> 15"
      using four_digits[of "unat r"] r by linarith
    then have t: "\<not> ?b0 < 0x80" "\<not> ?b0 \<le> 0xDF" "\<not> ?b0 \<le> 0xEF" "0xF0 \<le> ?b0" "?b0 \<le> 0xF4"
        "accept2 ?b0 ?b1" "cont ?b2" "cont ?b3"
      using 4 r by (auto simp: accept2_def cont_def word_less_nat_alt word_le_nat_alt b
          word_unat_eq_iff)
    show ?thesis using 4 by (simp add: enc DecodeRune.simps(2) t v)
  qed
qed

lemma encode_rune_length: "0 < length (encode_rune r)"
  by (simp add: encode_rune_def Let_def)

lemma decode_encode_rune:
  assumes "scalar r"
  shows "decode_utf8 (encode_rune r @ bs) = r # decode_utf8 bs"
proof -
  obtain b0 es where e: "encode_rune r = b0 # es"
    using encode_rune_length[of r] by (cases "encode_rune r") auto
  with DecodeRune_encode_rune[OF assms, of bs] have "DecodeRune (b0 # es @ bs) = (r, Suc (length es))"
    by simp
  then show ?thesis by (simp add: e decode_utf8.simps(2))
qed

text \<open>Ranging over a string only ever yields Unicode scalar values.\<close>

lemma lead_residues:
  "192 \<le> a \<Longrightarrow> a < 224 \<Longrightarrow> a mod 32 = a - 192"
  "224 \<le> a \<Longrightarrow> a < 240 \<Longrightarrow> a mod 16 = a - 224"
  "240 \<le> a \<Longrightarrow> a < 248 \<Longrightarrow> a mod 8 = a - 240"
  "128 \<le> a \<Longrightarrow> a < 192 \<Longrightarrow> a mod 64 = a - 128" for a :: nat
  by (rule mod_nat_eqI; simp)+

lemma two_byte_scalar:
  assumes "0xC2 \<le> (b0::byte)" "b0 \<le> 0xDF"
  shows "scalar (push_bit 6 (ucast (b0 AND 0x1F)) OR ucast ((b1::byte) AND 0x3F))"
proof -
  have "unat b0 mod 32 < 32" "unat b1 mod 64 < 64" by simp_all
  then have "unat b0 mod 32 * 64 + unat b1 mod 64 < 0xD800" by linarith
  then show ?thesis
    by (simp add: scalar_def rune_join unat_ucast_byte unat_and_low)
qed

lemma three_byte_scalar:
  assumes "0xE0 \<le> (b0::byte)" "b0 \<le> 0xEF" "accept2 b0 b1"
  shows "scalar (push_bit 12 (ucast (b0 AND 0x0F)) OR
           (push_bit 6 (ucast (b1 AND 0x3F)) OR ucast ((b2::byte) AND 0x3F)))"
proof -
  define a c d where "a = unat b0 - 224" and "c = unat b1 - 128" and "d = unat b2 mod 64"
  have "224 \<le> unat b0" "unat b0 < 240" "128 \<le> unat b1" "unat b1 < 192"
    using assms by (auto simp: word_le_nat_alt accept2_def split: if_splits)
  then have b: "unat b0 = 224 + a" "unat b1 = 128 + c" "a < 16" "c < 64"
    by (simp_all add: a_def c_def)
  have sur: "a = 13 \<Longrightarrow> c < 32"
    using assms b by (simp add: word_le_nat_alt accept2_def word_unat_eq_iff)
  have d: "d < 64" by (simp add: d_def)
  have "unat (push_bit 6 (ucast (b1 AND 0x3F)) OR ucast (b2 AND 0x3F) :: rune) = c * 64 + d"
    using b by (simp add: rune_join unat_ucast_byte unat_and_low lead_mods d_def)
  moreover have "c * 64 + d < 2 ^ 12" using b(4) d by simp
  ultimately have v: "unat (push_bit 12 (ucast (b0 AND 0x0F)) OR
      (push_bit 6 (ucast (b1 AND 0x3F)) OR ucast (b2 AND 0x3F)) :: rune) = a * 4096 + (c * 64 + d)"
    using b by (simp add: rune_join unat_and_low lead_mods)
  consider "a < 13" | "a = 13" "c < 32" | "13 < a" using sur by linarith
  then show ?thesis
  proof cases
    case 1
    then have "a * 4096 + (c * 64 + d) < 0xD800" using b(4) d by simp
    then show ?thesis unfolding scalar_def v by blast
  next
    case 2
    then have "a * 4096 + (c * 64 + d) < 0xD800" using d by simp
    then show ?thesis unfolding scalar_def v by blast
  next
    case 3
    then have "0xE000 \<le> a * 4096 + (c * 64 + d)" "a * 4096 + (c * 64 + d) < 0x110000"
      using b(3,4) d by simp_all
    then show ?thesis unfolding scalar_def v by blast
  qed
qed

lemma four_byte_scalar:
  assumes "0xF0 \<le> (b0::byte)" "b0 \<le> 0xF4" "accept2 b0 b1"
  shows "scalar (push_bit 18 (ucast (b0 AND 0x07)) OR (push_bit 12 (ucast (b1 AND 0x3F)) OR
           (push_bit 6 (ucast ((b2::byte) AND 0x3F)) OR ucast ((b3::byte) AND 0x3F))))"
proof -
  define a c w where "a = unat b0 - 240" and "c = unat b1 - 128"
    and "w = unat b2 mod 64 * 64 + unat b3 mod 64"
  have "240 \<le> unat b0" "unat b0 < 245" "128 \<le> unat b1" "unat b1 < 192"
    using assms by (auto simp: word_le_nat_alt accept2_def split: if_splits)
  then have b: "unat b0 = 240 + a" "unat b1 = 128 + c" "a < 5" "c < 64"
    by (simp_all add: a_def c_def)
  have hi: "a = 4 \<Longrightarrow> c < 16" and lo: "a = 0 \<Longrightarrow> 16 \<le> c"
    using assms b by (simp_all add: word_le_nat_alt accept2_def word_unat_eq_iff)
  have "unat b2 mod 64 < 64" "unat b3 mod 64 < 64" by simp_all
  then have w: "w < 4096" unfolding w_def by linarith
  have "unat (push_bit 6 (ucast (b2 AND 0x3F)) OR ucast (b3 AND 0x3F) :: rune) = w"
    by (simp add: rune_join unat_ucast_byte unat_and_low w_def)
  with w b have "unat (push_bit 12 (ucast (b1 AND 0x3F)) OR
      (push_bit 6 (ucast (b2 AND 0x3F)) OR ucast (b3 AND 0x3F)) :: rune) = c * 4096 + w"
    by (simp add: rune_join unat_and_low lead_mods)
  moreover have "c * 4096 + w < 2 ^ 18" using b(4) w by simp
  ultimately have v: "unat (push_bit 18 (ucast (b0 AND 0x07)) OR (push_bit 12 (ucast (b1 AND 0x3F)) OR
      (push_bit 6 (ucast (b2 AND 0x3F)) OR ucast (b3 AND 0x3F))) :: rune) = a * 262144 + (c * 4096 + w)"
    using b by (simp add: rune_join unat_and_low lead_mods)
  have "0xE000 \<le> a * 262144 + (c * 4096 + w)"
    using lo by (cases "a = 0") simp_all
  moreover have "a * 262144 + (c * 4096 + w) < 0x110000"
    using hi b(3,4) w by (cases "a = 4") simp_all
  ultimately show ?thesis unfolding scalar_def v by blast
qed

lemma DecodeRune_scalar: "scalar (fst (DecodeRune bs))"
proof (cases bs)
  case (Cons b0 bs')
  have "b0 < 0x80 \<Longrightarrow> scalar (ucast b0)"
    by (simp add: scalar_def unat_ucast_byte word_less_nat_alt)
  then show ?thesis
    by (simp add: Cons DecodeRune.simps(2) two_byte_scalar three_byte_scalar four_byte_scalar
        split: list.split)
qed simp

lemma decode_utf8_scalar: "\<forall>r\<in>set (decode_utf8 bs). scalar r"
proof (induction bs rule: decode_utf8.induct)
  case (2 b0 bs)
  obtain r n where d: "DecodeRune (b0 # bs) = (r, n)" by fastforce
  then have "scalar r" using DecodeRune_scalar[of "b0 # bs"] by simp
  with d "2.IH"[OF d[symmetric] refl] show ?case
    by (simp add: decode_utf8.simps(2))
qed simp

lemma range_runes_scalar: "r \<in> set (range_runes s) \<Longrightarrow> scalar r"
  using decode_utf8_scalar by (simp add: range_runes_def)

lemma range_string_of_runes:
  assumes "\<forall>r\<in>set rs. scalar r"
  shows "range_runes (string_of_runes rs) = rs"
proof -
  have "decode_utf8 (concat (map encode_rune rs)) = rs"
    using assms by (induction rs) (simp_all add: decode_encode_rune)
  then show ?thesis by (simp add: range_runes_def string_of_runes_def)
qed

end
