(* ===== verification/RowOut.thy ===== *)
theory RowOut
  imports GoLang
begin

unbundle bit_operations_syntax

text \<open>
  \<^verbatim>\<open>internal/proto/rowout.go\<close>: the append-only big-endian output buffer, Java's modified
  UTF-8 and the two's-complement form of arbitrary-precision integers.  Every operation
  is a function from the buffer to the buffer.
\<close>

section \<open>The buffer and its operations\<close>

record row_output =
  out_buf :: "byte list"

definition NewRowOutput :: row_output where
  "NewRowOutput = \<lparr>out_buf = []\<rparr>"

definition Reset :: "row_output \<Rightarrow> row_output" where
  "Reset w = w\<lparr>out_buf := take 0 (out_buf w)\<rparr>"

definition Bytes :: "row_output \<Rightarrow> byte list" where
  "Bytes w = out_buf w"

definition Len :: "row_output \<Rightarrow> nat" where
  "Len w = length (out_buf w)"

definition WriteU8 :: "byte \<Rightarrow> row_output \<Rightarrow> row_output" where
  "WriteU8 b w = w\<lparr>out_buf := out_buf w @ [b]\<rparr>"

definition WriteBool :: "bool \<Rightarrow> row_output \<Rightarrow> row_output" where
  "WriteBool v w =
     (if v then w\<lparr>out_buf := out_buf w @ [1]\<rparr> else w\<lparr>out_buf := out_buf w @ [0]\<rparr>)"

definition WriteShort :: "i16 \<Rightarrow> row_output \<Rightarrow> row_output" where
  "WriteShort v w = w\<lparr>out_buf := out_buf w @ [ucast (signed_drop_bit 8 v), ucast v]\<rparr>"

definition WriteInt :: "i32 \<Rightarrow> row_output \<Rightarrow> row_output" where
  "WriteInt v w = w\<lparr>out_buf := out_buf w @
     [ucast (signed_drop_bit 24 v), ucast (signed_drop_bit 16 v),
      ucast (signed_drop_bit 8 v), ucast v]\<rparr>"

definition WriteLong :: "i64 \<Rightarrow> row_output \<Rightarrow> row_output" where
  "WriteLong v w = w\<lparr>out_buf := out_buf w @
     [ucast (signed_drop_bit 56 v), ucast (signed_drop_bit 48 v),
      ucast (signed_drop_bit 40 v), ucast (signed_drop_bit 32 v),
      ucast (signed_drop_bit 24 v), ucast (signed_drop_bit 16 v),
      ucast (signed_drop_bit 8 v), ucast v]\<rparr>"

definition WriteType :: "i16 \<Rightarrow> row_output \<Rightarrow> row_output" where
  "WriteType t w = WriteShort t w"

text \<open>A \<^verbatim>\<open>float64\<close> is represented by its IEEE-754 bit pattern, so \<^verbatim>\<open>Float64bits\<close> is the identity.\<close>

definition WriteDouble :: "64 word \<Rightarrow> row_output \<Rightarrow> row_output" where
  "WriteDouble v w = WriteLong v w"

definition WriteRaw :: "byte list \<Rightarrow> row_output \<Rightarrow> row_output" where
  "WriteRaw b w = w\<lparr>out_buf := out_buf w @ b\<rparr>"

definition WriteBytes :: "byte list \<Rightarrow> row_output \<Rightarrow> row_output" where
  "WriteBytes b w =
     (let w = WriteInt (word_of_nat (length b)) w in w\<lparr>out_buf := out_buf w @ b\<rparr>)"

section \<open>Modified UTF-8\<close>

text \<open>One iteration of the loop over the runes of the string.\<close>

definition modified_rune :: "rune \<Rightarrow> byte list" where
  "modified_rune r =
     (if r = 0x0000 then [0xC0, 0x80]
      else if r \<le>s 0x007F then [ucast r]
      else if r \<le>s 0x07FF then
        [ucast (0xC0 OR signed_drop_bit 6 r), ucast (0x80 OR (r AND 0x3F))]
      else if r \<le>s 0xFFFF then
        [ucast (0xE0 OR signed_drop_bit 12 r), ucast (0x80 OR (signed_drop_bit 6 r AND 0x3F)),
         ucast (0x80 OR (r AND 0x3F))]
      else
        let r = r - 0x10000;
            hi = 0xD800 + signed_drop_bit 10 r;
            lo = 0xDC00 + (r AND 0x3FF)
        in [ucast (0xE0 OR signed_drop_bit 12 hi), ucast (0x80 OR (signed_drop_bit 6 hi AND 0x3F)),
            ucast (0x80 OR (hi AND 0x3F)),
            ucast (0xE0 OR signed_drop_bit 12 lo), ucast (0x80 OR (signed_drop_bit 6 lo AND 0x3F)),
            ucast (0x80 OR (lo AND 0x3F))])"

definition encodeModifiedUTF8 :: "string \<Rightarrow> byte list" where
  "encodeModifiedUTF8 s = concat (map modified_rune (range_runes s))"

definition WriteString :: "string \<Rightarrow> row_output \<Rightarrow> row_output" where
  "WriteString s w = WriteBytes (encodeModifiedUTF8 s) w"

section \<open>Two's-complement big integers\<close>

text \<open>
  \<open>big.Int\<close> is HOL's \<open>int\<close>; \<^verbatim>\<open>copy(out[n-len(tcb):], tcb)\<close> overwrites the tail of the zeroed
  buffer.
\<close>

definition bigIntToTwosComplement :: "int \<Rightarrow> byte list" where
  "bigIntToTwosComplement v =
     (if v = 0 then [0]
      else if v > 0 then
        let mag = be_of_nat (nat v)
        in if mag ! 0 AND 0x80 \<noteq> 0 then 0 # mag else mag
      else
        let mag = be_of_nat (nat (- v));
            n = (if mag ! 0 AND 0x80 \<noteq> 0 then length mag + 1 else length mag);
            out = replicate n (0::byte);
            tc = 2 ^ (8 * n) - (- v);
            tcb = be_of_nat (nat tc)
        in take (n - length tcb) out @ tcb)"

definition WriteDecimal :: "int \<Rightarrow> i32 \<Rightarrow> row_output \<Rightarrow> row_output" where
  "WriteDecimal unscaled scale w =
     WriteInt scale (WriteBytes (bigIntToTwosComplement unscaled) w)"

section \<open>What each operation appends\<close>

definition written :: "(row_output \<Rightarrow> row_output) \<Rightarrow> byte list" where
  "written f = out_buf (f NewRowOutput)"

text \<open>The contract of the buffer: an operation only appends, and what it appends does not
  depend on what is there.\<close>

locale appender =
  fixes wr :: "'a \<Rightarrow> row_output \<Rightarrow> row_output"
  assumes append: "out_buf (wr x w) = out_buf w @ written (wr x)"
begin

lemma length_out: "length (out_buf w) \<le> length (out_buf (wr x w))"
  by (subst append) simp

lemma prefix_kept: "take (length (out_buf w)) (out_buf (wr x w)) = out_buf w"
  by (subst append) simp

lemma append_fold: "out_buf (fold wr xs w) = out_buf w @ concat (map (\<lambda>x. written (wr x)) xs)"
proof (induction xs arbitrary: w)
  case (Cons x xs)
  have "out_buf (fold wr (x # xs) w) = out_buf (wr x w) @ concat (map (\<lambda>x. written (wr x)) xs)"
    by (simp add: Cons)
  also have "out_buf (wr x w) = out_buf w @ written (wr x)" by (rule append)
  finally show ?case by simp
qed simp

end

lemma out_buf_New [simp]: "out_buf NewRowOutput = []"
  by (simp add: NewRowOutput_def)

lemma written_U8: "written (WriteU8 b) = [b]"
  by (simp add: written_def WriteU8_def NewRowOutput_def)

lemma written_Bool: "written (WriteBool v) = [if v then 1 else 0]"
  by (simp add: written_def WriteBool_def NewRowOutput_def)

lemma written_Raw: "written (WriteRaw b) = b"
  by (simp add: written_def WriteRaw_def NewRowOutput_def)

lemma ucast_signed_drop_bit:
  "n + 8 \<le> LENGTH('a) \<Longrightarrow> (ucast (signed_drop_bit n (v::'a::len word)) :: byte) = ucast (drop_bit n v)"
  by (rule bit_word_eqI) (auto simp: bit_simps)

lemma written_Short: "written (WriteShort v) = [ucast (drop_bit 8 v), ucast v]"
  by (simp add: written_def WriteShort_def NewRowOutput_def ucast_signed_drop_bit)

lemma written_Int:
  "written (WriteInt v) =
     [ucast (drop_bit 24 v), ucast (drop_bit 16 v), ucast (drop_bit 8 v), ucast v]"
  by (simp add: written_def WriteInt_def NewRowOutput_def ucast_signed_drop_bit)

lemma written_Long:
  "written (WriteLong v) =
     [ucast (drop_bit 56 v), ucast (drop_bit 48 v), ucast (drop_bit 40 v), ucast (drop_bit 32 v),
      ucast (drop_bit 24 v), ucast (drop_bit 16 v), ucast (drop_bit 8 v), ucast v]"
  by (simp add: written_def WriteLong_def NewRowOutput_def ucast_signed_drop_bit)

lemma append_U8 [writes]: "out_buf (WriteU8 b w) = out_buf w @ written (WriteU8 b)"
  by (simp add: written_U8) (simp add: WriteU8_def)

lemma append_Bool [writes]: "out_buf (WriteBool b w) = out_buf w @ written (WriteBool b)"
  by (simp add: written_Bool) (simp add: WriteBool_def)

lemma append_Raw [writes]: "out_buf (WriteRaw b w) = out_buf w @ written (WriteRaw b)"
  by (simp add: written_Raw) (simp add: WriteRaw_def)

lemma append_Short [writes]: "out_buf (WriteShort v w) = out_buf w @ written (WriteShort v)"
  by (simp add: written_def WriteShort_def NewRowOutput_def)

lemma append_Int [writes]: "out_buf (WriteInt v w) = out_buf w @ written (WriteInt v)"
  by (simp add: written_def WriteInt_def NewRowOutput_def)

lemma append_Long [writes]: "out_buf (WriteLong v w) = out_buf w @ written (WriteLong v)"
  by (simp add: written_def WriteLong_def NewRowOutput_def)

lemma append_Type [writes]: "out_buf (WriteType t w) = out_buf w @ written (WriteType t)"
  by (simp add: WriteType_def[abs_def] writes)

lemma append_Double [writes]: "out_buf (WriteDouble t w) = out_buf w @ written (WriteDouble t)"
  by (simp add: WriteDouble_def[abs_def] writes)

lemma written_Bytes: "written (WriteBytes b) = written (WriteInt (word_of_nat (length b))) @ b"
  by (simp add: written_def WriteBytes_def Let_def)

lemma append_Bytes [writes]: "out_buf (WriteBytes b w) = out_buf w @ written (WriteBytes b)"
  by (simp add: written_Bytes) (simp add: WriteBytes_def Let_def writes)

lemma append_String [writes]: "out_buf (WriteString s w) = out_buf w @ written (WriteString s)"
  by (simp add: WriteString_def[abs_def] writes)

lemma written_Decimal:
  "written (WriteDecimal u s) = written (WriteBytes (bigIntToTwosComplement u)) @ written (WriteInt s)"
  by (simp add: written_def[of "WriteDecimal u s"] WriteDecimal_def writes)

lemma append_Decimal [writes]:
  "out_buf (WriteDecimal u s w) = out_buf w @ written (WriteDecimal u s)"
  by (simp add: written_Decimal) (simp add: WriteDecimal_def writes)

interpretation u8_out: appender WriteU8 by unfold_locales (rule writes)
interpretation bool_out: appender WriteBool by unfold_locales (rule writes)
interpretation short_out: appender WriteShort by unfold_locales (rule writes)
interpretation int_out: appender WriteInt by unfold_locales (rule writes)
interpretation long_out: appender WriteLong by unfold_locales (rule writes)
interpretation type_out: appender WriteType by unfold_locales (rule writes)
interpretation double_out: appender WriteDouble by unfold_locales (rule writes)
interpretation bytes_out: appender WriteBytes by unfold_locales (rule writes)
interpretation raw_out: appender WriteRaw by unfold_locales (rule writes)
interpretation string_out: appender WriteString by unfold_locales (rule writes)
interpretation decimal_out: appender "\<lambda>(u, s). WriteDecimal u s"
  by unfold_locales (auto simp: writes)

lemma length_written [simp]:
  "length (written (WriteU8 b)) = 1" "length (written (WriteBool v)) = 1"
  "length (written (WriteShort s)) = 2" "length (written (WriteInt i)) = 4"
  "length (written (WriteLong l)) = 8" "length (written (WriteType s)) = 2"
  "length (written (WriteDouble d)) = 8" "length (written (WriteRaw r)) = length r"
  "length (written (WriteBytes r)) = 4 + length r"
  by (simp_all add: written_U8 written_Bool written_Short written_Int written_Long
      WriteType_def[abs_def] WriteDouble_def[abs_def] written_Raw written_Bytes)

end
