(* ===== verification/RowIn.thy ===== *)
theory RowIn
  imports RowOut
begin

unbundle bit_operations_syntax

text \<open>
  \<^verbatim>\<open>internal/proto/rowin.go\<close>: the big-endian reader over a byte slice with its sticky
  error.  A read method is a function from the reader's state to its result and the new
  state; a failed read returns the zero value and leaves the position alone.
\<close>

section \<open>The reader and its operations\<close>

record row_input =
  in_buf :: "byte list"
  in_pos :: nat
  in_err :: "go_error option"

definition NewRowInput :: "byte list \<Rightarrow> row_input" where
  "NewRowInput buf = \<lparr>in_buf = buf, in_pos = 0, in_err = None\<rparr>"

definition Err :: "row_input \<Rightarrow> go_error option" where
  "Err r = in_err r"

definition Remaining :: "row_input \<Rightarrow> int" where
  "Remaining r = int (length (in_buf r)) - int (in_pos r)"

definition need :: "nat \<Rightarrow> row_input \<Rightarrow> bool \<times> row_input" where
  "need n r =
     (if in_err r \<noteq> None then (False, r)
      else if in_pos r + n > length (in_buf r) then (False, r\<lparr>in_err := Some ErrShortBuffer\<rparr>)
      else (True, r))"

definition ReadU8 :: "row_input \<Rightarrow> byte \<times> row_input" where
  "ReadU8 r =
     (let (ok, r) = need 1 r in
      if \<not> ok then (0, r)
      else (in_buf r ! in_pos r, r\<lparr>in_pos := in_pos r + 1\<rparr>))"

definition ReadBool :: "row_input \<Rightarrow> bool \<times> row_input" where
  "ReadBool r = (let (b, r) = ReadU8 r in (b \<noteq> 0, r))"

definition ReadShort :: "row_input \<Rightarrow> i16 \<times> row_input" where
  "ReadShort r =
     (let (ok, r) = need 2 r in
      if \<not> ok then (0, r)
      else (push_bit 8 (ucast (in_buf r ! in_pos r)) OR ucast (in_buf r ! (in_pos r + 1)),
            r\<lparr>in_pos := in_pos r + 2\<rparr>))"

definition ReadInt :: "row_input \<Rightarrow> i32 \<times> row_input" where
  "ReadInt r =
     (let (ok, r) = need 4 r in
      if \<not> ok then (0, r)
      else (push_bit 24 (ucast (in_buf r ! in_pos r)) OR
            (push_bit 16 (ucast (in_buf r ! (in_pos r + 1))) OR
             (push_bit 8 (ucast (in_buf r ! (in_pos r + 2))) OR
              ucast (in_buf r ! (in_pos r + 3)))),
            r\<lparr>in_pos := in_pos r + 4\<rparr>))"

definition ReadLong :: "row_input \<Rightarrow> i64 \<times> row_input" where
  "ReadLong r =
     (let (ok, r) = need 8 r in
      if \<not> ok then (0, r)
      else let b = take 8 (drop (in_pos r) (in_buf r)) in
           (push_bit 56 (ucast (b ! 0)) OR (push_bit 48 (ucast (b ! 1)) OR
            (push_bit 40 (ucast (b ! 2)) OR (push_bit 32 (ucast (b ! 3)) OR
            (push_bit 24 (ucast (b ! 4)) OR (push_bit 16 (ucast (b ! 5)) OR
            (push_bit 8 (ucast (b ! 6)) OR ucast (b ! 7))))))),
            r\<lparr>in_pos := in_pos r + 8\<rparr>))"

definition ReadType :: "row_input \<Rightarrow> i16 \<times> row_input" where
  "ReadType r = ReadShort r"

definition ReadDouble :: "row_input \<Rightarrow> 64 word \<times> row_input" where
  "ReadDouble r = ReadLong r"

text \<open>The slice \<^verbatim>\<open>r.buf[r.pos : r.pos+n]\<close>, and moving past it.\<close>

definition take_slice :: "nat \<Rightarrow> row_input \<Rightarrow> byte list \<times> row_input" where
  "take_slice n r = (take n (drop (in_pos r) (in_buf r)), r\<lparr>in_pos := in_pos r + n\<rparr>)"

definition ReadBytes :: "row_input \<Rightarrow> byte list \<times> row_input" where
  "ReadBytes r =
     (let (k, r) = ReadInt r; n = sint k in
      if in_err r \<noteq> None \<or> n < 0 then ([], r)
      else let (ok, r) = need (nat n) r in
           if \<not> ok then ([], r) else take_slice (nat n) r)"

section \<open>Modified UTF-8, decoded\<close>

text \<open>
  The loop \<^verbatim>\<open>for i < len(b)\<close> over the rest of the slice: \<^verbatim>\<open>i+1 >= len(b)\<close> and \<^verbatim>\<open>i+2 >= len(b)\<close> are
  the patterns for a slice too short, \<^verbatim>\<open>i+5 < len(b)\<close> the one with three more bytes.
\<close>

fun decodeModifiedRunes :: "byte list \<Rightarrow> rune list" where
  "decodeModifiedRunes [] = []"
| "decodeModifiedRunes (c # bs) =
     (if c < 0x80 then ucast c # decodeModifiedRunes bs
      else if c AND 0xE0 = 0xC0 then
        (case bs of
           [] \<Rightarrow> ucast c # decodeModifiedRunes bs
         | b1 # bs1 \<Rightarrow>
             (push_bit 6 (ucast (c AND 0x1F)) OR ucast (b1 AND 0x3F)) # decodeModifiedRunes bs1)
      else if c AND 0xF0 = 0xE0 then
        (case bs of
           b1 # b2 # bs2 \<Rightarrow>
             (let r = push_bit 12 (ucast (c AND 0x0F)) OR
                      (push_bit 6 (ucast (b1 AND 0x3F)) OR ucast (b2 AND 0x3F));
                  lo = (case bs2 of
                          b3 # b4 # b5 # _ \<Rightarrow>
                            if 0xD800 \<le>s r \<and> r \<le>s 0xDBFF \<and> b3 AND 0xF0 = 0xE0
                            then Some (push_bit 12 (ucast (b3 AND 0x0F)) OR
                                   (push_bit 6 (ucast (b4 AND 0x3F)) OR ucast (b5 AND 0x3F)))
                            else None
                        | _ \<Rightarrow> None)
              in case lo of
                   Some lo \<Rightarrow>
                     if 0xDC00 \<le>s lo \<and> lo \<le>s (0xDFFF::rune)
                     then (0x10000 + push_bit 10 (r - 0xD800) + (lo - 0xDC00)) #
                          decodeModifiedRunes (drop 3 bs2)
                     else r # decodeModifiedRunes bs2
                 | None \<Rightarrow> r # decodeModifiedRunes bs2)
         | _ \<Rightarrow> ucast c # decodeModifiedRunes bs)
      else ucast c # decodeModifiedRunes bs)"

declare decodeModifiedRunes.simps(2) [simp del]

definition decodeModifiedUTF8 :: "byte list \<Rightarrow> string" where
  "decodeModifiedUTF8 b = string_of_runes (decodeModifiedRunes b)"

definition ReadString :: "row_input \<Rightarrow> string \<times> row_input" where
  "ReadString r =
     (let (k, r) = ReadInt r; n = sint k in
      if in_err r \<noteq> None \<or> n < 0 then ('''', r)
      else let (ok, r) = need (nat n) r in
           if \<not> ok then ('''', r)
           else let (b, r) = take_slice (nat n) r in (decodeModifiedUTF8 b, r))"

definition twosComplementToBigInt :: "byte list \<Rightarrow> int" where
  "twosComplementToBigInt b =
     (if length b = 0 then 0
      else let v = int (nat_of_be b) in
           if b ! 0 AND 0x80 \<noteq> 0 then v - 2 ^ (8 * length b) else v)"

definition ReadDecimal :: "row_input \<Rightarrow> (int \<times> i32) \<times> row_input" where
  "ReadDecimal r =
     (let (b, r) = ReadBytes r; (scale, r) = ReadInt r
      in ((twosComplementToBigInt b, scale), r))"

section \<open>Errors are sticky, reads stay inside the buffer\<close>

text \<open>\<open>stuck\<close>: a read on a reader whose error is set changes nothing.\<close>

definition failed :: "row_input \<Rightarrow> bool" where
  "failed r \<longleftrightarrow> in_err r \<noteq> None"

lemma need_failed [sticky]: "failed r \<Longrightarrow> need n r = (False, r)"
  by (simp add: need_def failed_def)

lemma ReadU8_failed [sticky]: "failed r \<Longrightarrow> ReadU8 r = (0, r)"
  by (simp add: ReadU8_def sticky)

lemma ReadBool_failed [sticky]: "failed r \<Longrightarrow> ReadBool r = (False, r)"
  by (simp add: ReadBool_def sticky)

lemma ReadShort_failed [sticky]: "failed r \<Longrightarrow> ReadShort r = (0, r)"
  by (simp add: ReadShort_def sticky)

lemma ReadInt_failed [sticky]: "failed r \<Longrightarrow> ReadInt r = (0, r)"
  by (simp add: ReadInt_def sticky)

lemma ReadLong_failed [sticky]: "failed r \<Longrightarrow> ReadLong r = (0, r)"
  by (simp add: ReadLong_def sticky)

lemma ReadType_failed [sticky]: "failed r \<Longrightarrow> ReadType r = (0, r)"
  by (simp add: ReadType_def sticky)

lemma ReadDouble_failed [sticky]: "failed r \<Longrightarrow> ReadDouble r = (0, r)"
  by (simp add: ReadDouble_def sticky)

lemma ReadBytes_failed [sticky]: "failed r \<Longrightarrow> ReadBytes r = ([], r)"
  using ReadInt_failed[of r] by (auto simp: ReadBytes_def failed_def)

lemma ReadString_failed [sticky]: "failed r \<Longrightarrow> ReadString r = ('''', r)"
  using ReadInt_failed[of r] by (auto simp: ReadString_def failed_def)

lemma ReadDecimal_failed [sticky]: "failed r \<Longrightarrow> ReadDecimal r = ((0, 0), r)"
  by (simp add: ReadDecimal_def sticky twosComplementToBigInt_def)

text \<open>
  \<open>onward r r'\<close>: \<open>r'\<close> is \<open>r\<close> after some reading: the same buffer, a position that has not moved
  back and not past the end, and no change at all once the error was set.
\<close>

definition onward :: "row_input \<Rightarrow> row_input \<Rightarrow> bool" where
  "onward r r' \<longleftrightarrow> in_buf r' = in_buf r \<and> in_pos r \<le> in_pos r' \<and>
     (in_pos r \<le> length (in_buf r) \<longrightarrow> in_pos r' \<le> length (in_buf r)) \<and>
     (failed r \<longrightarrow> r' = r)"

lemma onward_refl [progress]: "onward r r"
  by (simp add: onward_def)

lemma onward_trans: "onward r s \<Longrightarrow> onward s t \<Longrightarrow> onward r t"
  unfolding onward_def failed_def by (metis le_trans)

text \<open>The contract of a read method.\<close>

locale reader =
  fixes rd :: "row_input \<Rightarrow> 'a \<times> row_input"
  assumes onward: "onward r (snd (rd r))"
begin

lemma failed_kept: "failed r \<Longrightarrow> failed (snd (rd r))"
  using onward[of r] by (auto simp: onward_def)

lemma failed_same: "failed r \<Longrightarrow> snd (rd r) = r"
  using onward[of r] by (auto simp: onward_def)

lemma ok_before: "\<not> failed (snd (rd r)) \<Longrightarrow> \<not> failed r"
  using failed_kept by blast

lemma in_bounds: "in_pos r \<le> length (in_buf r) \<Longrightarrow> in_pos (snd (rd r)) \<le> length (in_buf r)"
  using onward[of r] by (auto simp: onward_def)

end

lemma onward_need [progress]: "onward r (snd (need n r))"
  by (simp add: onward_def need_def failed_def)

lemma onward_U8 [progress]: "onward r (snd (ReadU8 r))"
  by (auto simp: onward_def ReadU8_def need_def failed_def Let_def)

lemma onward_Short [progress]: "onward r (snd (ReadShort r))"
  by (auto simp: onward_def ReadShort_def need_def failed_def Let_def)

lemma onward_Int [progress]: "onward r (snd (ReadInt r))"
  by (auto simp: onward_def ReadInt_def need_def failed_def Let_def)

lemma onward_Long [progress]: "onward r (snd (ReadLong r))"
  by (auto simp: onward_def ReadLong_def need_def failed_def Let_def)

lemma onward_bind [progress]:
  "onward r (snd (m r)) \<Longrightarrow> (\<And>x r'. onward r' (snd (f x r'))) \<Longrightarrow>
   onward r (snd (let (x, r) = m r in f x r))"
  by (metis (mono_tags, lifting) case_prod_beta onward_trans)

text \<open>A slice is only taken after \<^verbatim>\<open>need\<close> has checked that it is there.\<close>

lemma onward_Bytes [progress]: "onward r (snd (ReadBytes r))"
  unfolding ReadBytes_def
  by (intro onward_bind progress) (auto simp: Let_def onward_def need_def take_slice_def failed_def)

lemma onward_String [progress]: "onward r (snd (ReadString r))"
  unfolding ReadString_def
  by (intro onward_bind progress) (auto simp: Let_def onward_def need_def take_slice_def failed_def)

lemma onward_Bool [progress]: "onward r (snd (ReadBool r))"
  unfolding ReadBool_def by (intro onward_bind progress) (simp add: onward_refl)

lemma onward_Type [progress]: "onward r (snd (ReadType r))"
  unfolding ReadType_def by (rule progress)

lemma onward_Double [progress]: "onward r (snd (ReadDouble r))"
  unfolding ReadDouble_def by (rule progress)

lemma onward_Decimal [progress]: "onward r (snd (ReadDecimal r))"
  unfolding ReadDecimal_def by (intro onward_bind progress) (simp add: onward_refl)

interpretation u8_in: reader ReadU8 by unfold_locales (rule progress)
interpretation bool_in: reader ReadBool by unfold_locales (rule progress)
interpretation short_in: reader ReadShort by unfold_locales (rule progress)
interpretation int_in: reader ReadInt by unfold_locales (rule progress)
interpretation long_in: reader ReadLong by unfold_locales (rule progress)
interpretation type_in: reader ReadType by unfold_locales (rule progress)
interpretation double_in: reader ReadDouble by unfold_locales (rule progress)
interpretation bytes_in: reader ReadBytes by unfold_locales (rule progress)
interpretation string_in: reader ReadString by unfold_locales (rule progress)
interpretation decimal_in: reader ReadDecimal by unfold_locales (rule progress)

end
