(* ===== verification/RowCodec.thy ===== *)
theory RowCodec
  imports RowIn
begin

unbundle bit_operations_syntax

text \<open>
  The reader of \<^verbatim>\<open>rowin.go\<close> against the writer of \<^verbatim>\<open>rowout.go\<close>.  A \<open>codec\<close> is a writer and a
  reader that undoes it; its laws are proved once for every pair of methods and give the
  round trip of whole sequences and unique decodability.
\<close>

section \<open>The codec interface\<close>

text \<open>A reader that has consumed \<open>d\<close> and still has \<open>s\<close> to read, without error.\<close>

definition reading :: "byte list \<Rightarrow> byte list \<Rightarrow> row_input" where
  "reading d s = \<lparr>in_buf = d @ s, in_pos = length d, in_err = None\<rparr>"

lemma reading_New: "NewRowInput b = reading [] b"
  by (simp add: NewRowInput_def reading_def)

lemma reading_sel [simp]:
  "in_buf (reading d s) = d @ s" "in_pos (reading d s) = length d" "in_err (reading d s) = None"
  "\<not> failed (reading d s)"
  by (simp_all add: reading_def failed_def)

lemma reading_eq_iff [simp]: "reading d s = reading d' s' \<longleftrightarrow> d = d' \<and> s = s'"
  by (auto simp: reading_def)

lemma Remaining_reading [simp]: "Remaining (reading d s) = int (length s)"
  by (simp add: Remaining_def)

lemma need_reading [simp]:
  "n \<le> length s \<Longrightarrow> need n (reading d s) = (True, reading d s)"
  by (simp add: need_def)

lemma skip_reading: "length a = n \<Longrightarrow> (reading d (a @ s))\<lparr>in_pos := length d + n\<rparr> = reading (d @ a) s"
  by (simp add: reading_def)

lemma take_slice_reading:
  "take_slice (length a) (reading d (a @ s)) = (a, reading (d @ a) s)"
  by (simp add: take_slice_def skip_reading)

text \<open>The loop \<^verbatim>\<open>for i := range xs { xs[i] = in.Read() }\<close>.\<close>

fun readN :: "nat \<Rightarrow> (row_input \<Rightarrow> 'a \<times> row_input) \<Rightarrow> row_input \<Rightarrow> 'a list \<times> row_input" where
  "readN 0 rd r = ([], r)"
| "readN (Suc n) rd r = (let (x, r) = rd r; (xs, r) = readN n rd r in (x # xs, r))"

text \<open>
  \<open>norm\<close> is what the reader gives back for a written value: the value itself for most
  codecs, the value with invalid UTF-8 replaced for strings.
\<close>

locale codec = appender wr + reader rd
  for wr :: "'a \<Rightarrow> row_output \<Rightarrow> row_output" and rd :: "row_input \<Rightarrow> 'b \<times> row_input" +
  fixes ok :: "'a \<Rightarrow> bool" and norm :: "'a \<Rightarrow> 'b"
  assumes read_written:
    "ok x \<Longrightarrow> rd (reading d (written (wr x) @ s)) = (norm x, reading (d @ written (wr x)) s)"
begin

lemma read_at_end:
  "ok x \<Longrightarrow> rd (reading d (written (wr x))) = (norm x, reading (d @ written (wr x)) [])"
  using read_written[of x d "[]"] by simp

lemma unique_decoding:
  assumes "ok x" "ok y" "written (wr x) @ s = written (wr y) @ t"
  shows "norm x = norm y \<and> s = t"
proof -
  have "(norm x, reading ([] @ written (wr x)) s) = (norm y, reading ([] @ written (wr y)) t)"
    using read_written[OF assms(1), of "[]" s] read_written[OF assms(2), of "[]" t] assms(3)
    by (simp only: append_Nil)
  then show ?thesis by simp
qed

lemma read_many:
  assumes "\<forall>x\<in>set xs. ok x"
  shows "readN (length xs) rd (reading d (concat (map (\<lambda>x. written (wr x)) xs) @ s)) =
    (map norm xs, reading (d @ concat (map (\<lambda>x. written (wr x)) xs)) s)"
  using assms
proof (induction xs arbitrary: d)
  case (Cons x xs)
  let ?w = "written (wr x)" and ?ws = "concat (map (\<lambda>x. written (wr x)) xs)"
  have 1: "rd (reading d (?w @ ?ws @ s)) = (norm x, reading (d @ ?w) (?ws @ s))"
    using Cons.prems by (simp add: read_written)
  have 2: "readN (length xs) rd (reading (d @ ?w) (?ws @ s)) =
      (map norm xs, reading ((d @ ?w) @ ?ws) s)"
    using Cons.prems by (intro Cons.IH) simp
  show ?case by (simp add: 1 2)
qed simp

end

section \<open>Fixed-width values\<close>

lemma read_U8 [reads]:
  "ReadU8 (reading d (written (WriteU8 b) @ s)) = (b, reading (d @ written (WriteU8 b)) s)"
  by (simp add: ReadU8_def written_U8 Let_def) (simp add: reading_def)?

lemma read_Bool [reads]:
  "ReadBool (reading d (written (WriteBool v) @ s)) = (v, reading (d @ written (WriteBool v)) s)"
proof -
  have e: "written (WriteBool v) = written (WriteU8 (if v then 1 else 0))"
    by (simp add: written_U8 written_Bool)
  show ?thesis unfolding e by (simp only: ReadBool_def read_U8) simp
qed

lemma bit_byte_at:
  "bit (push_bit k (ucast (ucast (drop_bit k v) :: byte)) :: 'a::len word) n \<longleftrightarrow>
     k \<le> n \<and> n < k + 8 \<and> bit (v :: 'a word) n"
  using bit_imp_le_length[of v n] by (auto simp: bit_simps)

lemma bit_low_byte:
  "bit (ucast (ucast v :: byte) :: 'a::len word) n \<longleftrightarrow> n < 8 \<and> bit (v :: 'a word) n"
  using bit_imp_le_length[of v n] by (auto simp: bit_simps)

lemma join16: "push_bit 8 (ucast (ucast (drop_bit 8 v) :: byte)) OR ucast (ucast v :: byte) = (v::i16)"
  by (rule bit_word_eqI) (auto simp: bit_or_iff bit_byte_at bit_low_byte)

lemma join32:
  "push_bit 24 (ucast (ucast (drop_bit 24 v) :: byte)) OR
   (push_bit 16 (ucast (ucast (drop_bit 16 v) :: byte)) OR
    (push_bit 8 (ucast (ucast (drop_bit 8 v) :: byte)) OR ucast (ucast v :: byte))) = (v::i32)"
  by (rule bit_word_eqI) (auto simp: bit_or_iff bit_byte_at bit_low_byte)

lemma join64:
  "push_bit 56 (ucast (ucast (drop_bit 56 v) :: byte)) OR
   (push_bit 48 (ucast (ucast (drop_bit 48 v) :: byte)) OR
   (push_bit 40 (ucast (ucast (drop_bit 40 v) :: byte)) OR
   (push_bit 32 (ucast (ucast (drop_bit 32 v) :: byte)) OR
   (push_bit 24 (ucast (ucast (drop_bit 24 v) :: byte)) OR
   (push_bit 16 (ucast (ucast (drop_bit 16 v) :: byte)) OR
    (push_bit 8 (ucast (ucast (drop_bit 8 v) :: byte)) OR ucast (ucast v :: byte))))))) = (v::i64)"
  by (rule bit_word_eqI) (auto simp: bit_or_iff bit_byte_at bit_low_byte)

lemma nth_reading: "(d @ b # s) ! length d = b"
  "(d @ a # b # s) ! Suc (length d) = b"
  "(d @ a # a' # b # s) ! Suc (Suc (length d)) = b"
  "(d @ a # a' # a'' # b # s) ! (length d + 3) = b"
  by (simp_all add: nth_append)

lemma read_Short [reads]:
  "ReadShort (reading d (written (WriteShort v) @ s)) = (v, reading (d @ written (WriteShort v)) s)"
  by (simp add: ReadShort_def written_Short nth_reading join16 Let_def) (simp add: reading_def)?

lemma read_Int [reads]:
  "ReadInt (reading d (written (WriteInt v) @ s)) = (v, reading (d @ written (WriteInt v)) s)"
  by (simp add: ReadInt_def written_Int nth_reading join32 Let_def) (simp add: reading_def)?

lemma read_Long [reads]:
  "ReadLong (reading d (written (WriteLong v) @ s)) = (v, reading (d @ written (WriteLong v)) s)"
  by (simp add: ReadLong_def written_Long join64 Let_def) (simp add: reading_def)?

lemma read_Type [reads]:
  "ReadType (reading d (written (WriteType v) @ s)) = (v, reading (d @ written (WriteType v)) s)"
  by (simp add: ReadType_def WriteType_def[abs_def] reads)

lemma read_Double [reads]:
  "ReadDouble (reading d (written (WriteDouble v) @ s)) = (v, reading (d @ written (WriteDouble v)) s)"
  by (simp add: ReadDouble_def WriteDouble_def[abs_def] reads)

interpretation u8_codec: codec WriteU8 ReadU8 "\<lambda>_. True" "\<lambda>x. x"
  by unfold_locales (rule reads)
interpretation bool_codec: codec WriteBool ReadBool "\<lambda>_. True" "\<lambda>x. x"
  by unfold_locales (rule reads)
interpretation short_codec: codec WriteShort ReadShort "\<lambda>_. True" "\<lambda>x. x"
  by unfold_locales (rule reads)
interpretation int_codec: codec WriteInt ReadInt "\<lambda>_. True" "\<lambda>x. x"
  by unfold_locales (rule reads)
interpretation long_codec: codec WriteLong ReadLong "\<lambda>_. True" "\<lambda>x. x"
  by unfold_locales (rule reads)
interpretation type_codec: codec WriteType ReadType "\<lambda>_. True" "\<lambda>x. x"
  by unfold_locales (rule reads)
interpretation double_codec: codec WriteDouble ReadDouble "\<lambda>_. True" "\<lambda>x. x"
  by unfold_locales (rule reads)

section \<open>Byte strings\<close>

text \<open>The length prefix is an int32: \<open>fits32\<close> says the length survives it.\<close>

definition fits32 :: "nat \<Rightarrow> bool" where
  "fits32 n \<longleftrightarrow> n < 2 ^ 31"

lemma sint_fits32: "fits32 n \<Longrightarrow> sint (word_of_nat n :: i32) = int n"
  using sint_of_nat_small[where 'a=32, of n] by (simp add: fits32_def)

lemma read_Bytes [reads]:
  "fits32 (length b) \<Longrightarrow>
   ReadBytes (reading d (written (WriteBytes b) @ s)) = (b, reading (d @ written (WriteBytes b)) s)"
  using take_slice_reading[of b "d @ written (WriteInt (word_of_nat (length b)))" s]
  by (simp add: ReadBytes_def written_Bytes read_Int sint_fits32 Let_def)

text \<open>A string on the wire decodes to what its modified UTF-8 bytes decode to.\<close>

lemma read_String_raw:
  "fits32 (length (encodeModifiedUTF8 x)) \<Longrightarrow>
   ReadString (reading d (written (WriteString x) @ s)) =
     (decodeModifiedUTF8 (encodeModifiedUTF8 x), reading (d @ written (WriteString x)) s)"
  using take_slice_reading[of "encodeModifiedUTF8 x"
      "d @ written (WriteInt (word_of_nat (length (encodeModifiedUTF8 x))))" s]
  by (simp add: ReadString_def WriteString_def[abs_def] written_Bytes read_Int sint_fits32 Let_def)

interpretation bytes_codec: codec WriteBytes ReadBytes "\<lambda>b. fits32 (length b)" "\<lambda>b. b"
  by unfold_locales (rule reads)

end
