(* ===== verification/TextCodec.thy ===== *)
theory TextCodec
  imports RowCodec
begin

unbundle bit_operations_syntax

text \<open>
  Modified UTF-8 and two's-complement integers: what \<^verbatim>\<open>rowin.go\<close> decodes from what
  \<^verbatim>\<open>rowout.go\<close> encodes, and the codecs for strings and decimals that follow.
\<close>

section \<open>Modified UTF-8\<close>

lemma sle_small:
  "unat (a::rune) < 2 ^ 31 \<Longrightarrow> unat b < 2 ^ 31 \<Longrightarrow> (a \<le>s b) = (unat a \<le> unat b)"
  using sint_small[of a] sint_small[of b] by (simp add: word_sle_eq word_le_def[symmetric] word_le_nat_alt)

lemma signed_drop_small:
  assumes "unat (r::rune) < 2 ^ 31"
  shows "signed_drop_bit k r = drop_bit k r"
proof (rule bit_word_eqI)
  fix n
  assume "n < LENGTH(32)"
  then show "bit (signed_drop_bit k r) n = bit (drop_bit k r) n"
    using high_bits[OF assms, of 31] high_bits[OF assms, of "k + n"] by (auto simp: bit_simps)
qed

lemma ucast_byte_distribs:
  "(ucast ((a::rune) OR b) :: byte) = ucast a OR ucast b"
  "(ucast ((a::rune) AND b) :: byte) = ucast a AND ucast b"
  by (simp_all add: unsigned_or_eq unsigned_and_eq)

text \<open>For every rune but U+0000 below U+10000 the modified form is plain UTF-8.\<close>

lemma modified_rune_plain:
  assumes "scalar r" "r \<noteq> 0" "unat r < 0x10000"
  shows "modified_rune r = encode_rune r"
proof -
  have r: "unat r < 2 ^ 31" using assms(3) by simp
  show ?thesis
    unfolding modified_rune_def encode_rune_cases[OF assms(1)]
    using assms(2,3) by (simp add: sle_small signed_drop_small r ucast_byte_distribs less_Suc_eq_le)
qed

lemma modified_two:
  assumes "0x80 \<le> unat r" "unat (r::rune) < 0x800"
  shows "decodeModifiedRunes ([0xC0 OR ucast (drop_bit 6 r), 0x80 OR (ucast r AND 0x3F)] @ bs)
       = r # decodeModifiedRunes bs"
proof -
  let ?b0 = "0xC0 OR ucast (drop_bit 6 r) :: byte" and ?b1 = "0x80 OR (ucast r AND 0x3F) :: byte"
  have f: "unat (ucast (drop_bit 6 r) :: byte) = unat r div 64 mod 256"
    "unat (ucast r AND 0x3F :: byte) = unat r mod 64"
    using rune_fields[of r] assms by simp_all
  have b: "unat ?b0 = 192 + unat r div 64" "unat ?b1 = 128 + unat r mod 64"
    using assms by (simp_all add: byte_or_lead f)
  have "unat (push_bit 6 (ucast (?b0 AND 0x1F)) OR ucast (?b1 AND 0x3F) :: rune) = unat r"
    using assms by (simp add: rune_join unat_ucast_byte unat_and_low b lead_mods)
  then have v: "push_bit 6 (ucast (?b0 AND 0x1F)) OR ucast (?b1 AND 0x3F) = r"
    by (simp only: word_unat_eq_iff)
  have t: "\<not> ?b0 < 0x80" "?b0 AND 0xE0 = 0xC0"
    using assms by (auto simp: word_less_nat_alt b byte_lead_tests)
  show ?thesis by (simp add: decodeModifiedRunes.simps(2) t v)
qed

text \<open>Three bytes carry any 16-bit value, a surrogate included.\<close>

lemma three_byte_join:
  fixes r :: rune
  defines "b0 \<equiv> 0xE0 OR ucast (drop_bit 12 r) :: byte"
    and "b1 \<equiv> 0x80 OR (ucast (drop_bit 6 r) AND 0x3F) :: byte"
    and "b2 \<equiv> 0x80 OR (ucast r AND 0x3F) :: byte"
  assumes "unat r < 0x10000"
  shows "push_bit 12 (ucast (b0 AND 0x0F)) OR
      (push_bit 6 (ucast (b1 AND 0x3F)) OR ucast (b2 AND 0x3F)) = r" (is ?val)
    and "\<not> b0 < 0x80" and "b0 AND 0xE0 \<noteq> 0xC0" and "b0 AND 0xF0 = 0xE0"
proof -
  have f: "unat (ucast (drop_bit 12 r) :: byte) = unat r div 4096 mod 256"
    "unat (ucast (drop_bit 6 r) AND 0x3F :: byte) = unat r div 64 mod 64"
    "unat (ucast r AND 0x3F :: byte) = unat r mod 64"
    using rune_fields[of r] assms(4) by simp_all
  have b: "unat b0 = 224 + unat r div 4096" "unat b1 = 128 + unat r div 64 mod 64"
    "unat b2 = 128 + unat r mod 64"
    using assms by (simp_all add: byte_or_lead f)
  have "unat (push_bit 12 (ucast (b0 AND 0x0F)) OR
      (push_bit 6 (ucast (b1 AND 0x3F)) OR ucast (b2 AND 0x3F)) :: rune)
    = unat r div 4096 * 4096 + (unat r div 64 mod 64 * 64 + unat r mod 64)"
    using assms(4) by (simp add: rune_join unat_ucast_byte unat_and_low b lead_mods)
  also have "\<dots> = unat r" by (rule three_digits)
  finally show ?val by (simp only: word_unat_eq_iff)
  show "\<not> b0 < 0x80" by (simp add: word_less_nat_alt b)
  show "b0 AND 0xE0 \<noteq> 0xC0" using b by (simp add: byte_lead_tests)
  show "b0 AND 0xF0 = 0xE0" using b assms(4) by (simp add: byte_lead_tests)
qed

text \<open>A lone three-byte value that is no high surrogate is taken as it is.\<close>

lemma modified_three:
  assumes "0x800 \<le> unat r" "unat (r::rune) < 0x10000" "scalar r"
  shows "decodeModifiedRunes ([0xE0 OR ucast (drop_bit 12 r),
           0x80 OR (ucast (drop_bit 6 r) AND 0x3F), 0x80 OR (ucast r AND 0x3F)] @ bs)
       = r # decodeModifiedRunes bs"
proof -
  have "\<not> (0xD800 \<le>s r \<and> r \<le>s 0xDBFF)"
    using assms by (auto simp: sle_small scalar_def)
  then have no: "(0xD800 \<le>s r \<and> r \<le>s 0xDBFF \<and> X) = False" for X
    by blast
  note step = decodeModifiedRunes.simps(2)[of "0xE0 OR ucast (drop_bit 12 r)"]
  show ?thesis
    using three_byte_join[OF assms(2)]
    by (cases bs rule: list_cases3) (simp_all add: step Let_def no)
qed

text \<open>A surrogate pair recombines to the supplementary code point it was split from.\<close>

lemma surrogate_pair:
  fixes r :: rune
  assumes "0x10000 \<le> unat r" "unat r < 0x110000"
  defines "h \<equiv> 0xD800 + drop_bit 10 (r - 0x10000)" and "l \<equiv> 0xDC00 + ((r - 0x10000) AND 0x3FF)"
  shows "unat h = 0xD800 + (unat r - 0x10000) div 1024" "unat h < 0xDC00"
    "unat l = 0xDC00 + (unat r - 0x10000) mod 1024" "0xDC00 \<le> unat l" "unat l < 0xE000"
    "0x10000 + push_bit 10 (h - 0xD800) + (l - 0xDC00) = r"
proof -
  define m where "m = unat r - 0x10000"
  have m: "unat (r - 0x10000) = m" "m < 0x100000"
    using assms(1,2) by (simp_all add: m_def unat_sub_if' word_le_nat_alt)
  have q: "unat (drop_bit 10 (r - 0x10000)) = m div 1024"
      "unat ((r - 0x10000) AND 0x3FF) = m mod 1024"
    by (simp_all only: unat_drop_bit_div unat_and_low m) simp
  have md: "m div 1024 < 1024" using m(2) by simp
  show h: "unat h = 0xD800 + (unat r - 0x10000) div 1024"
    using q md by (simp add: h_def unat_plus_if' m_def[symmetric])
  show "unat h < 0xDC00" using h md by (simp add: m_def)
  show l: "unat l = 0xDC00 + (unat r - 0x10000) mod 1024"
    using q by (simp add: l_def unat_plus_if' m_def[symmetric])
  then show "0xDC00 \<le> unat l" "unat l < 0xE000" by simp_all
  have "push_bit 10 (h - 0xD800) + (l - 0xDC00) = r - 0x10000"
  proof -
    have "h - 0xD800 = drop_bit 10 (r - 0x10000)" "l - 0xDC00 = take_bit 10 (r - 0x10000)"
      using take_bit_eq_mask[of 10 "r - 0x10000"] by (simp_all add: h_def l_def mask_numeral)
    then show ?thesis
      using bits_ident[of 10 "r - 0x10000"] by simp
  qed
  then show "0x10000 + push_bit 10 (h - 0xD800) + (l - 0xDC00) = r"
    by (simp add: add.assoc)
qed

lemma modified_pair:
  fixes h l :: rune
  assumes "0xD800 \<le> unat h" "unat h < 0xDC00" "0xDC00 \<le> unat l" "unat l < 0xE000"
  shows "decodeModifiedRunes ([0xE0 OR ucast (drop_bit 12 h),
           0x80 OR (ucast (drop_bit 6 h) AND 0x3F), 0x80 OR (ucast h AND 0x3F),
           0xE0 OR ucast (drop_bit 12 l),
           0x80 OR (ucast (drop_bit 6 l) AND 0x3F), 0x80 OR (ucast l AND 0x3F)] @ bs)
       = (0x10000 + push_bit 10 (h - 0xD800) + (l - 0xDC00)) # decodeModifiedRunes bs"
proof -
  have "0xD800 \<le>s h" "h \<le>s 0xDBFF" "0xDC00 \<le>s l" "l \<le>s 0xDFFF"
    using assms by (simp_all add: sle_small)
  moreover have "unat h < 0x10000" "unat l < 0x10000" using assms by simp_all
  note three_byte_join[OF this(1)] three_byte_join[OF this(2)]
  ultimately show ?thesis
    by (simp add: decodeModifiedRunes.simps(2) Let_def)
qed

lemma decode_modified_rune:
  assumes "scalar r"
  shows "decodeModifiedRunes (modified_rune r @ bs) = r # decodeModifiedRunes bs"
proof -
  consider "r = 0" | "r \<noteq> 0" "unat r < 0x80" | "r \<noteq> 0" "0x80 \<le> unat r" "unat r < 0x800"
    | "r \<noteq> 0" "0x800 \<le> unat r" "unat r < 0x10000" | "0x10000 \<le> unat r"
    by linarith
  then show ?thesis
  proof cases
    case 1
    then show ?thesis by (simp add: modified_rune_def decodeModifiedRunes.simps(2))
  next
    case 2
    then have "unat (ucast r :: byte) = unat r"
      by (simp add: unsigned_ucast_eq take_bit_nat_eq_self)
    then show ?thesis
      using 2 modified_rune_plain[OF assms 2(1)] encode_rune_cases[OF assms]
      by (simp add: decodeModifiedRunes.simps(2) word_less_nat_alt word_unat_eq_iff unat_ucast_byte)
  next
    case 3
    then show ?thesis
      using modified_two[OF 3(2,3)] modified_rune_plain[OF assms 3(1)] encode_rune_cases[OF assms]
      by simp
  next
    case 4
    then show ?thesis
      using modified_three[OF 4(2,3) assms] modified_rune_plain[OF assms 4(1)]
        encode_rune_cases[OF assms]
      by simp
  next
    case 5
    then have r: "unat r < 0x110000" using assms by (simp add: scalar_def)
    define h l where "h = 0xD800 + drop_bit 10 (r - 0x10000)"
      and "l = 0xDC00 + ((r - 0x10000) AND 0x3FF)"
    note sp = surrogate_pair[OF 5 r, folded h_def l_def]
    have "unat (r - 0x10000) < 2 ^ 31"
      using 5 r by (simp add: unat_sub_if' word_le_nat_alt)
    moreover have "unat h < 2 ^ 31" "unat l < 2 ^ 31" using sp by simp_all
    moreover have "\<not> r \<le>s 0x7F" "\<not> r \<le>s 0x7FF" "\<not> r \<le>s 0xFFFF" "r \<noteq> 0"
      using 5 r by (auto simp: sle_small)
    ultimately have "modified_rune r = [0xE0 OR ucast (drop_bit 12 h),
           0x80 OR (ucast (drop_bit 6 h) AND 0x3F), 0x80 OR (ucast h AND 0x3F),
           0xE0 OR ucast (drop_bit 12 l),
           0x80 OR (ucast (drop_bit 6 l) AND 0x3F), 0x80 OR (ucast l AND 0x3F)]"
      by (simp add: modified_rune_def Let_def signed_drop_small ucast_byte_distribs
          h_def[symmetric] l_def[symmetric])
    moreover have "0xD800 \<le> unat h" using sp(1) by simp
    ultimately show ?thesis using modified_pair[OF _ sp(2,4,5), of bs] sp(6) by simp
  qed
qed

lemma decodeModifiedRunes_encode:
  "decodeModifiedRunes (encodeModifiedUTF8 s) = range_runes s"
proof -
  have "\<forall>r\<in>set rs. scalar r \<Longrightarrow> decodeModifiedRunes (concat (map modified_rune rs)) = rs" for rs
    by (induction rs) (simp_all add: decode_modified_rune)
  then show ?thesis by (simp add: encodeModifiedUTF8_def range_runes_scalar)
qed

text \<open>\<open>valid_utf8 s\<close>: the string is the UTF-8 form of some scalar values.\<close>

definition to_valid :: "string \<Rightarrow> string" where
  "to_valid s = string_of_runes (range_runes s)"

definition valid_utf8 :: "string \<Rightarrow> bool" where
  "valid_utf8 s \<longleftrightarrow> to_valid s = s"

lemma to_valid_idem [simp]: "to_valid (to_valid s) = to_valid s"
  by (simp add: to_valid_def range_string_of_runes range_runes_scalar)

lemma valid_utf8_to_valid [simp]: "valid_utf8 (to_valid s)"
  by (simp add: valid_utf8_def)

lemma to_valid_of_runes:
  "\<forall>r\<in>set rs. scalar r \<Longrightarrow> valid_utf8 (string_of_runes rs)"
  by (simp add: valid_utf8_def to_valid_def range_string_of_runes)

lemma decode_encode_valid:
  "valid_utf8 s \<Longrightarrow> decodeModifiedUTF8 (encodeModifiedUTF8 s) = s"
  by (simp add: decodeModifiedUTF8_def decodeModifiedRunes_encode to_valid_def valid_utf8_def)

text \<open>C36: decoding the modified UTF-8 form of any Go string gives the string with every invalid
  byte replaced by U+FFFD (\<^verbatim>\<open>string([]rune(s))\<close>); so a valid UTF-8 string comes back unchanged,
  U+0000 and supplementary code points included.\<close>

theorem modified_utf8_roundtrip:
  "decodeModifiedUTF8 (encodeModifiedUTF8 s) = to_valid s"
  by (simp add: decodeModifiedUTF8_def decodeModifiedRunes_encode to_valid_def)

interpretation string_codec:
  codec WriteString ReadString "\<lambda>s. fits32 (length (encodeModifiedUTF8 s))" to_valid
  by unfold_locales (simp add: read_String_raw decodeModifiedUTF8_def decodeModifiedRunes_encode
      to_valid_def)

lemmas read_String [reads] = string_codec.read_written

section \<open>Two's-complement integers\<close>

lemma top_bit_iff: "((b::byte) AND 0x80 \<noteq> 0) = (128 \<le> unat b)"
  using byte_lead_tests(1)[of b] by (simp add: not_less)

text \<open>The sign bit of a big-endian byte string says on which side of the middle its value is.\<close>

lemma sign_bit_value:
  assumes "bs \<noteq> []"
  shows "(bs ! 0 AND 0x80 \<noteq> 0) = (2 ^ (8 * length bs) \<le> 2 * int (nat_of_be bs))"
proof -
  obtain b cs where bs: "bs = b # cs" using assms by (cases bs) auto
  have v: "nat_of_be bs = unat b * 256 ^ length cs + nat_of_be cs"
    by (simp add: bs nat_of_be_Cons)
  have p: "(2::nat) ^ (8 * length bs) = 256 * 256 ^ length cs"
    by (simp add: bs power_add power_mult)
  have "(2 ^ (8 * length bs) \<le> 2 * nat_of_be bs) = (128 \<le> unat b)"
  proof
    assume "128 \<le> unat b"
    then have "128 * 256 ^ length cs \<le> unat b * 256 ^ length cs" by (rule mult_le_mono1)
    then obtain e where e: "unat b * 256 ^ length cs = 128 * 256 ^ length cs + e"
      using le_Suc_ex by blast
    show "2 ^ (8 * length bs) \<le> 2 * nat_of_be bs" unfolding v p e by simp
  next
    assume le: "2 ^ (8 * length bs) \<le> 2 * nat_of_be bs"
    show "128 \<le> unat b"
    proof (rule ccontr)
      assume "\<not> 128 \<le> unat b"
      then have "Suc (unat b) * 256 ^ length cs \<le> 128 * 256 ^ length cs"
        by (intro mult_le_mono1) simp
      then have "unat b * 256 ^ length cs + 256 ^ length cs \<le> 128 * 256 ^ length cs" by simp
      then show False using le nat_of_be_less[of cs] unfolding v p distrib_left by linarith
    qed
  qed
  then show ?thesis
    by (simp add: top_bit_iff bs flip: of_nat_le_iff[where 'a=int])
qed

lemma twosComplement_value:
  assumes "bs \<noteq> []" "nat_of_be bs = nat (v mod 2 ^ (8 * length bs))"
    and "- (2 ^ (8 * length bs)) \<le> 2 * v" "2 * v < 2 ^ (8 * length bs)"
  shows "twosComplementToBigInt bs = v"
proof -
  let ?m = "2 ^ (8 * length bs) :: int"
  have n: "int (nat_of_be bs) = v mod ?m" using assms(2) by simp
  show ?thesis
  proof (cases "v < 0")
    case True
    have "v mod ?m = (v + ?m) mod ?m" by simp
    also have "\<dots> = v + ?m"
    proof (rule mod_pos_pos_trivial)
      have "0 < ?m" by simp
      with assms(3) show "0 \<le> v + ?m" by linarith
    qed (use True in simp)
    finally have "v mod ?m = v + ?m" .
    then show ?thesis
      using True assms(1,3) n sign_bit_value[OF assms(1)]
      by (simp add: twosComplementToBigInt_def Let_def)
  next
    case False
    then have "v mod ?m = v" using assms(4) by (intro mod_pos_pos_trivial) auto
    then show ?thesis
      using False assms(1,4) n sign_bit_value[OF assms(1)]
      by (simp add: twosComplementToBigInt_def Let_def)
  qed
qed

text \<open>The padded two's complement that the code builds for a negative number.\<close>

lemma padded_be:
  assumes "t < 2 ^ (8 * n)"
  shows "length (take (n - length (be_of_nat t)) (replicate n 0) @ be_of_nat t) = n"
    and "nat_of_be (take (n - length (be_of_nat t)) (replicate n 0) @ be_of_nat t) = t"
proof -
  have "length (be_of_nat t) \<le> n"
    using length_be_of_nat_le[of t n] assms by (simp add: power_mult)
  then show "length (take (n - length (be_of_nat t)) (replicate n 0) @ be_of_nat t) = n"
    by simp
  show "nat_of_be (take (n - length (be_of_nat t)) (replicate n 0) @ be_of_nat t) = t"
    by (simp add: nat_of_be_append)
qed

lemma magnitude_bounds:
  assumes "0 < k"
  defines "mag \<equiv> be_of_nat k"
  shows "mag \<noteq> []" and "int k < 2 ^ (8 * length mag)"
    and "(mag ! 0 AND 0x80 \<noteq> 0) = (2 ^ (8 * length mag) \<le> 2 * int k)"
proof -
  show ne: "mag \<noteq> []" using assms by simp
  have "k < 256 ^ length mag" using nat_of_be_less[of mag] by (simp add: mag_def)
  then have "int k < int (256 ^ length mag)" by (simp only: of_nat_less_iff)
  then show "int k < 2 ^ (8 * length mag)" by (simp add: power_mult)
  show "(mag ! 0 AND 0x80 \<noteq> 0) = (2 ^ (8 * length mag) \<le> 2 * int k)"
    using sign_bit_value[OF ne] by (simp add: mag_def)
qed

lemma bigint_pos:
  assumes "0 < v"
  shows "twosComplementToBigInt (bigIntToTwosComplement v) = v"
proof -
  let ?mag = "be_of_nat (nat v)"
  have k: "0 < nat v" using assms by simp
  note mb = magnitude_bounds[OF k]
  have v: "int (nat v) = v" using assms by simp
  show ?thesis
  proof (cases "?mag ! 0 AND 0x80 \<noteq> 0")
    case True
    have p: "(2::int) ^ (8 * length (0 # ?mag)) = 256 * 2 ^ (8 * length ?mag)"
      by (simp add: power_add)
    have lt: "2 * v < 256 * 2 ^ (8 * length ?mag)" using mb(2) v by linarith
    have "v mod (256 * 2 ^ (8 * length ?mag)) = v"
      using assms lt by (intro mod_pos_pos_trivial) auto
    moreover have "nat_of_be (0 # ?mag) = nat v" by (simp add: nat_of_be_Cons)
    ultimately have "nat_of_be (0 # ?mag) = nat (v mod 2 ^ (8 * length (0 # ?mag)))"
      unfolding p by simp
    moreover have "- (2 ^ (8 * length (0 # ?mag))) \<le> 2 * v"
      using assms by (simp add: order_trans[of _ 0])
    moreover have "2 * v < 2 ^ (8 * length (0 # ?mag))" unfolding p by (rule lt)
    ultimately have "twosComplementToBigInt (0 # ?mag) = v"
      by (intro twosComplement_value) simp_all
    then show ?thesis using True assms by (simp add: bigIntToTwosComplement_def Let_def)
  next
    case False
    then show ?thesis
      using mb v assms
      by (simp add: bigIntToTwosComplement_def Let_def twosComplementToBigInt_def)
  qed
qed

lemma bigint_neg_shape:
  assumes "v < 0"
  defines "mag \<equiv> be_of_nat (nat (- v))"
  defines "n \<equiv> if mag ! 0 AND 0x80 \<noteq> 0 then length mag + 1 else length mag"
  shows "length (bigIntToTwosComplement v) = n"
    and "int (nat_of_be (bigIntToTwosComplement v)) = 2 ^ (8 * n) + v"
    and "0 < n" and "- (2 ^ (8 * n)) \<le> 2 * v"
proof -
  have k: "0 < nat (- v)" using assms by simp
  note mb = magnitude_bounds[OF k, folded mag_def]
  have v: "int (nat (- v)) = - v" using assms by simp
  have lt: "- v < 2 ^ (8 * n)" and half: "- (2 ^ (8 * n)) \<le> 2 * v"
    using mb(2,3) v by (auto simp: n_def power_add)
  show "0 < n" using mb(1) by (simp add: n_def)
  show "- (2 ^ (8 * n)) \<le> 2 * v" by (rule half)
  define t where "t = nat (2 ^ (8 * n) - (- v))"
  have t: "int t = 2 ^ (8 * n) + v" using lt by (simp add: t_def)
  then have tl: "t < 2 ^ (8 * n)"
    using assms(1) by (simp flip: of_nat_less_iff[where 'a=int])
  have e: "bigIntToTwosComplement v =
      take (n - length (be_of_nat t)) (replicate n 0) @ be_of_nat t"
    using assms(1) by (simp add: bigIntToTwosComplement_def Let_def t_def n_def mag_def)
  show "length (bigIntToTwosComplement v) = n"
    unfolding e by (rule padded_be(1)[OF tl])
  show "int (nat_of_be (bigIntToTwosComplement v)) = 2 ^ (8 * n) + v"
    unfolding e by (simp only: padded_be(2)[OF tl] t)
qed

lemma bigint_neg:
  assumes "v < 0"
  shows "twosComplementToBigInt (bigIntToTwosComplement v) = v"
proof -
  define n where "n = length (bigIntToTwosComplement v)"
  note sh = bigint_neg_shape[OF assms, folded bigint_neg_shape(1)[OF assms], folded n_def]
  have "v mod 2 ^ (8 * n) = (2 ^ (8 * n) + v) mod 2 ^ (8 * n)" by simp
  also have "\<dots> = 2 ^ (8 * n) + v"
  proof (rule mod_pos_pos_trivial)
    show "0 \<le> 2 ^ (8 * n) + v" unfolding sh(2)[symmetric] by simp
  qed (use assms in simp)
  finally have "nat_of_be (bigIntToTwosComplement v) = nat (v mod 2 ^ (8 * n))"
    using sh(2) by simp
  moreover have "2 * v < 2 ^ (8 * n)" using assms by (simp add: less_trans[of _ 0])
  ultimately show ?thesis
    using sh(3,4) by (intro twosComplement_value) (simp_all add: n_def[symmetric], auto simp: n_def)
qed

lemma bigint_inverse: "twosComplementToBigInt (bigIntToTwosComplement v) = v"
proof -
  consider "v = 0" | "0 < v" | "v < 0" by linarith
  then show ?thesis
  proof cases
    case 1
    then show ?thesis
      by (simp add: bigIntToTwosComplement_def twosComplementToBigInt_def nat_of_be_def)
  qed (simp_all add: bigint_pos bigint_neg)
qed

text \<open>C37: reading back the two's-complement bytes of any integer gives the integer.\<close>

theorem bigint_roundtrip: "twosComplementToBigInt (bigIntToTwosComplement v) = v"
  by (rule bigint_inverse)

text \<open>Every nonempty byte string denotes a number within its signed range.\<close>

lemma twosComplement_range:
  assumes "bs \<noteq> []" "twosComplementToBigInt bs = v"
  shows "- (2 ^ (8 * length bs)) \<le> 2 * v" and "2 * v < 2 ^ (8 * length bs)"
proof -
  have "nat_of_be bs < 256 ^ length bs" by (rule nat_of_be_less)
  then have "int (nat_of_be bs) < int (256 ^ length bs)" by (simp only: of_nat_less_iff)
  then have lt: "int (nat_of_be bs) < 2 ^ (8 * length bs)" by (simp add: power_mult)
  have v: "v = (if 2 ^ (8 * length bs) \<le> 2 * int (nat_of_be bs)
      then int (nat_of_be bs) - 2 ^ (8 * length bs) else int (nat_of_be bs))"
    using assms sign_bit_value[OF assms(1)] by (auto simp: twosComplementToBigInt_def Let_def)
  have range: "- y \<le> 2 * w \<and> 2 * w < y"
    if "w = (if y \<le> 2 * n then n - y else n)" "0 \<le> n" "n < y" for w n y :: int
    using that by (cases "y \<le> 2 * n") simp_all
  note both = range[OF v _ lt]
  show "- (2 ^ (8 * length bs)) \<le> 2 * v" "2 * v < 2 ^ (8 * length bs)"
    using both by simp_all
qed

lemma magnitude_length:
  assumes "0 < k" "2 * int k \<le> 2 ^ (8 * m)"
  shows "length (be_of_nat k) \<le> m"
proof (rule ccontr)
  assume "\<not> length (be_of_nat k) \<le> m"
  then have m: "m \<le> length (be_of_nat k) - 1" by simp
  have h: "0 < unat (be_of_nat k ! 0)"
    using be_of_nat_hd[OF assms(1)] by (simp add: unat_gt_0)
  have "(256::nat) ^ m \<le> 256 ^ (length (be_of_nat k) - 1)"
    using m by (rule power_increasing) simp
  also have "\<dots> \<le> unat (be_of_nat k ! 0) * 256 ^ (length (be_of_nat k) - 1)"
    using h by simp
  also have "\<dots> \<le> k" by (rule be_of_nat_hd_bounds(1)[OF assms(1)])
  finally have "int (256 ^ m) \<le> int k" by (simp only: of_nat_le_iff)
  then have "2 ^ (8 * m) \<le> int k" by (simp add: power_mult)
  with assms show False by simp
qed

text \<open>No byte string that denotes the same integer is shorter than the bytes written, but for
  the integers \<open>-2^(8k-1)\<close>, which are written with one redundant sign byte.\<close>

theorem bigint_shortest:
  assumes "bs \<noteq> []" "twosComplementToBigInt bs = v"
  shows "length (bigIntToTwosComplement v) \<le> length bs \<or>
    (2 * v = - (2 ^ (8 * length bs)) \<and> length (bigIntToTwosComplement v) = length bs + 1)"
proof -
  let ?L = "2 ^ (8 * length bs) :: int"
  note rg = twosComplement_range[OF assms]
  have inc: "8 * l \<le> 8 * length bs" if "(2::int) ^ (8 * l) \<le> ?L" for l
    using that by simp
  consider "v = 0" | "0 < v" | "v < 0" by linarith
  then show ?thesis
  proof cases
    case 1
    then show ?thesis using assms(1) by (simp add: bigIntToTwosComplement_def Suc_le_eq)
  next
    case 2
    let ?mag = "be_of_nat (nat v)"
    have k: "0 < nat v" and v: "int (nat v) = v" using 2 by simp_all
    have "length ?mag \<le> length bs" using magnitude_length[OF k] v rg(2) by simp
    moreover have "length ?mag < length bs" if "?mag ! 0 AND 0x80 \<noteq> 0"
    proof -
      have "2 ^ (8 * length ?mag) \<le> 2 * v"
        using that magnitude_bounds(3)[OF k] v by simp
      then have "(2::int) ^ (8 * length ?mag) < ?L" using rg(2) by linarith
      then show ?thesis by simp
    qed
    ultimately show ?thesis using 2 by (simp add: bigIntToTwosComplement_def Let_def Suc_le_eq)
  next
    case 3
    let ?mag = "be_of_nat (nat (- v))"
    have k: "0 < nat (- v)" and v: "int (nat (- v)) = - v" using 3 by simp_all
    have l: "length ?mag \<le> length bs" using magnitude_length[OF k] v rg(1) by simp
    have "length ?mag < length bs \<or> 2 * v = - ?L" if "?mag ! 0 AND 0x80 \<noteq> 0"
    proof -
      have le: "2 ^ (8 * length ?mag) \<le> - (2 * v)"
        using that magnitude_bounds(3)[OF k] v by simp
      show ?thesis
      proof (cases "length ?mag = length bs")
        case True
        then show ?thesis using le rg(1) by simp
      qed (use l in simp)
    qed
    then show ?thesis using l bigint_neg_shape(1)[OF 3] by auto
  qed
qed

theorem bigint_shortest_witness:
  "length (bigIntToTwosComplement (-129)) \<le> length [0xFF::byte, 0x7F] \<or>
    (2 * (-129) = - (2 ^ (8 * length [0xFF::byte, 0x7F]) :: int) \<and>
     length (bigIntToTwosComplement (-129)) = length [0xFF::byte, 0x7F] + 1)"
  by (rule bigint_shortest) (simp_all add: twosComplementToBigInt_def nat_of_be_def Let_def)

text \<open>The exception does occur: \<open>-2^(8k-1)\<close> has a form of \<open>k\<close> bytes, and \<open>k+1\<close> are written,
  although the comment promises the minimal length of Java's \<^verbatim>\<open>BigInteger.toByteArray\<close>.\<close>

theorem bigint_redundant_sign_byte:
  "length (bigIntToTwosComplement (- (2 ^ (8 * k + 7)))) = k + 2 \<and>
   twosComplementToBigInt (0x80 # replicate k 0) = - (2 ^ (8 * k + 7))"
proof
  let ?bs = "0x80 # replicate k (0::byte)" and ?v = "- (2 ^ (8 * k + 7)) :: int"
  have n: "int (nat_of_be ?bs) = 2 ^ (8 * k + 7)"
    by (simp add: nat_of_be_Cons power_add power_mult)
  show tw: "twosComplementToBigInt ?bs = ?v"
    by (simp add: twosComplementToBigInt_def Let_def n) (simp add: power_add)
  define mag where "mag = be_of_nat (nat (- ?v))"
  have k: "0 < nat (- ?v)" by simp
  note mb = magnitude_bounds[OF k, folded mag_def]
  have le: "length mag \<le> length ?bs"
    unfolding mag_def by (rule magnitude_length[OF k]) (simp add: power_add)
  have "(2::int) ^ (8 * k + 7) < 2 ^ (8 * length mag)" using mb(2) by simp
  then have "8 * k + 7 < 8 * length mag" by simp
  with le have l: "length mag = k + 1" by simp
  have "mag ! 0 AND 0x80 \<noteq> 0" unfolding mb(3) l by (simp add: power_add)
  then show "length (bigIntToTwosComplement ?v) = k + 2"
    using bigint_neg_shape(1)[of ?v, folded mag_def] l by simp
qed

interpretation decimal_codec:
  codec "\<lambda>(u, s). WriteDecimal u s" ReadDecimal
    "\<lambda>(u, s). fits32 (length (bigIntToTwosComplement u))" "\<lambda>d. d"
  by unfold_locales
    (auto simp: ReadDecimal_def written_Decimal read_Bytes read_Int bigint_inverse)

lemma read_Decimal [reads]:
  "fits32 (length (bigIntToTwosComplement u)) \<Longrightarrow>
   ReadDecimal (reading d (written (WriteDecimal u c) @ s)) =
     ((u, c), reading (d @ written (WriteDecimal u c)) s)"
  using decimal_codec.read_written[of "(u, c)"] by simp

end
