(* ===== verification/GoStrings.thy ===== *)
theory GoStrings
  imports GoLang
begin

text \<open>
  What the driver uses of Go's \<^verbatim>\<open>strings\<close>, \<^verbatim>\<open>strconv\<close>, \<^verbatim>\<open>fmt\<close> and \<^verbatim>\<open>math/big\<close> for text: decimal
  printing and parsing, padding, trimming and splitting.  A Go string is a list of byte-sized
  characters.
\<close>

section \<open>Decimal digits\<close>

definition digit_char :: "nat \<Rightarrow> char" where
  "digit_char d = char_of (48 + d)"

definition is_digit :: "char \<Rightarrow> bool" where
  "is_digit c \<longleftrightarrow> 48 \<le> (of_char c :: nat) \<and> (of_char c :: nat) \<le> 57"

definition digit_val :: "char \<Rightarrow> nat" where
  "digit_val c = of_char c - 48"

text \<open>\<^verbatim>\<open>%d\<close> of a natural number and of an integer (\<^verbatim>\<open>big.Int.String\<close>, \<^verbatim>\<open>strconv.FormatInt\<close>).\<close>

fun nat_string :: "nat \<Rightarrow> string" where
  "nat_string n =
     (if n < 10 then [digit_char n] else nat_string (n div 10) @ [digit_char (n mod 10)])"

declare nat_string.simps [simp del]

definition int_string :: "int \<Rightarrow> string" where
  "int_string v = (if v < 0 then CHR ''-'' # nat_string (nat (- v)) else nat_string (nat v))"

definition digits_val :: "string \<Rightarrow> nat" where
  "digits_val s = foldl (\<lambda>a c. a * 10 + digit_val c) 0 s"

text \<open>\<^verbatim>\<open>(*big.Int).SetString(s, 10)\<close>: an optional sign, then at least one digit and nothing else.\<close>

definition SetString10 :: "string \<Rightarrow> int option" where
  "SetString10 s =
     (let (neg, ds) = (case s of
          c # cs \<Rightarrow> if c = CHR ''-'' then (True, cs) else if c = CHR ''+'' then (False, cs) else (False, s)
        | [] \<Rightarrow> (False, s))
      in if ds = [] \<or> \<not> list_all is_digit ds then None
         else Some (if neg then - int (digits_val ds) else int (digits_val ds)))"

text \<open>\<^verbatim>\<open>strconv.ParseInt(s, 10, 64)\<close> and \<^verbatim>\<open>strconv.Atoi(s)\<close>: the same syntax, in the range of int64.\<close>

definition ParseInt64 :: "string \<Rightarrow> int option" where
  "ParseInt64 s =
     (case SetString10 s of
        Some v \<Rightarrow> if - (2 ^ 63) \<le> v \<and> v < 2 ^ 63 then Some v else None
      | None \<Rightarrow> None)"

lemma is_digit_char [simp]: "d < 10 \<Longrightarrow> is_digit (digit_char d)"
  by (simp add: is_digit_def digit_char_def)

lemma digit_val_char [simp]: "d < 10 \<Longrightarrow> digit_val (digit_char d) = d"
  by (simp add: digit_val_def digit_char_def)

lemma digits_val_snoc [simp]: "digits_val (s @ [c]) = digits_val s * 10 + digit_val c"
  by (simp add: digits_val_def)

lemma digits_val_Nil [simp]: "digits_val [] = 0"
  by (simp add: digits_val_def)

lemma digits_val_append: "digits_val (s @ t) = digits_val s * 10 ^ length t + digits_val t"
proof (induction t rule: rev_induct)
  case (snoc c t)
  have "digits_val (s @ t @ [c]) = digits_val ((s @ t) @ [c])" by simp
  also have "\<dots> = digits_val (s @ t) * 10 + digit_val c" by (rule digits_val_snoc)
  finally show ?case by (simp add: snoc distrib_right)
qed simp

lemma digits_val_replicate_0 [simp]: "digits_val (replicate k (digit_char 0)) = 0"
proof (induction k)
  case (Suc k)
  have "digits_val ([digit_char 0] @ replicate k (digit_char 0)) = 0"
    by (simp only: digits_val_append Suc) (simp add: digits_val_def)
  then show ?case by simp
qed simp

lemma digit_char_0: "digit_char 0 = CHR ''0''"
  by code_simp

lemma digits_val_nat_string [simp]: "digits_val (nat_string n) = n"
  by (induction n rule: nat_string.induct) (subst nat_string.simps, auto simp: digits_val_def)

lemma nat_string_not_Nil [simp]: "nat_string n \<noteq> []"
  by (subst nat_string.simps) simp

lemma nat_string_digits [simp]: "list_all is_digit (nat_string n)"
  by (induction n rule: nat_string.induct) (subst nat_string.simps, auto)

lemma nat_string_is_digit: "c \<in> set (nat_string n) \<Longrightarrow> is_digit c"
  using nat_string_digits[of n] by (auto simp: list_all_iff)

lemma is_digit_not [simp]:
  "\<not> is_digit (CHR ''-'')" "\<not> is_digit (CHR ''+'')" "\<not> is_digit (CHR ''.'')" "\<not> is_digit (CHR '' '')"
  "\<not> is_digit (CHR 0x22)" "\<not> is_digit (CHR '','')" "\<not> is_digit (CHR ''['')" "\<not> is_digit (CHR '']'')"
  "\<not> is_digit (CHR '';'')" "\<not> is_digit (CHR ''='')"
  by (simp_all add: is_digit_def)

lemma SetString10_digits:
  assumes "list_all is_digit s" "s \<noteq> []"
  shows "SetString10 s = Some (int (digits_val s))"
proof (cases s)
  case (Cons c cs)
  then have "c \<noteq> CHR ''-'' \<and> c \<noteq> CHR ''+''" using assms(1) is_digit_not(1,2) by auto
  then show ?thesis using assms Cons by (simp add: SetString10_def Let_def)
qed (use assms in simp)

lemma SetString10_int_string: "SetString10 (int_string v) = Some v"
proof (cases "v < 0")
  case True
  then show ?thesis by (simp add: int_string_def SetString10_def)
next
  case False
  then show ?thesis by (simp add: int_string_def SetString10_digits)
qed

lemma ParseInt64_int_string:
  "ParseInt64 (int_string (sint (x::i64))) = Some (sint x)"
  using sint_lt[of x] sint_ge[of x] by (simp add: ParseInt64_def SetString10_int_string)

section \<open>Padding, trimming, searching\<close>

text \<open>\<^verbatim>\<open>%0nd\<close> of a non-negative number.\<close>

definition zero_pad :: "nat \<Rightarrow> string \<Rightarrow> string" where
  "zero_pad w s = replicate (w - length s) (CHR ''0'') @ s"

text \<open>\<^verbatim>\<open>strings.TrimLeft(s, cutset)\<close>, \<^verbatim>\<open>strings.TrimRight(s, cutset)\<close> with a one-character cutset.\<close>

definition TrimLeft :: "char \<Rightarrow> string \<Rightarrow> string" where
  "TrimLeft c s = dropWhile (\<lambda>x. x = c) s"

definition TrimRight :: "char \<Rightarrow> string \<Rightarrow> string" where
  "TrimRight c s = rev (dropWhile (\<lambda>x. x = c) (rev s))"

definition HasPrefix :: "string \<Rightarrow> string \<Rightarrow> bool" where
  "HasPrefix s p \<longleftrightarrow> take (length p) s = p"

definition HasSuffix :: "string \<Rightarrow> string \<Rightarrow> bool" where
  "HasSuffix s p \<longleftrightarrow> length p \<le> length s \<and> drop (length s - length p) s = p"

text \<open>\<^verbatim>\<open>strings.IndexByte\<close>, with \<open>None\<close> for -1.\<close>

fun IndexByte :: "string \<Rightarrow> char \<Rightarrow> nat option" where
  "IndexByte [] c = None"
| "IndexByte (x # xs) c = (if x = c then Some 0 else map_option Suc (IndexByte xs c))"

text \<open>\<^verbatim>\<open>strings.Split(s, sep)\<close> for a one-byte separator.\<close>

fun Split :: "string \<Rightarrow> char \<Rightarrow> string list" where
  "Split [] c = [[]]"
| "Split (x # xs) c =
     (if x = c then [] # Split xs c
      else (case Split xs c of p # ps \<Rightarrow> (x # p) # ps | [] \<Rightarrow> [[x]]))"

text \<open>
  The encodings of the code points with Unicode's White_Space property (\<^verbatim>\<open>unicode.IsSpace\<close>).  UTF-8 is
  self-synchronising, so removing spaces from an end is removing these byte strings.
\<close>

definition space_bytes :: "string list" where
  "space_bytes =
   [[CHR 0x09], [CHR 0x0A], [CHR 0x0B], [CHR 0x0C], [CHR 0x0D], [CHR 0x20], [CHR 0xC2, CHR 0x85],
    [CHR 0xC2, CHR 0xA0], [CHR 0xE1, CHR 0x9A, CHR 0x80], [CHR 0xE2, CHR 0x80, CHR 0x80],
    [CHR 0xE2, CHR 0x80, CHR 0x81], [CHR 0xE2, CHR 0x80, CHR 0x82],
    [CHR 0xE2, CHR 0x80, CHR 0x83], [CHR 0xE2, CHR 0x80, CHR 0x84],
    [CHR 0xE2, CHR 0x80, CHR 0x85], [CHR 0xE2, CHR 0x80, CHR 0x86],
    [CHR 0xE2, CHR 0x80, CHR 0x87], [CHR 0xE2, CHR 0x80, CHR 0x88],
    [CHR 0xE2, CHR 0x80, CHR 0x89], [CHR 0xE2, CHR 0x80, CHR 0x8A],
    [CHR 0xE2, CHR 0x80, CHR 0xA8], [CHR 0xE2, CHR 0x80, CHR 0xA9],
    [CHR 0xE2, CHR 0x80, CHR 0xAF], [CHR 0xE2, CHR 0x81, CHR 0x9F], [CHR 0xE3, CHR 0x80, CHR 0x80]]"

text \<open>Drops any of the given non-empty prefixes as often as one is found.\<close>

function drop_prefixes :: "string list \<Rightarrow> string \<Rightarrow> string" where
  "drop_prefixes ps s =
     (case find (\<lambda>p. p \<noteq> [] \<and> HasPrefix s p) ps of
        None \<Rightarrow> s
      | Some p \<Rightarrow> drop_prefixes ps (drop (length p) s))"
  by pat_completeness auto
termination
proof (relation "measure (\<lambda>(ps, s). length s)")
  fix ps s p
  assume "find (\<lambda>p. p \<noteq> [] \<and> HasPrefix s p) ps = Some p"
  then have "p \<noteq> []" "HasPrefix s p" by (auto simp: find_Some_iff)
  then have "0 < length p" "0 < length s" by (auto simp: HasPrefix_def)
  then show "((ps, drop (length p) s), (ps, s)) \<in> measure (\<lambda>(ps, s). length s)" by simp
qed simp

declare drop_prefixes.simps [simp del]

definition TrimSpace :: "string \<Rightarrow> string" where
  "TrimSpace s =
     rev (drop_prefixes (map rev space_bytes) (rev (drop_prefixes space_bytes s)))"

lemma drop_prefixes_none:
  "(\<And>p. p \<in> set ps \<Longrightarrow> p = [] \<or> \<not> HasPrefix s p) \<Longrightarrow> drop_prefixes ps s = s"
proof -
  assume "\<And>p. p \<in> set ps \<Longrightarrow> p = [] \<or> \<not> HasPrefix s p"
  then have "find (\<lambda>p. p \<noteq> [] \<and> HasPrefix s p) ps = None"
    by (auto simp: find_None_iff)
  then show ?thesis by (simp add: drop_prefixes.simps)
qed

lemma drop_prefixes_Nil [simp]: "drop_prefixes ps [] = []"
  by (rule drop_prefixes_none) (auto simp: HasPrefix_def)

text \<open>A string that starts and ends with an ASCII character other than a space is left alone.\<close>

definition inky :: "char \<Rightarrow> bool" where
  "inky c \<longleftrightarrow> 33 \<le> (of_char c :: nat) \<and> (of_char c :: nat) < 127"

lemma space_first_last:
  "\<forall>p\<in>set space_bytes. p \<noteq> [] \<and> \<not> inky (hd p) \<and> \<not> inky (last p)"
  by (simp add: space_bytes_def inky_def)

lemma TrimSpace_inky:
  assumes "s \<noteq> []" "inky (hd s)" "inky (last s)"
  shows "TrimSpace s = s"
proof -
  have l: "drop_prefixes space_bytes s = s"
  proof (rule drop_prefixes_none)
    fix p assume "p \<in> set space_bytes"
    then have p: "p \<noteq> []" "\<not> inky (hd p)" using space_first_last by auto
    show "p = [] \<or> \<not> HasPrefix s p"
      using p assms(1,2) by (cases p; cases s) (auto simp: HasPrefix_def)
  qed
  have r: "drop_prefixes (map rev space_bytes) (rev s) = rev s"
  proof (rule drop_prefixes_none)
    fix p assume "p \<in> set (map rev space_bytes)"
    then obtain q where q: "p = rev q" "q \<noteq> []" "\<not> inky (last q)" using space_first_last by auto
    then show "p = [] \<or> \<not> HasPrefix (rev s) p"
      using assms(1,3) by (cases q rule: rev_cases; cases s rule: rev_cases) (auto simp: HasPrefix_def)
  qed
  show ?thesis by (simp add: TrimSpace_def l r)
qed

lemma TrimSpace_Nil [simp]: "TrimSpace [] = []"
  by (simp add: TrimSpace_def)

lemma is_digit_inky: "is_digit c \<Longrightarrow> inky c"
  by (simp add: is_digit_def inky_def)

lemma TrimSpace_int_string [simp]: "TrimSpace (int_string v) = int_string v"
proof (rule TrimSpace_inky)
  show "int_string v \<noteq> []" by (simp add: int_string_def)
  have d: "inky c" if "c \<in> set (nat_string n)" for c n
    using that nat_string_is_digit is_digit_inky by blast
  show "inky (hd (int_string v))"
    using d[OF hd_in_set[OF nat_string_not_Nil]] by (simp add: int_string_def inky_def)
  show "inky (last (int_string v))"
    using d[OF last_in_set[OF nat_string_not_Nil]] by (simp add: int_string_def)
qed

lemma IndexByte_None: "c \<notin> set s \<Longrightarrow> IndexByte s c = None"
  by (induction s) auto

lemma IndexByte_at: "c \<notin> set s \<Longrightarrow> IndexByte (s @ c # t) c = Some (length s)"
  by (induction s) auto

lemma Split_not_Nil [simp]: "Split s c \<noteq> []"
  by (induction s) (auto split: list.splits)

lemma Split_single: "c \<notin> set s \<Longrightarrow> Split s c = [s]"
  by (induction s) auto

lemma Split_append: "c \<notin> set s \<Longrightarrow> Split (s @ c # t) c = s # Split t c"
  by (induction s) auto

end
