(* ===== verification/Decimals.thy ===== *)
theory Decimals
  imports GoStrings
begin

text \<open>
  The decimal text routines of \<^verbatim>\<open>internal/proto/types.go\<close>: a decimal is an unscaled integer and a
  scale; DECIMAL and NUMERIC columns are delivered as text (\<open>formatDecimal\<close>) and parameters are
  parsed from text (\<open>parseDecimal\<close>) or scaled from an int64 (\<open>scaleUnscaled\<close>).
\<close>

section \<open>The routines\<close>

text \<open>The loop \<^verbatim>\<open>for len(digits) <= s { digits = "0" + digits }\<close> is \<open>zero_pad (s + 1)\<close>.\<close>

definition formatDecimal :: "int \<Rightarrow> i32 \<Rightarrow> string" where
  "formatDecimal unscaled scale =
     (if scale = 0 then int_string unscaled
      else
        let neg = unscaled < 0;
            digits = nat_string (nat \<bar>unscaled\<bar>);
            s = sint scale
        in if s < 0 then
             let digits = digits @ replicate (nat (- s)) (CHR ''0'')
             in if neg then CHR ''-'' # digits else digits
           else
             let digits = zero_pad (nat s + 1) digits;
                 intPart = take (length digits - nat s) digits;
                 fracPart = drop (length digits - nat s) digits;
                 out = intPart @ ''.'' @ fracPart
             in if neg then CHR ''-'' # out else out)"

definition scaleUnscaled :: "int \<Rightarrow> i32 \<Rightarrow> int" where
  "scaleUnscaled v scale = (if scale \<le>s 0 then v else v * 10 ^ nat (sint scale))"

definition parseDecimal :: "string \<Rightarrow> i32 \<Rightarrow> (int \<times> i32) go_result" where
  "parseDecimal s scale =
     (let s = TrimSpace s;
          (neg, s) = (if HasPrefix s ''-'' then (True, drop 1 s)
                      else if HasPrefix s ''+'' then (False, drop 1 s) else (False, s));
          (intPart, fracPart) = (case IndexByte s (CHR ''.'') of
              Some i \<Rightarrow> (take i s, drop (i + 1) s)
            | None \<Rightarrow> (s, []));
          want = sint scale;
          want = nat (if want < 0 then 0 else want);
          fracPart = fracPart @ replicate (want - length fracPart) (CHR ''0'');
          fracPart = (if length fracPart > want then take want fracPart else fracPart);
          digits = intPart @ fracPart;
          digits = (if digits = [] then ''0'' else digits)
      in case SetString10 digits of
           None \<Rightarrow> Inl (Errorf ''hsql/proto: invalid decimal'')
         | Some unscaled \<Rightarrow> Inr (if neg then - unscaled else unscaled, scale))"

section \<open>What parsing accepts\<close>

lemma digit_not_sign:
  assumes "list_all is_digit s"
  shows "\<not> HasPrefix s ''-''" "\<not> HasPrefix s ''+''" "CHR ''.'' \<notin> set s"
proof -
  have n: "c \<notin> set s" if "\<not> is_digit c" for c using assms that by (auto simp: list_all_iff)
  show "CHR ''.'' \<notin> set s" by (rule n) simp
  have "CHR ''-'' \<notin> set s" "CHR ''+'' \<notin> set s" by (rule n, simp)+
  then show "\<not> HasPrefix s ''-''" "\<not> HasPrefix s ''+''" by (cases s; auto simp: HasPrefix_def)+
qed

text \<open>The text of a decimal: a sign, an integer part and an optional fraction, all digits.\<close>

definition decimal_text :: "bool \<Rightarrow> string \<Rightarrow> string option \<Rightarrow> string" where
  "decimal_text neg ip fp =
     (if neg then ''-'' else []) @ ip @ (case fp of None \<Rightarrow> [] | Some f \<Rightarrow> CHR ''.'' # f)"

definition fraction :: "string option \<Rightarrow> string" where
  "fraction fp = (case fp of None \<Rightarrow> [] | Some f \<Rightarrow> f)"

lemma TrimSpace_decimal_text:
  assumes "list_all is_digit ip" "list_all is_digit (fraction fp)"
  shows "TrimSpace (decimal_text neg ip fp) = decimal_text neg ip fp"
proof (cases "decimal_text neg ip fp = []")
  case False
  have i: "inky c" if "c \<in> set (decimal_text neg ip fp)" for c
  proof -
    have "is_digit c \<or> c = CHR ''-'' \<or> c = CHR ''.''"
      using that assms by (auto simp: decimal_text_def fraction_def list_all_iff split: option.splits if_splits)
    then show ?thesis using is_digit_inky by (auto simp: inky_def)
  qed
  show ?thesis by (rule TrimSpace_inky) (use False i in auto)
qed simp

lemma SetString10_fix: "list_all is_digit s \<Longrightarrow>
  SetString10 (if s = [] then ''0'' else s) = Some (int (digits_val s))"
proof (cases "s = []")
  case True
  have "SetString10 ''0'' = Some 0" by code_simp
  then show ?thesis using True by simp
qed (simp add: SetString10_digits)

text \<open>The fraction is cut or padded to the scale; the value is truncated toward zero.\<close>

lemma scaled_digits:
  fixes w :: nat
  assumes "list_all is_digit ip" "list_all is_digit fp"
  defines "d \<equiv> ip @ take w (fp @ replicate (w - length fp) (CHR ''0''))"
  shows "list_all is_digit d"
    and "digits_val d = digits_val ip * 10 ^ w + digits_val fp * 10 ^ w div 10 ^ length fp"
proof -
  let ?f = "take w (fp @ replicate (w - length fp) (CHR ''0''))"
  have z: "is_digit (CHR ''0'')" by (simp add: is_digit_def)
  show "list_all is_digit d"
    using assms(1,2) z by (auto simp: d_def list_all_iff dest: in_set_takeD)
  have l: "length ?f = w" by simp
  have "digits_val ?f = digits_val fp * 10 ^ w div 10 ^ length fp"
  proof (cases "length fp \<le> w")
    case True
    have "digits_val ?f = digits_val fp * 10 ^ (w - length fp)"
      using True digits_val_replicate_0[of "w - length fp"]
      by (simp add: digits_val_append digit_char_0)
    moreover have "(10::nat) ^ w = 10 ^ (w - length fp) * 10 ^ length fp"
      using True by (simp flip: power_add)
    ultimately show ?thesis by simp
  next
    case False
    then have f: "?f = take w fp" by simp
    have s: "digits_val fp = digits_val (take w fp) * 10 ^ (length fp - w) + digits_val (drop w fp)"
      using digits_val_append[of "take w fp" "drop w fp"] by simp
    have less: "digits_val t < 10 ^ length t" if "list_all is_digit t" for t
      using that
    proof (induction t rule: rev_induct)
      case (snoc c t)
      then have "digit_val c < 10" by (auto simp: digit_val_def is_digit_def)
      then show ?case using snoc by simp
    qed simp
    have b: "digits_val (drop w fp) < 10 ^ (length fp - w)"
      using less[of "drop w fp"] assms(2) by (auto simp: list_all_iff dest: in_set_dropD)
    have p: "(10::nat) ^ length fp = 10 ^ (length fp - w) * 10 ^ w"
      using False by (simp flip: power_add)
    have "digits_val fp * 10 ^ w div 10 ^ length fp = digits_val fp div 10 ^ (length fp - w)"
      unfolding p by simp
    also have "\<dots> = digits_val (take w fp)" unfolding s using b by simp
    finally show ?thesis using f by simp
  qed
  then show "digits_val d = digits_val ip * 10 ^ w + digits_val fp * 10 ^ w div 10 ^ length fp"
    by (simp only: d_def digits_val_append[of ip] l)
qed

lemma decimal_text_value:
  assumes "list_all is_digit ip" "list_all is_digit (fraction fp)"
  shows "parseDecimal (decimal_text neg ip fp) scale =
    (let w = nat (sint scale);
         v = int (digits_val ip * 10 ^ w +
                  digits_val (fraction fp) * 10 ^ w div 10 ^ length (fraction fp))
     in Inr (if neg then - v else v, scale))"
proof -
  have nosign: "\<not> HasPrefix (ip @ x) ''-''" "\<not> HasPrefix (ip @ x) ''+''"
    if "x = [] \<or> hd x = CHR ''.''" for x
    using that digit_not_sign[OF assms(1)] by (cases ip; cases x; auto simp: HasPrefix_def)+
  have sign: "(if HasPrefix (decimal_text neg ip fp) ''-'' then (True, drop 1 (decimal_text neg ip fp))
      else if HasPrefix (decimal_text neg ip fp) ''+'' then (False, drop 1 (decimal_text neg ip fp))
      else (False, decimal_text neg ip fp)) = (neg, decimal_text False ip fp)"
    using nosign[of "case fp of None \<Rightarrow> [] | Some f \<Rightarrow> CHR ''.'' # f"]
    by (auto simp: decimal_text_def HasPrefix_def split: option.splits)
  have point: "(case IndexByte (decimal_text False ip fp) (CHR ''.'') of
       Some i \<Rightarrow> (take i (decimal_text False ip fp), drop (i + 1) (decimal_text False ip fp))
     | None \<Rightarrow> (decimal_text False ip fp, [])) = (ip, fraction fp)"
    using digit_not_sign(3)[OF assms(1)]
    by (auto simp: decimal_text_def fraction_def IndexByte_None IndexByte_at split: option.splits)
  let ?w = "nat (sint scale)"
  let ?f = "fraction fp @ replicate (?w - length (fraction fp)) (CHR ''0'')"
  have cut: "(if length ?f > ?w then take ?w ?f else ?f) = take ?w ?f" by simp
  have w: "nat (if sint scale < 0 then 0 else sint scale) = ?w" by simp
  show ?thesis
    unfolding parseDecimal_def Let_def TrimSpace_decimal_text[OF assms] sign prod.case point w cut
      SetString10_fix[OF scaled_digits(1)[OF assms]] option.case scaled_digits(2)[OF assms]
    by (rule refl)
qed

text \<open>C40: a decimal text is parsed, for a scale that is not negative, to its value times \<open>10^scale\<close>,
  truncated toward zero; for a negative scale to its value, truncated toward zero, as for scale 0, while
  the negative scale is passed on with it.\<close>

theorem parseDecimal_value:
  assumes "list_all is_digit ip" "list_all is_digit (fraction fp)"
  shows "parseDecimal (decimal_text neg ip fp) scale =
    (let w = nat (sint scale);
         v = int (digits_val ip * 10 ^ w +
                  digits_val (fraction fp) * 10 ^ w div 10 ^ length (fraction fp))
     in Inr (if neg then - v else v, scale))"
  using assms by (rule decimal_text_value)

theorem parseDecimal_value_witness:
  "parseDecimal (decimal_text True ''12'' (Some ''3456'')) 2 = Inr (-1234, 2)"
proof -
  have a: "list_all is_digit ''12''" by code_simp
  have b: "list_all is_digit (fraction (Some ''3456''))" by code_simp
  have "digits_val ''12'' = 12" "digits_val (fraction (Some ''3456'')) = 3456"
    "length (fraction (Some ''3456'')) = 4" by code_simp+
  then show ?thesis using parseDecimal_value[OF a b, of True 2] by simp
qed

section \<open>Printing and parsing\<close>

lemma formatDecimal_text:
  assumes "0 \<le> sint scale"
  obtains ip fp where "formatDecimal u scale = decimal_text (u < 0) ip fp"
    "list_all is_digit ip" "list_all is_digit (fraction fp)"
    "length (fraction fp) = nat (sint scale)" "digits_val (ip @ fraction fp) = nat \<bar>u\<bar>"
proof (cases "scale = 0")
  case True
  show ?thesis
    by (rule that[of "nat_string (nat \<bar>u\<bar>)" None])
      (use True in \<open>simp_all add: formatDecimal_def int_string_def decimal_text_def fraction_def\<close>)
next
  case False
  let ?s = "nat (sint scale)" and ?d = "zero_pad (nat (sint scale) + 1) (nat_string (nat \<bar>u\<bar>))"
  let ?ip = "take (length ?d - ?s) ?d" and ?fp = "drop (length ?d - ?s) ?d"
  have d: "list_all is_digit ?d"
    using nat_string_digits[of "nat \<bar>u\<bar>"] by (auto simp: zero_pad_def list_all_iff is_digit_def)
  have v: "digits_val ?d = nat \<bar>u\<bar>"
    using digits_val_replicate_0[of "?s + 1 - length (nat_string (nat \<bar>u\<bar>))"]
    by (simp add: zero_pad_def digits_val_append digit_char_0)
  show ?thesis
  proof (rule that[of ?ip "Some ?fp"])
    show "formatDecimal u scale = decimal_text (u < 0) ?ip (Some ?fp)"
      using False assms by (simp add: formatDecimal_def decimal_text_def Let_def)
    show "list_all is_digit ?ip" "list_all is_digit (fraction (Some ?fp))"
      using d by (auto simp: fraction_def list_all_iff dest: in_set_takeD in_set_dropD)
    show "length (fraction (Some ?fp)) = ?s"
    proof -
      have "?s + 1 \<le> length ?d" by (simp add: zero_pad_def)
      then show ?thesis by (simp add: fraction_def del: length_append)
    qed
    show "digits_val (?ip @ fraction (Some ?fp)) = nat \<bar>u\<bar>"
      using v by (simp add: fraction_def)
  qed
qed

text \<open>Parsing the text of a decimal at the same non-negative scale gives the decimal back.\<close>

theorem parse_formatDecimal:
  assumes "0 \<le> sint scale"
  shows "parseDecimal (formatDecimal u scale) scale = Inr (u, scale)"
proof -
  obtain ip fp where f: "formatDecimal u scale = decimal_text (u < 0) ip fp"
    and d: "list_all is_digit ip" "list_all is_digit (fraction fp)"
    and l: "length (fraction fp) = nat (sint scale)" and v: "digits_val (ip @ fraction fp) = nat \<bar>u\<bar>"
    using formatDecimal_text[OF assms] .
  have "int (digits_val ip * 10 ^ nat (sint scale) + digits_val (fraction fp)) = \<bar>u\<bar>"
    using v by (simp add: digits_val_append l)
  then show ?thesis
    unfolding f by (subst decimal_text_value[OF d]) (auto simp: Let_def l)
qed

theorem parse_formatDecimal_witness:
  "parseDecimal (formatDecimal (-5) 3) 3 = Inr (-5, 3) \<and> formatDecimal (-5) 3 = ''-0.005''"
proof
  show "parseDecimal (formatDecimal (-5) 3) 3 = Inr (-5, 3)" by (rule parse_formatDecimal) simp
  show "formatDecimal (-5) 3 = ''-0.005''" by code_simp
qed

text \<open>Binding an integer as a number and binding its text give the same decimal, at any scale.\<close>

theorem scaleUnscaled_parse: "parseDecimal (int_string v) scale = Inr (scaleUnscaled v scale, scale)"
proof -
  have t: "int_string v = decimal_text (v < 0) (nat_string (nat \<bar>v\<bar>)) None"
    by (simp add: int_string_def decimal_text_def)
  show ?thesis
    unfolding t by (subst decimal_text_value)
      (auto simp: Let_def fraction_def scaleUnscaled_def word_sle_eq not_less)
qed

text \<open>An exponent is not understood but not rejected either when the scale cuts it off: the
  texts \<open>2.5e-05\<close> and \<open>1.5e+21\<close>, which is how \<^verbatim>\<open>%v\<close> prints such a float64, are taken as 2.5 and 1.5;
  and a doubled sign is accepted.\<close>

theorem parseDecimal_exponent:
  "parseDecimal ''2.5e-05'' 1 = Inr (25, 1) \<and> parseDecimal ''1.5e+21'' 1 = Inr (15, 1) \<and>
   parseDecimal ''--5'' 0 = Inr (5, 0)"
  by (intro conjI) code_simp+

text \<open>A negative scale \<open>-k\<close> stands for a multiple of \<open>10^k\<close>, but a bound value is not divided
  by it: what is sent for the integer \<open>v\<close> denotes \<open>v\<close> followed by \<open>k\<close> zeros.\<close>

theorem negative_scale_multiplies:
  assumes "sint scale < 0" "0 < v"
  shows "formatDecimal (scaleUnscaled v scale) scale =
    int_string v @ replicate (nat (- sint scale)) (CHR ''0'')"
proof -
  have "scale \<noteq> 0" using assms(1) by auto
  moreover have "scale \<le>s 0" using assms(1) by (simp add: word_sle_eq)
  ultimately show ?thesis
    using assms by (simp add: formatDecimal_def scaleUnscaled_def int_string_def Let_def)
qed

theorem negative_scale_multiplies_witness:
  "formatDecimal (scaleUnscaled 5 (-2)) (-2) = ''500''"
proof -
  have "int_string 5 @ replicate 2 (CHR ''0'') = ''500''" by code_simp
  then show ?thesis using negative_scale_multiplies[of "-2" 5] by simp
qed

end
