(* ===== verification/Temporal.thy ===== *)
theory Temporal
  imports Decimals "HOL-Library.Signed_Division"
begin

text \<open>
  Times and intervals of \<^verbatim>\<open>internal/proto/types.go\<close>, and the SQL type codes of
  \<^verbatim>\<open>internal/proto/const.go\<close> that select among them.
\<close>

section \<open>Type codes\<close>

abbreviation SQLAllTypes :: i16 where "SQLAllTypes \<equiv> 0"
abbreviation SQLChar :: i16 where "SQLChar \<equiv> 1"
abbreviation SQLNumeric :: i16 where "SQLNumeric \<equiv> 2"
abbreviation SQLDecimal :: i16 where "SQLDecimal \<equiv> 3"
abbreviation SQLInteger :: i16 where "SQLInteger \<equiv> 4"
abbreviation SQLSmallint :: i16 where "SQLSmallint \<equiv> 5"
abbreviation SQLFloat :: i16 where "SQLFloat \<equiv> 6"
abbreviation SQLReal :: i16 where "SQLReal \<equiv> 7"
abbreviation SQLDouble :: i16 where "SQLDouble \<equiv> 8"
abbreviation SQLVarchar :: i16 where "SQLVarchar \<equiv> 12"
abbreviation SQLBit :: i16 where "SQLBit \<equiv> 14"
abbreviation SQLBitVarying :: i16 where "SQLBitVarying \<equiv> 15"
abbreviation SQLBoolean :: i16 where "SQLBoolean \<equiv> 16"
abbreviation SQLBigint :: i16 where "SQLBigint \<equiv> 25"
abbreviation SQLBlob :: i16 where "SQLBlob \<equiv> 30"
abbreviation SQLClob :: i16 where "SQLClob \<equiv> 40"
abbreviation SQLBinary :: i16 where "SQLBinary \<equiv> 60"
abbreviation SQLVarbinary :: i16 where "SQLVarbinary \<equiv> 61"
abbreviation SQLDate :: i16 where "SQLDate \<equiv> 91"
abbreviation SQLTime :: i16 where "SQLTime \<equiv> 92"
abbreviation SQLTimestamp :: i16 where "SQLTimestamp \<equiv> 93"
abbreviation SQLTimeTZ :: i16 where "SQLTimeTZ \<equiv> 94"
abbreviation SQLTimestampTZ :: i16 where "SQLTimestampTZ \<equiv> 95"
abbreviation SQLIntervalYear :: i16 where "SQLIntervalYear \<equiv> 101"
abbreviation SQLIntervalMonth :: i16 where "SQLIntervalMonth \<equiv> 102"
abbreviation SQLIntervalDay :: i16 where "SQLIntervalDay \<equiv> 103"
abbreviation SQLIntervalHour :: i16 where "SQLIntervalHour \<equiv> 104"
abbreviation SQLIntervalMinute :: i16 where "SQLIntervalMinute \<equiv> 105"
abbreviation SQLIntervalSecond :: i16 where "SQLIntervalSecond \<equiv> 106"
abbreviation SQLIntervalYearToMonth :: i16 where "SQLIntervalYearToMonth \<equiv> 107"
abbreviation SQLIntervalDayToHour :: i16 where "SQLIntervalDayToHour \<equiv> 108"
abbreviation SQLIntervalDayToMinute :: i16 where "SQLIntervalDayToMinute \<equiv> 109"
abbreviation SQLIntervalDayToSecond :: i16 where "SQLIntervalDayToSecond \<equiv> 110"
abbreviation SQLIntervalHourToMinute :: i16 where "SQLIntervalHourToMinute \<equiv> 111"
abbreviation SQLIntervalHourToSecond :: i16 where "SQLIntervalHourToSecond \<equiv> 112"
abbreviation SQLIntervalMinuteToSecond :: i16 where "SQLIntervalMinuteToSecond \<equiv> 113"
abbreviation SQLTinyint :: i16 where "SQLTinyint \<equiv> -6"
abbreviation SQLGuid :: i16 where "SQLGuid \<equiv> -11"
abbreviation SQLArray :: i16 where "SQLArray \<equiv> 50"
abbreviation SQLOther :: i16 where "SQLOther \<equiv> 1111"

section \<open>Times\<close>

text \<open>
  \<^verbatim>\<open>time.Time\<close>: the instant as Unix seconds and nanoseconds, and the offset from UTC that its
  location has at that instant; the code reads nothing else of a location.
\<close>

record gtime =
  tsec :: int
  tnsec :: int
  toff :: int

abbreviation secondsPerDay :: int where "secondsPerDay \<equiv> 86400"

text \<open>\<^verbatim>\<open>time.Time{}\<close>, \<^verbatim>\<open>time.Unix(sec, nsec).In(loc)\<close> and \<^verbatim>\<open>time.Date(1970, 1, 1, 0, 0, sec, nsec, loc)\<close>:
  nanoseconds outside \<open>[0, 10^9)\<close> are carried into the seconds.\<close>

definition zero_time :: gtime where
  "zero_time = \<lparr>tsec = -62135596800, tnsec = 0, toff = 0\<rparr>"

definition unix_time :: "int \<Rightarrow> int \<Rightarrow> int \<Rightarrow> gtime" where
  "unix_time sec nsec off =
     \<lparr>tsec = sec + nsec div 1000000000, tnsec = nsec mod 1000000000, toff = off\<rparr>"

definition epoch_day_time :: "int \<Rightarrow> int \<Rightarrow> int \<Rightarrow> gtime" where
  "epoch_day_time sec nsec off = unix_time (sec - off) nsec off"

definition valid_time :: "gtime \<Rightarrow> bool" where
  "valid_time t \<longleftrightarrow> 0 \<le> tnsec t \<and> tnsec t < 1000000000"

text \<open>
  \<^verbatim>\<open>dateSeconds\<close> takes the calendar date of the local time and asks for midnight of that date in
  UTC: the local time rounded down to a whole day.
\<close>

definition dateSeconds :: "gtime \<Rightarrow> int" where
  "dateSeconds t = (tsec t + toff t) div secondsPerDay * secondsPerDay"

text \<open>\<^verbatim>\<open>t.Hour()*3600 + t.Minute()*60 + t.Second()\<close>, from the seconds of the local day.\<close>

definition timeOfDaySeconds :: "gtime \<Rightarrow> int" where
  "timeOfDaySeconds t =
     (let day = (tsec t + toff t) mod secondsPerDay;
          hour = day div 3600; minute = day mod 3600 div 60; second = day mod 60
      in hour * 3600 + minute * 60 + second)"

definition zoneSeconds :: "gtime \<Rightarrow> int" where
  "zoneSeconds t = toff t"

definition zoneLocation :: "int \<Rightarrow> int" where
  "zoneLocation sec = (if sec = 0 then 0 else sec)"

lemma timeOfDaySeconds_mod: "timeOfDaySeconds t = (tsec t + toff t) mod 86400"
proof -
  define d where "d = (tsec t + toff t) mod 86400"
  have "d mod 60 = d mod 3600 mod 60" by (simp add: mod_mod_cancel)
  then have "d div 3600 * 3600 + d mod 3600 div 60 * 60 + d mod 60 =
    d div 3600 * 3600 + (d mod 3600 div 60 * 60 + d mod 3600 mod 60)" by simp
  also have "\<dots> = d" by (simp only: div_mult_mod_eq)
  finally show ?thesis by (simp add: timeOfDaySeconds_def Let_def d_def)
qed

lemma timeOfDaySeconds_range: "0 \<le> timeOfDaySeconds t" "timeOfDaySeconds t < 86400"
  by (simp_all add: timeOfDaySeconds_mod)

lemma date_time_split: "dateSeconds t + timeOfDaySeconds t = tsec t + toff t"
  by (simp only: dateSeconds_def timeOfDaySeconds_mod div_mult_mod_eq)

lemma valid_unix_time [simp]: "valid_time (unix_time s n off)"
  by (simp add: valid_time_def unix_time_def)

lemma unix_time_id: "valid_time t \<Longrightarrow> unix_time (tsec t) (tnsec t) (toff t) = t"
  by (simp add: valid_time_def unix_time_def)

section \<open>Intervals\<close>

text \<open>\<^verbatim>\<open>%d\<close> and \<^verbatim>\<open>%0nd\<close> of a signed number; Go's \<^verbatim>\<open>/\<close> and \<^verbatim>\<open>%\<close> truncate toward zero.\<close>

definition pad_int :: "nat \<Rightarrow> int \<Rightarrow> string" where
  "pad_int w v =
     (if v < 0 then CHR ''-'' # zero_pad (w - 1) (nat_string (nat (- v)))
      else zero_pad w (nat_string (nat v)))"

definition formatYearMonthInterval :: "i16 \<Rightarrow> i64 \<Rightarrow> string" where
  "formatYearMonthInterval code months =
     (let neg = months <s 0;
          months = sint (if neg then - months else months);
          out = (if code = SQLIntervalYear then int_string (months sdiv 12)
                 else if code = SQLIntervalMonth then int_string months
                 else int_string (months sdiv 12) @ ''-'' @ pad_int 2 (months smod 12))
      in if neg then CHR ''-'' # out else out)"

definition interval_sec_part :: "int \<Rightarrow> int \<Rightarrow> string" where
  "interval_sec_part secs nanos =
     (let secPart = pad_int 2 secs
      in if nanos \<noteq> 0 then
           let frac = pad_int 9 nanos; frac = TrimRight (CHR ''0'') frac
           in secPart @ ''.'' @ frac
         else secPart)"

definition formatDaySecondInterval :: "i16 \<Rightarrow> i64 \<Rightarrow> i32 \<Rightarrow> string" where
  "formatDaySecondInterval code seconds nanos =
     (let neg = seconds <s 0 \<or> nanos <s 0;
          (seconds, nanos) = (if neg then (- seconds, - nanos) else (seconds, nanos));
          seconds = sint seconds; nanos = sint nanos;
          days = seconds sdiv secondsPerDay;
          rem = seconds smod secondsPerDay;
          hours = rem sdiv 3600;
          rem = rem smod 3600;
          minutes = rem sdiv 60;
          secs = rem smod 60;
          secPart = interval_sec_part secs nanos;
          out =
            (if code = SQLIntervalDay then int_string days
             else if code = SQLIntervalHour then int_string (seconds sdiv 3600)
             else if code = SQLIntervalMinute then int_string (seconds sdiv 60)
             else if code = SQLIntervalSecond then
               let out = TrimLeft (CHR ''0'') secPart;
                   out = (if HasPrefix out ''.'' then ''0'' @ out else out)
               in if out = [] then ''0'' else out
             else if code = SQLIntervalDayToHour then
               int_string days @ '' '' @ pad_int 2 hours
             else if code = SQLIntervalDayToMinute then
               int_string days @ '' '' @ pad_int 2 hours @ '':'' @ pad_int 2 minutes
             else if code = SQLIntervalDayToSecond then
               int_string days @ '' '' @ pad_int 2 hours @ '':'' @ pad_int 2 minutes @ '':'' @ secPart
             else if code = SQLIntervalHourToMinute then
               int_string (seconds sdiv 3600) @ '':'' @ pad_int 2 minutes
             else if code = SQLIntervalHourToSecond then
               int_string (seconds sdiv 3600) @ '':'' @ pad_int 2 minutes @ '':'' @ secPart
             else int_string (seconds sdiv 60) @ '':'' @ secPart)
      in if neg then CHR ''-'' # out else out)"

lemma sdiv_smod_nonneg: "0 \<le> (a::int) \<Longrightarrow> 0 < b \<Longrightarrow> a sdiv b = a div b \<and> a smod b = a mod b"
  by (simp add: signed_divide_int_def signed_modulo_int_def sgn_if minus_mult_div_eq_mod)

text \<open>The sign and the magnitude of an interval, as the server sends them: seconds (or months) and
  nanoseconds both carry the sign.\<close>

definition signed_word :: "bool \<Rightarrow> nat \<Rightarrow> 'a::len word" where
  "signed_word neg n = (if neg then - word_of_nat n else word_of_nat n)"

lemma signed_word_abs:
  assumes "n < 2 ^ (LENGTH('a) - 1)"
  shows "sint (if neg then - signed_word neg n else signed_word neg n :: 'a::len word) = int n"
  using sint_of_nat_small[where 'a='a, of n] assms by (simp add: signed_word_def)

lemma signed_word_neg:
  assumes "n < 2 ^ (LENGTH('a) - 1)"
  shows "((signed_word neg n :: 'a::len word) <s 0) = (neg \<and> 0 < n)"
proof -
  have s: "sint (word_of_nat n :: 'a word) = int n" using sint_of_nat_small[where 'a='a, of n] assms by simp
  show ?thesis
  proof (cases "neg \<and> 0 < n")
    case True
    have "int n < int (2 ^ (LENGTH('a) - 1))" using assms by (simp only: of_nat_less_iff)
    then have b: "int n < 2 ^ (LENGTH('a) - 1)" by simp
    have "0 < (2::int) ^ (LENGTH('a) - 1)" by simp
    then have "- (2 ^ (LENGTH('a) - 1)) \<le> - int n \<and> - int n < 2 ^ (LENGTH('a) - 1)"
      using b by linarith
    then have "signed_take_bit (LENGTH('a) - 1) (- int n) = - int n"
      by (intro signed_take_bit_int_eq_self) simp_all
    then have "sint (- word_of_nat n :: 'a word) = - int n"
      by (simp only: sint_word_ariths(4)[where 'a='a] s)
    then show ?thesis using True by (simp add: signed_word_def word_sless_alt)
  next
    case False
    then show ?thesis by (auto simp: signed_word_def word_sless_alt s)
  qed
qed

text \<open>A year-month interval prints its sign, its years and its months below twelve.\<close>

theorem year_month_interval:
  assumes "n < 2 ^ 63" "neg \<longrightarrow> 0 < n"
  shows "formatYearMonthInterval SQLIntervalYearToMonth (signed_word neg n) =
    (if neg then ''-'' else []) @ nat_string (n div 12) @ ''-'' @ zero_pad 2 (nat_string (n mod 12))"
proof -
  have sg: "((signed_word neg n :: i64) <s 0) = neg"
    using signed_word_neg[where 'a=64, of n neg] assms by auto
  have v: "sint (if neg then - signed_word neg n else signed_word neg n :: i64) = int n"
    using signed_word_abs[where 'a=64, of n neg] assms(1) by simp
  have q: "int n sdiv 12 = int (n div 12)" "int n smod 12 = int (n mod 12)"
    using sdiv_smod_nonneg[of "int n" 12] by (simp_all add: zdiv_int zmod_int)
  show ?thesis
    unfolding formatYearMonthInterval_def Let_def sg v q
    by (simp add: int_string_def pad_int_def)
qed

theorem year_month_interval_witness:
  "formatYearMonthInterval SQLIntervalYearToMonth (signed_word True 27) = ''-2-03''"
proof -
  have e: "nat_string (27 div 12) = ''2''" "zero_pad 2 (nat_string (27 mod 12)) = ''03''" by code_simp+
  have "(27::nat) < 2 ^ 63" "True \<longrightarrow> (0::nat) < 27" by simp_all
  from year_month_interval[OF this] show ?thesis unfolding e by simp
qed

lemma day_second_fields:
  assumes "n < 2 ^ 63" "k < 1000000000" "neg \<longrightarrow> 0 < n \<or> 0 < k"
  shows "formatDaySecondInterval code (signed_word neg n) (signed_word neg k) =
    (let days = n div 86400; hours = n mod 86400 div 3600; minutes = n mod 3600 div 60;
         secPart = interval_sec_part (int (n mod 60)) (int k);
         out =
           (if code = SQLIntervalDay then nat_string days
            else if code = SQLIntervalHour then nat_string (n div 3600)
            else if code = SQLIntervalMinute then nat_string (n div 60)
            else if code = SQLIntervalSecond then
              let out = TrimLeft (CHR ''0'') secPart;
                  out = (if HasPrefix out ''.'' then ''0'' @ out else out)
              in if out = [] then ''0'' else out
            else if code = SQLIntervalDayToHour then
              nat_string days @ '' '' @ zero_pad 2 (nat_string hours)
            else if code = SQLIntervalDayToMinute then
              nat_string days @ '' '' @ zero_pad 2 (nat_string hours) @ '':'' @ zero_pad 2 (nat_string minutes)
            else if code = SQLIntervalDayToSecond then
              nat_string days @ '' '' @ zero_pad 2 (nat_string hours) @ '':'' @
                zero_pad 2 (nat_string minutes) @ '':'' @ secPart
            else if code = SQLIntervalHourToMinute then
              nat_string (n div 3600) @ '':'' @ zero_pad 2 (nat_string minutes)
            else if code = SQLIntervalHourToSecond then
              nat_string (n div 3600) @ '':'' @ zero_pad 2 (nat_string minutes) @ '':'' @ secPart
            else nat_string (n div 60) @ '':'' @ secPart)
     in if neg then CHR ''-'' # out else out)"
proof -
  have sg: "((signed_word neg n :: i64) <s 0 \<or> (signed_word neg k :: i32) <s 0) = neg"
    using signed_word_neg[where 'a=64, of n neg] signed_word_neg[where 'a=32, of k neg] assms by auto
  have v: "sint (if neg then - signed_word neg n else signed_word neg n :: i64) = int n"
    "sint (if neg then - signed_word neg k else signed_word neg k :: i32) = int k"
    using signed_word_abs[where 'a=64, of n neg] signed_word_abs[where 'a=32, of k neg] assms by simp_all
  have pair: "(if neg then (- a, - b) else (a, b)) = (if neg then - a else a, if neg then - b else b)"
    for a :: i64 and b :: i32 by simp
  have sd: "int a sdiv int b = int (a div b)" "int a smod int b = int (a mod b)" if "0 < b" for a b
    using that sdiv_smod_nonneg[of "int a" "int b"] by (simp_all add: zdiv_int zmod_int)
  note q = sd[of 86400, simplified] sd[of 3600, simplified] sd[of 60, simplified]
  have m: "n mod 86400 mod 3600 = n mod 3600" "n mod 3600 mod 60 = n mod 60"
    by (simp_all add: mod_mod_cancel)
  have p: "int_string (int a) = nat_string a" "pad_int 2 (int a) = zero_pad 2 (nat_string a)" for a
    by (simp_all add: int_string_def pad_int_def)
  show ?thesis
    unfolding formatDaySecondInterval_def Let_def sg pair prod.case v q m p by (rule refl)
qed

text \<open>A day-to-second interval prints its sign and the days, hours, minutes and seconds whose
  sum it is, each in its range.\<close>

theorem day_second_interval:
  assumes "n < 2 ^ 63" "k < 1000000000" "neg \<longrightarrow> 0 < n \<or> 0 < k"
  shows "\<exists>d h m s. n = d * 86400 + h * 3600 + m * 60 + s \<and> h < 24 \<and> m < 60 \<and> s < 60 \<and>
    formatDaySecondInterval SQLIntervalDayToSecond (signed_word neg n) (signed_word neg k) =
      (if neg then ''-'' else []) @ nat_string d @ '' '' @ zero_pad 2 (nat_string h) @ '':'' @
      zero_pad 2 (nat_string m) @ '':'' @ interval_sec_part (int s) (int k)"
proof -
  have "n div 86400 * 86400 + n mod 86400 = n" "n mod 86400 div 3600 * 3600 + n mod 3600 = n mod 86400"
    "n mod 3600 div 60 * 60 + n mod 60 = n mod 3600"
    using div_mult_mod_eq[of n 86400] div_mult_mod_eq[of "n mod 86400" 3600] div_mult_mod_eq[of "n mod 3600" 60]
    by (simp_all add: mod_mod_cancel)
  then have sum: "n = n div 86400 * 86400 + n mod 86400 div 3600 * 3600 + n mod 3600 div 60 * 60 + n mod 60"
    by linarith
  have "n mod 86400 < 86400" "n mod 3600 < 3600" by simp_all
  then have r: "n mod 86400 div 3600 < 24" "n mod 3600 div 60 < 60" "n mod 60 < 60"
    by (simp_all add: less_mult_imp_div_less)
  show ?thesis
    by (rule exI[of _ "n div 86400"], rule exI[of _ "n mod 86400 div 3600"],
        rule exI[of _ "n mod 3600 div 60"], rule exI[of _ "n mod 60"])
      (use sum r in \<open>simp add: day_second_fields[OF assms] Let_def\<close>)
qed

theorem day_second_interval_witness:
  "\<exists>d h m s. (93784::nat) = d * 86400 + h * 3600 + m * 60 + s \<and> h < 24 \<and> m < 60 \<and> s < 60 \<and>
    formatDaySecondInterval SQLIntervalDayToSecond (signed_word False 93784) (signed_word False 500000000) =
      (if False then ''-'' else []) @ nat_string d @ '' '' @ zero_pad 2 (nat_string h) @ '':'' @
      zero_pad 2 (nat_string m) @ '':'' @ interval_sec_part (int s) (int 500000000)"
  by (rule day_second_interval) simp_all

text \<open>An INTERVAL SECOND is printed with its whole minutes left out, so intervals of 30, 90 and
  150 seconds all come back as the text \<open>30\<close>.\<close>

theorem interval_second_drops_minutes:
  assumes "s < 60" "m * 60 + s < 2 ^ 63" "k < 1000000000"
  shows "formatDaySecondInterval SQLIntervalSecond (signed_word False (m * 60 + s)) (signed_word False k) =
    formatDaySecondInterval SQLIntervalSecond (signed_word False s) (signed_word False k)"
proof -
  have "s < 2 ^ 63" using assms(2) by linarith
  moreover have "(m * 60 + s) mod 60 = s mod 60" by simp
  ultimately show ?thesis using assms by (simp add: day_second_fields)
qed

theorem interval_second_drops_minutes_witness:
  "formatDaySecondInterval SQLIntervalSecond (signed_word False 90) (signed_word False 0) = ''30''"
proof -
  have b: "(30::nat) < 60" "(1::nat) * 60 + 30 < 2 ^ 63" "(0::nat) < 1000000000" by simp_all
  have "formatDaySecondInterval SQLIntervalSecond (signed_word False 30) (signed_word False 0) = ''30''"
    by code_simp
  then show ?thesis using interval_second_drops_minutes[OF b] by simp
qed

end
