(* ===== verification/Values.thy ===== *)
theory Values
  imports TextCodec Temporal
begin

unbundle bit_operations_syntax

text \<open>
  \<^verbatim>\<open>internal/proto/types.go\<close>: column types, the Go values that cross the driver's boundary, the
  coercions of \<^verbatim>\<open>asString\<close>, \<^verbatim>\<open>asInt64\<close>, ... and the encoding and decoding of one value.
\<close>

section \<open>Column types\<close>

record column_type =
  Code :: i16
  BaseCode :: i16
  Precision :: i64
  Scale :: i32

text \<open>\<^verbatim>\<open>ColumnType{Code: t}\<close>: the other fields are zero.\<close>

definition type_of_code :: "i16 \<Rightarrow> column_type" where
  "type_of_code t = \<lparr>Code = t, BaseCode = 0, Precision = 0, Scale = 0\<rparr>"

definition IsArray :: "column_type \<Rightarrow> bool" where
  "IsArray c \<longleftrightarrow> Code c = SQLArray"

definition WriteDataTypeSimple :: "column_type \<Rightarrow> row_output \<Rightarrow> row_output" where
  "WriteDataTypeSimple c w =
     (let w = WriteType (Code c) w in if IsArray c then WriteType (BaseCode c) w else w)"

definition WriteDataType :: "column_type \<Rightarrow> row_output \<Rightarrow> row_output" where
  "WriteDataType c w =
     (let w = WriteType (Code c) w;
          w = (if IsArray c then WriteType (BaseCode c) w else w);
          w = WriteLong (Precision c) w
      in WriteInt (Scale c) w)"

definition ReadDataTypeSimple :: "row_input \<Rightarrow> column_type \<times> row_input" where
  "ReadDataTypeSimple r =
     (let (t, r) = ReadType r; c = type_of_code t in
      if IsArray c then let (b, r) = ReadType r in (c\<lparr>BaseCode := b\<rparr>, r) else (c, r))"

definition ReadDataType :: "row_input \<Rightarrow> column_type \<times> row_input" where
  "ReadDataType r =
     (let (t, r) = ReadType r; c = type_of_code t;
          (b, r) = (if IsArray c then ReadType r else (0, r));
          (p, r) = ReadLong r;
          (s, r) = ReadInt r
      in (c\<lparr>BaseCode := b, Precision := p, Scale := s\<rparr>, r))"

section \<open>Values\<close>

text \<open>
  What a Go \<^verbatim>\<open>any\<close> holds when it reaches the driver.  A float is its IEEE-754 bit pattern; an
  \<^verbatim>\<open>io.Reader\<close> is the sequence of results of its \<^verbatim>\<open>Read\<close> calls, of a reader that makes progress: the error
  \<^verbatim>\<open>io.ErrNoProgress\<close> that \<^verbatim>\<open>bufio\<close> reports after a hundred empty reads in a row is outside the model; \<open>VArrayValue\<close> and \<open>VLobRef\<close> are the types of
  package \<^verbatim>\<open>proto\<close>, \<open>VArray\<close> to \<open>VClobPtr\<close> those of package \<^verbatim>\<open>hsql\<close> (with nil pointers and nil readers);
  \<open>VOther\<close> is a value of any other type, by its type's name.
\<close>

type_synonym go_reader = "(byte list \<times> go_error option) list"

text \<open>
  The \<^verbatim>\<open>Dest\<close> of an \<^verbatim>\<open>sql.Out\<close> or an argument of \<^verbatim>\<open>Scan\<close>: nil, something that is no pointer, a nil pointer with the type
  that it points to, as far as \<^verbatim>\<open>assignOutValue\<close> tells it apart, or a pointer to a cell.
\<close>

datatype nil_target = NilAny | NilTime | NilBytes | NilOther

datatype out_dest = DestNil | DestNotPointer | DestNilPtr nil_target | DestPtr nat

datatype gval =
    VNil
  | VInt64 i64
  | VGoInt i64
  | VInt32 i32
  | VFloat64 "64 word"
  | VFloat32 "32 word"
  | VBool bool
  | VBytes "byte list"
  | VString string
  | VTime gtime
  | VDecimal int i32
  | VArrayValue "gval list" i16
  | VLobRef i64 bool
  | VArray "gval list"
  | VArrayPtr "gval list option"
  | VBlob "go_reader option" i64
  | VBlobPtr "(go_reader option \<times> i64) option"
  | VClob "go_reader option" i64
  | VClobPtr "(go_reader option \<times> i64) option"
  | VOut out_dest bool
  | VOther string

section \<open>Floating point\<close>

text \<open>
  The conversions between int64, float32 and float64 on the IEEE-754 bit patterns: to float64 rounds
  to nearest, ties to even; to int64 truncates, with the value of amd64 outside the range.
\<close>

fun floor_log2 :: "nat \<Rightarrow> nat" where
  "floor_log2 n = (if n \<le> 1 then 0 else Suc (floor_log2 (n div 2)))"

declare floor_log2.simps [simp del]

definition float_bits_of_nat :: "nat \<Rightarrow> nat" where
  "float_bits_of_nat n =
     (if n = 0 then 0
      else let k = floor_log2 n;
               m = (if k \<le> 52 then n * 2 ^ (52 - k)
                    else let q = n div 2 ^ (k - 52); r = n mod 2 ^ (k - 52); h = 2 ^ (k - 53)
                         in if r > h \<or> (r = h \<and> odd q) then q + 1 else q)
           in (k + 1023) * 2 ^ 52 + (m - 2 ^ 52))"

definition float64_of_int64 :: "i64 \<Rightarrow> 64 word" where
  "float64_of_int64 v =
     (if v <s 0 then 0x8000000000000000 OR word_of_nat (float_bits_of_nat (nat (- sint v)))
      else word_of_nat (float_bits_of_nat (nat (sint v))))"

definition int64_of_float64 :: "64 word \<Rightarrow> i64" where
  "int64_of_float64 x =
     (let e = unat (drop_bit 52 x AND 0x7FF); m = unat (x AND 0xFFFFFFFFFFFFF) + 2 ^ 52;
          n = (if e \<ge> 1075 then m * 2 ^ (e - 1075) else m div 2 ^ (1075 - e))
      in if e < 1023 then 0
         else if e \<ge> 1086 then 0x8000000000000000
         else if bit x 63 then - word_of_nat n else word_of_nat n)"

definition float64_of_float32 :: "32 word \<Rightarrow> 64 word" where
  "float64_of_float32 x =
     (let e = unat (drop_bit 23 x AND 0xFF); f = unat (x AND 0x7FFFFF);
          s = (if bit x 31 then 0x8000000000000000 else 0)
      in s OR (if e = 255 then
                 if f = 0 then 0x7FF0000000000000
                 else 0x7FF8000000000000 OR push_bit 29 (word_of_nat f)
               else if e = 0 then
                 if f = 0 then 0
                 else let k = floor_log2 f
                      in word_of_nat ((k + 874) * 2 ^ 52 + (f - 2 ^ k) * 2 ^ (52 - k))
               else word_of_nat ((e + 896) * 2 ^ 52 + f * 2 ^ 29)))"

section \<open>Coercions\<close>

text \<open>
  \<open>fmt_v\<close> is the text that \<^verbatim>\<open>fmt\<close> gives with \<^verbatim>\<open>%v\<close> to a float, a time or a value of another type;
  integers and booleans are printed here.
\<close>

definition Sprint :: "(gval \<Rightarrow> string) \<Rightarrow> gval \<Rightarrow> string" where
  "Sprint fmt_v v = (case v of
      VInt64 x \<Rightarrow> int_string (sint x)
    | VGoInt x \<Rightarrow> int_string (sint x)
    | VInt32 x \<Rightarrow> int_string (sint x)
    | VBool b \<Rightarrow> (if b then ''true'' else ''false'')
    | _ \<Rightarrow> fmt_v v)"

definition asString :: "(gval \<Rightarrow> string) \<Rightarrow> gval \<Rightarrow> string" where
  "asString fmt_v v = (case v of
      VString x \<Rightarrow> x
    | VBytes x \<Rightarrow> string_of_bytes x
    | _ \<Rightarrow> Sprint fmt_v v)"

definition asInt64 :: "gval \<Rightarrow> i64" where
  "asInt64 v = (case v of
      VInt64 x \<Rightarrow> x
    | VGoInt x \<Rightarrow> x
    | VInt32 x \<Rightarrow> scast x
    | VBool x \<Rightarrow> (if x then 1 else 0)
    | VFloat64 x \<Rightarrow> int64_of_float64 x
    | _ \<Rightarrow> 0)"

definition asFloat64 :: "gval \<Rightarrow> 64 word" where
  "asFloat64 v = (case v of
      VFloat64 x \<Rightarrow> x
    | VFloat32 x \<Rightarrow> float64_of_float32 x
    | VInt64 x \<Rightarrow> float64_of_int64 x
    | _ \<Rightarrow> 0)"

definition asBool :: "gval \<Rightarrow> bool" where
  "asBool v = (case v of VBool x \<Rightarrow> x | VInt64 x \<Rightarrow> x \<noteq> 0 | _ \<Rightarrow> False)"

definition asBytes :: "gval \<Rightarrow> byte list" where
  "asBytes v = (case v of VBytes x \<Rightarrow> x | VString x \<Rightarrow> bytes_of_string x | _ \<Rightarrow> [])"

definition asTime :: "gval \<Rightarrow> gtime" where
  "asTime v = (case v of VTime t \<Rightarrow> t | _ \<Rightarrow> zero_time)"

definition asDecimal :: "(gval \<Rightarrow> string) \<Rightarrow> gval \<Rightarrow> i32 \<Rightarrow> (int \<times> i32) go_result" where
  "asDecimal fmt_v v scale = (case v of
      VDecimal u s \<Rightarrow> Inr (u, s)
    | VString x \<Rightarrow> parseDecimal x scale
    | VBytes x \<Rightarrow> parseDecimal (string_of_bytes x) scale
    | VInt64 x \<Rightarrow> Inr (scaleUnscaled (sint x) scale, scale)
    | VFloat64 x \<Rightarrow> parseDecimal (fmt_v v) scale
    | _ \<Rightarrow> Inl (Errorf ''hsql/proto: cannot convert to decimal''))"

section \<open>Writing a value\<close>

text \<open>
  Every case of the switch of \<^verbatim>\<open>WriteValue\<close> but ARRAY.  The result is the error, if any, and the
  buffer, which keeps what was written before the error.
\<close>

definition write_scalar ::
    "(gval \<Rightarrow> string) \<Rightarrow> column_type \<Rightarrow> gval \<Rightarrow> row_output \<Rightarrow> go_error option \<times> row_output" where
  "write_scalar fmt_v c v w =
     (if Code c = SQLAllTypes then (None, w)
      else if Code c = SQLChar \<or> Code c = SQLVarchar then (None, WriteString (asString fmt_v v) w)
      else if Code c = SQLTinyint \<or> Code c = SQLSmallint then (None, WriteShort (ucast (asInt64 v)) w)
      else if Code c = SQLInteger then (None, WriteInt (ucast (asInt64 v)) w)
      else if Code c = SQLBigint then (None, WriteLong (asInt64 v) w)
      else if Code c = SQLReal \<or> Code c = SQLFloat \<or> Code c = SQLDouble then
        (None, WriteDouble (asFloat64 v) w)
      else if Code c = SQLBoolean then (None, WriteBool (asBool v) w)
      else if Code c = SQLDecimal \<or> Code c = SQLNumeric then
        (case asDecimal fmt_v v (Scale c) of
           Inl e \<Rightarrow> (Some e, w)
         | Inr (u, s) \<Rightarrow> (None, WriteDecimal u s w))
      else if Code c = SQLDate then (None, WriteLong (word_of_int (dateSeconds (asTime v))) w)
      else if Code c = SQLTime \<or> Code c = SQLTimeTZ then
        let t = asTime v;
            w = WriteInt (word_of_int (timeOfDaySeconds t)) w;
            w = WriteInt (word_of_int (tnsec t)) w;
            w = (if Code c = SQLTimeTZ then WriteInt (word_of_int (zoneSeconds t)) w else w)
        in (None, w)
      else if Code c = SQLTimestamp \<or> Code c = SQLTimestampTZ then
        let t = asTime v;
            w = WriteLong (word_of_int (tsec t)) w;
            w = WriteInt (word_of_int (tnsec t)) w;
            w = (if Code c = SQLTimestampTZ then WriteInt (word_of_int (zoneSeconds t)) w else w)
        in (None, w)
      else if Code c = SQLBinary \<or> Code c = SQLVarbinary then (None, WriteBytes (asBytes v) w)
      else if Code c = SQLGuid \<or> Code c = SQLOther then (None, WriteBytes (asBytes v) w)
      else if Code c = SQLBit \<or> Code c = SQLBitVarying then
        let b = asBytes v in (None, WriteRaw b (WriteInt (word_of_nat (length b * 8)) w))
      else if Code c = SQLClob \<or> Code c = SQLBlob then
        (case v of
           VLobRef i _ \<Rightarrow> (None, WriteLong i w)
         | _ \<Rightarrow> (Some (Errorf ''hsql/proto: LOB parameter type requires LobRef''), w))
      else (Some (Errorf ''hsql/proto: unsupported write type code''), w))"

text \<open>The loop over the elements of an ARRAY stops at the first error.\<close>

fun WriteValue ::
    "(gval \<Rightarrow> string) \<Rightarrow> column_type \<Rightarrow> gval \<Rightarrow> row_output \<Rightarrow> go_error option \<times> row_output"
  and write_elems ::
    "(gval \<Rightarrow> string) \<Rightarrow> column_type \<Rightarrow> gval list \<Rightarrow> row_output \<Rightarrow> go_error option \<times> row_output" where
  "WriteValue fmt_v c v w =
     (if v = VNil then (None, WriteU8 0 w)
      else
        let w = WriteU8 1 w in
        if Code c = SQLArray then
          (case v of
             VArrayValue vs _ \<Rightarrow>
               write_elems fmt_v (type_of_code (BaseCode c)) vs (WriteInt (word_of_nat (length vs)) w)
           | _ \<Rightarrow> (Some (Errorf ''hsql/proto: ARRAY parameter requires ArrayValue''), w))
        else write_scalar fmt_v c v w)"
| "write_elems fmt_v c [] w = (None, w)"
| "write_elems fmt_v c (v # vs) w =
     (case WriteValue fmt_v c v w of
        (Some e, w) \<Rightarrow> (Some e, w)
      | (None, w) \<Rightarrow> write_elems fmt_v c vs w)"

declare WriteValue.simps [simp del]

section \<open>Reading a value\<close>

text \<open>Every case of the switch of \<^verbatim>\<open>ReadValue\<close> but ARRAY; \<^verbatim>\<open>(bits + 7) / 8\<close> truncates.\<close>

definition read_scalar :: "column_type \<Rightarrow> row_input \<Rightarrow> gval \<times> row_input" where
  "read_scalar c r =
     (if Code c = SQLAllTypes then (VNil, r)
      else if Code c = SQLChar \<or> Code c = SQLVarchar then
        let (s, r) = ReadString r in (VString s, r)
      else if Code c = SQLTinyint \<or> Code c = SQLSmallint then
        let (x, r) = ReadShort r in (VInt64 (scast x), r)
      else if Code c = SQLInteger then let (x, r) = ReadInt r in (VInt64 (scast x), r)
      else if Code c = SQLBigint then let (x, r) = ReadLong r in (VInt64 x, r)
      else if Code c = SQLReal \<or> Code c = SQLFloat \<or> Code c = SQLDouble then
        let (x, r) = ReadDouble r in (VFloat64 x, r)
      else if Code c = SQLBoolean then let (b, r) = ReadBool r in (VBool b, r)
      else if Code c = SQLDecimal \<or> Code c = SQLNumeric then
        let ((u, s), r) = ReadDecimal r in (VString (formatDecimal u s), r)
      else if Code c = SQLDate then
        let (sec, r) = ReadLong r in (VTime (unix_time (sint sec) 0 0), r)
      else if Code c = SQLTime \<or> Code c = SQLTimeTZ then
        let (sec, r) = ReadInt r; (nanos, r) = ReadInt r;
            (loc, r) = (if Code c = SQLTimeTZ
                        then let (zone, r) = ReadInt r in (zoneLocation (sint zone), r) else (0, r))
        in (VTime (epoch_day_time (sint sec) (sint nanos) loc), r)
      else if Code c = SQLTimestamp \<or> Code c = SQLTimestampTZ then
        let (sec, r) = ReadLong r; (nanos, r) = ReadInt r;
            (loc, r) = (if Code c = SQLTimestampTZ
                        then let (zone, r) = ReadInt r in (zoneLocation (sint zone), r) else (0, r))
        in (VTime (unix_time (sint sec) (sint nanos) loc), r)
      else if Code c = SQLBinary \<or> Code c = SQLVarbinary then
        let (b, r) = ReadBytes r in (VBytes b, r)
      else if Code c = SQLGuid \<or> Code c = SQLOther then
        let (b, r) = ReadBytes r in (VBytes b, r)
      else if Code c = SQLBit \<or> Code c = SQLBitVarying then
        let (bits, r) = ReadInt r; n = (sint bits + 7) sdiv 8 in
        if in_err r \<noteq> None \<or> n < 0 then (VNil, r)
        else let (ok, r) = need (nat n) r in
             if \<not> ok then (VNil, r)
             else let (b, r) = take_slice (nat n) r in (VBytes b, r)
      else if Code c = SQLIntervalYear \<or> Code c = SQLIntervalMonth \<or> Code c = SQLIntervalYearToMonth then
        let (m, r) = ReadLong r in (VString (formatYearMonthInterval (Code c) m), r)
      else if Code c = SQLIntervalDay \<or> Code c = SQLIntervalHour \<or> Code c = SQLIntervalMinute \<or>
          Code c = SQLIntervalSecond \<or> Code c = SQLIntervalDayToHour \<or> Code c = SQLIntervalDayToMinute \<or>
          Code c = SQLIntervalDayToSecond \<or> Code c = SQLIntervalHourToMinute \<or>
          Code c = SQLIntervalHourToSecond \<or> Code c = SQLIntervalMinuteToSecond then
        let (s, r) = ReadLong r; (n, r) = ReadInt r
        in (VString (formatDaySecondInterval (Code c) s n), r)
      else if Code c = SQLClob \<or> Code c = SQLBlob then
        let (i, r) = ReadLong r in (VLobRef i (Code c = SQLClob), r)
      else (VNil, r\<lparr>in_err := Some (Errorf ''hsql/proto: unsupported read type code'')\<rparr>))"

text \<open>The loop of \<^verbatim>\<open>readArray\<close>: after an error the elements not reached stay nil.\<close>

fun read_elems :: "(row_input \<Rightarrow> gval \<times> row_input) \<Rightarrow> nat \<Rightarrow> row_input \<Rightarrow> gval list \<times> row_input" where
  "read_elems rd 0 r = ([], r)"
| "read_elems rd (Suc n) r =
     (let (x, r) = rd r in
      if in_err r \<noteq> None then (x # replicate n VNil, r)
      else let (xs, r) = read_elems rd n r in (x # xs, r))"

text \<open>
  An ARRAY's element type keeps no base type, so arrays nest at most twice and the recursion ends.
\<close>

function ReadValue :: "column_type \<Rightarrow> row_input \<Rightarrow> gval \<times> row_input" where
  "ReadValue c r =
     (let (present, r) = ReadU8 r in
      if present = 0 then (VNil, r)
      else if Code c = SQLArray then
        let (k, r) = ReadInt r; n = sint k in
        if in_err r \<noteq> None \<or> n < 0 then (VArrayValue [] 0, r)
        else let (vs, r) = read_elems (\<lambda>r. ReadValue (type_of_code (BaseCode c)) r) (nat n) r
             in (VArrayValue vs (BaseCode c), r)
      else read_scalar c r)"
  by pat_completeness auto
termination
  by (relation "measure (\<lambda>(c, r). if Code c = SQLArray then if BaseCode c = SQLArray then 2 else 1 else 0)")
    (auto simp: type_of_code_def)

declare ReadValue.simps [simp del]

end
