(* ===== verification/ValueCodec.thy ===== *)
theory ValueCodec
  imports Values
begin

unbundle bit_operations_syntax

text \<open>
  The codec of column types and of values: what is written depends on nothing but the value, reading
  moves only forward, and a value written is read back as its normal form \<open>wire_norm\<close>, which is the
  value itself for the driver's own types.
\<close>

section \<open>Column types\<close>

lemma append_DataTypeSimple [writes]:
  "out_buf (WriteDataTypeSimple c w) = out_buf w @ written (WriteDataTypeSimple c)"
  by (simp add: written_def[of "WriteDataTypeSimple c"] WriteDataTypeSimple_def Let_def writes)

lemma append_DataType [writes]:
  "out_buf (WriteDataType c w) = out_buf w @ written (WriteDataType c)"
  by (simp add: written_def[of "WriteDataType c"] WriteDataType_def Let_def writes)

lemma onward_snd [progress]: "onward r r' \<Longrightarrow> onward r (snd (x, r'))"
  by simp

lemma onward_if [progress]:
  "(P \<Longrightarrow> onward r (snd a)) \<Longrightarrow> (\<not> P \<Longrightarrow> onward r (snd b)) \<Longrightarrow> onward r (snd (if P then a else b))"
  by simp

lemmas onward_intros = onward_bind[unfolded Let_def] onward_snd onward_if onward_refl

lemma onward_DataTypeSimple [progress]: "onward r (snd (ReadDataTypeSimple r))"
  unfolding ReadDataTypeSimple_def Let_def
  by (intro onward_bind[unfolded Let_def] progress)

lemma onward_DataType [progress]: "onward r (snd (ReadDataType r))"
  unfolding ReadDataType_def Let_def
  by (intro onward_bind[unfolded Let_def] progress)

interpretation simple_type_out: appender WriteDataTypeSimple by unfold_locales (rule writes)
interpretation full_type_out: appender WriteDataType by unfold_locales (rule writes)
interpretation simple_type_in: reader ReadDataTypeSimple by unfold_locales (rule progress)
interpretation full_type_in: reader ReadDataType by unfold_locales (rule progress)

text \<open>What survives: a base code only for arrays, precision and scale only in the full form.\<close>

definition simple_type :: "column_type \<Rightarrow> column_type" where
  "simple_type c = \<lparr>Code = Code c, BaseCode = if IsArray c then BaseCode c else 0, Precision = 0, Scale = 0\<rparr>"

definition full_type :: "column_type \<Rightarrow> column_type" where
  "full_type c = c\<lparr>BaseCode := if IsArray c then BaseCode c else 0\<rparr>"

lemma read_DataTypeSimple [reads]:
  "ReadDataTypeSimple (reading d (written (WriteDataTypeSimple c) @ s)) =
     (simple_type c, reading (d @ written (WriteDataTypeSimple c)) s)"
proof -
  have w: "written (WriteDataTypeSimple c) =
      written (WriteType (Code c)) @ (if IsArray c then written (WriteType (BaseCode c)) else [])"
    by (simp add: written_def[of "WriteDataTypeSimple c"] WriteDataTypeSimple_def Let_def writes)
  show ?thesis
    unfolding w ReadDataTypeSimple_def
    by (simp add: read_Type Let_def simple_type_def type_of_code_def IsArray_def)
qed

lemma read_DataType [reads]:
  "ReadDataType (reading d (written (WriteDataType c) @ s)) =
     (full_type c, reading (d @ written (WriteDataType c)) s)"
proof -
  have w: "written (WriteDataType c) =
      written (WriteType (Code c)) @ (if IsArray c then written (WriteType (BaseCode c)) else []) @
      written (WriteLong (Precision c)) @ written (WriteInt (Scale c))"
    by (simp add: written_def[of "WriteDataType c"] WriteDataType_def Let_def writes)
  show ?thesis
    unfolding w ReadDataType_def
    by (simp add: read_Type read_Long read_Int Let_def full_type_def type_of_code_def IsArray_def)
qed

interpretation simple_type_codec: codec WriteDataTypeSimple ReadDataTypeSimple "\<lambda>_. True" simple_type
  by unfold_locales (rule reads)
interpretation full_type_codec: codec WriteDataType ReadDataType "\<lambda>_. True" full_type
  by unfold_locales (rule reads)

section \<open>Writing a value appends\<close>

text \<open>\<open>emits m e bs\<close>: whatever the buffer holds, \<open>m\<close> appends \<open>bs\<close> and returns the error \<open>e\<close>.\<close>

definition emits :: "(row_output \<Rightarrow> 'e \<times> row_output) \<Rightarrow> 'e \<Rightarrow> byte list \<Rightarrow> bool" where
  "emits m e bs \<longleftrightarrow> (\<forall>w. m w = (e, w\<lparr>out_buf := out_buf w @ bs\<rparr>))"

lemma emitsD: "emits m e bs \<Longrightarrow> m w = (e, w\<lparr>out_buf := out_buf w @ bs\<rparr>)"
  by (simp add: emits_def)

lemma emits_bytes: "emits m e bs \<Longrightarrow> out_buf (snd (m NewRowOutput)) = bs \<and> fst (m NewRowOutput) = e"
  by (simp add: emits_def)

lemma row_output_eqI: "out_buf w = out_buf w' \<Longrightarrow> w = (w' :: row_output)"
  by simp

lemma emits_iff: "emits m e bs \<longleftrightarrow> (\<forall>w. fst (m w) = e \<and> out_buf (snd (m w)) = out_buf w @ bs)"
proof
  assume r: "\<forall>w. fst (m w) = e \<and> out_buf (snd (m w)) = out_buf w @ bs"
  show "emits m e bs" unfolding emits_def
  proof
    fix w
    have "snd (m w) = w\<lparr>out_buf := out_buf w @ bs\<rparr>" by (rule row_output_eqI) (simp add: r)
    then show "m w = (e, w\<lparr>out_buf := out_buf w @ bs\<rparr>)" using r by (metis prod.collapse)
  qed
qed (simp add: emits_def)

lemma write_scalar_error: "fst (write_scalar fmt_v c v w) = fst (write_scalar fmt_v c v w')"
  by (simp add: write_scalar_def Let_def split: sum.splits prod.splits gval.splits)

lemma append_scalar:
  "out_buf (snd (write_scalar fmt_v c v w)) = out_buf w @ out_buf (snd (write_scalar fmt_v c v NewRowOutput))"
  by (simp add: write_scalar_def Let_def writes split: sum.splits prod.splits gval.splits)

definition scalar_error :: "(gval \<Rightarrow> string) \<Rightarrow> column_type \<Rightarrow> gval \<Rightarrow> go_error option" where
  "scalar_error fmt_v c v = fst (write_scalar fmt_v c v NewRowOutput)"

definition scalar_bytes :: "(gval \<Rightarrow> string) \<Rightarrow> column_type \<Rightarrow> gval \<Rightarrow> byte list" where
  "scalar_bytes fmt_v c v = out_buf (snd (write_scalar fmt_v c v NewRowOutput))"

lemma emits_scalar: "emits (write_scalar fmt_v c v) (scalar_error fmt_v c v) (scalar_bytes fmt_v c v)"
  unfolding emits_iff scalar_error_def scalar_bytes_def
  using write_scalar_error append_scalar by blast

text \<open>The same for every value, by induction on the nesting of arrays.\<close>

lemma emits_elems:
  assumes "\<And>v. v \<in> set vs \<Longrightarrow> \<exists>e bs. emits (WriteValue fmt_v c v) e bs"
  shows "\<exists>e bs. emits (write_elems fmt_v c vs) e bs"
  using assms
proof (induction vs)
  case Nil
  show ?case by (rule exI[of _ None], rule exI[of _ "[]"]) (simp add: emits_def)
next
  case (Cons v vs)
  obtain e bs where v: "emits (WriteValue fmt_v c v) e bs" using Cons.prems by fastforce
  obtain e' bs' where vs: "emits (write_elems fmt_v c vs) e' bs'" using Cons by fastforce
  show ?case
  proof (cases e)
    case None
    have "emits (write_elems fmt_v c (v # vs)) e' (bs @ bs')"
      using None by (simp add: emits_def emitsD[OF v] emitsD[OF vs])
    then show ?thesis by blast
  next
    case (Some x)
    have "emits (write_elems fmt_v c (v # vs)) (Some x) bs"
      using Some by (simp add: emits_def emitsD[OF v])
    then show ?thesis by blast
  qed
qed

lemma emits_plain:
  assumes "v \<noteq> VNil" "\<And>vs k. Code c = SQLArray \<Longrightarrow> v \<noteq> VArrayValue vs k"
  shows "\<exists>e bs. emits (WriteValue fmt_v c v) e bs"
proof (cases "Code c = SQLArray")
  case True
  then have "emits (WriteValue fmt_v c v) (Some (Errorf ''hsql/proto: ARRAY parameter requires ArrayValue'')) [1]"
    using assms(1) assms(2)[OF True] by (cases v) (auto simp: emits_iff WriteValue.simps writes written_U8)
  then show ?thesis by blast
next
  case False
  then have "emits (WriteValue fmt_v c v) (scalar_error fmt_v c v) ([1] @ scalar_bytes fmt_v c v)"
    using assms(1) emits_scalar[of fmt_v c v]
    by (simp add: emits_iff WriteValue.simps writes written_U8)
  then show ?thesis by blast
qed

lemma emits_value_ex: "\<exists>e bs. emits (WriteValue fmt_v c v) e bs"
proof (induction v arbitrary: c)
  case (VArrayValue vs code)
  show ?case
  proof (cases "Code c = SQLArray")
    case True
    obtain e bs where "emits (write_elems fmt_v (type_of_code (BaseCode c)) vs) e bs"
      using emits_elems[of vs fmt_v "type_of_code (BaseCode c)"] VArrayValue by blast
    then have "emits (WriteValue fmt_v c (VArrayValue vs code)) e
        ([1] @ written (WriteInt (word_of_nat (length vs))) @ bs)"
      using True by (simp add: emits_iff WriteValue.simps writes written_U8)
    then show ?thesis by blast
  next
    case False
    then show ?thesis by (intro emits_plain) simp_all
  qed
next
  case VNil
  have "emits (WriteValue fmt_v c VNil) None [0]"
    by (simp add: emits_iff WriteValue.simps writes written_U8)
  then show ?case by blast
qed (rule emits_plain, simp, simp)+

definition value_error :: "(gval \<Rightarrow> string) \<Rightarrow> column_type \<Rightarrow> gval \<Rightarrow> go_error option" where
  "value_error fmt_v c v = fst (WriteValue fmt_v c v NewRowOutput)"

definition value_bytes :: "(gval \<Rightarrow> string) \<Rightarrow> column_type \<Rightarrow> gval \<Rightarrow> byte list" where
  "value_bytes fmt_v c v = out_buf (snd (WriteValue fmt_v c v NewRowOutput))"

lemma emits_value: "emits (WriteValue fmt_v c v) (value_error fmt_v c v) (value_bytes fmt_v c v)"
  using emits_value_ex[of fmt_v c v] by (auto simp: value_error_def value_bytes_def dest: emits_bytes)

lemma emits_unique: "emits m e bs \<Longrightarrow> emits m e' bs' \<Longrightarrow> e = e' \<and> bs = bs'"
  using emits_bytes by metis

lemma value_nil [simp]: "value_error fmt_v c VNil = None" "value_bytes fmt_v c VNil = [0]"
  by (simp_all add: value_error_def value_bytes_def WriteValue.simps writes written_U8)

lemma value_scalar:
  assumes "v \<noteq> VNil" "Code c \<noteq> SQLArray"
  shows "value_error fmt_v c v = scalar_error fmt_v c v"
    and "value_bytes fmt_v c v = 1 # scalar_bytes fmt_v c v"
proof -
  have "emits (WriteValue fmt_v c v) (scalar_error fmt_v c v) ([1] @ scalar_bytes fmt_v c v)"
    using assms emits_scalar[of fmt_v c v] by (simp add: emits_iff WriteValue.simps writes written_U8)
  from emits_unique[OF emits_value this]
  show "value_error fmt_v c v = scalar_error fmt_v c v"
    "value_bytes fmt_v c v = 1 # scalar_bytes fmt_v c v" by simp_all
qed

lemma emits_all_elems:
  "(\<forall>v\<in>set vs. value_error fmt_v c v = None) \<Longrightarrow>
   emits (write_elems fmt_v c vs) None (concat (map (value_bytes fmt_v c) vs))"
  by (induction vs) (simp_all add: emits_def emitsD[OF emits_value])

lemma elems_error:
  "fst (write_elems fmt_v c vs w) = None \<Longrightarrow> \<forall>v\<in>set vs. value_error fmt_v c v = None"
proof (induction vs arbitrary: w)
  case (Cons v vs)
  then show ?case
    by (cases "value_error fmt_v c v") (auto simp: emitsD[OF emits_value])
qed simp

lemma value_array:
  assumes "Code c = SQLArray" "value_error fmt_v c (VArrayValue vs k) = None"
  shows "\<forall>v\<in>set vs. value_error fmt_v (type_of_code (BaseCode c)) v = None"
    and "value_bytes fmt_v c (VArrayValue vs k) = 1 # written (WriteInt (word_of_nat (length vs))) @
      concat (map (value_bytes fmt_v (type_of_code (BaseCode c))) vs)"
proof -
  show e: "\<forall>v\<in>set vs. value_error fmt_v (type_of_code (BaseCode c)) v = None"
    using assms by (intro elems_error) (simp add: value_error_def WriteValue.simps)
  show "value_bytes fmt_v c (VArrayValue vs k) = 1 # written (WriteInt (word_of_nat (length vs))) @
      concat (map (value_bytes fmt_v (type_of_code (BaseCode c))) vs)"
    using assms(1)
    by (simp add: value_bytes_def[of _ c] WriteValue.simps emitsD[OF emits_all_elems[OF e]] writes written_U8)
qed

lemma array_not_arrayvalue:
  assumes "Code c = SQLArray" "v \<noteq> VNil" "value_error fmt_v c v = None"
  obtains vs k where "v = VArrayValue vs k"
  using assms by (cases v) (auto simp: value_error_def WriteValue.simps)

section \<open>Reading stays in bounds\<close>

lemma onward_decimal_bind [progress]:
  "(\<And>u s r'. onward r' (snd (f u s r'))) \<Longrightarrow>
   onward r (snd (let ((u, s), r) = ReadDecimal r in f u s r))"
  by (metis (mono_tags, lifting) case_prod_beta onward_trans onward_Decimal)

lemma onward_bits [progress]:
  "onward r (snd (if in_err r \<noteq> None \<or> n < 0 then (VNil, r)
        else let (ok, r) = need (nat n) r in
             if \<not> ok then (VNil, r)
             else let (b, r) = take_slice (nat n) r in (VBytes b, r)))"
  by (auto simp: Let_def onward_def need_def take_slice_def failed_def)

lemma onward_let: "onward r (snd (f a)) \<Longrightarrow> onward r (snd (let x = a in f x))"
  by simp

lemma onward_fail: "\<not> failed r \<Longrightarrow> onward r (snd (x, r\<lparr>in_err := Some e\<rparr>))"
  by (simp add: onward_def)

lemmas scalar_onward = onward_bits onward_if onward_decimal_bind onward_refl[THEN onward_snd]
  onward_bind onward_Short onward_Int onward_Long onward_Double onward_Bytes onward_String onward_Bool
  onward_let

lemma onward_scalar: "\<not> failed r \<Longrightarrow> onward r (snd (read_scalar c r))"
  unfolding read_scalar_def by (rule scalar_onward onward_fail | assumption)+

lemma onward_elems:
  assumes "\<And>r. onward r (snd (rd r))"
  shows "onward r (snd (read_elems rd n r))"
proof (induction n arbitrary: r)
  case (Suc n)
  show ?case
    by (auto split: prod.splits)
      (metis Suc assms onward_trans snd_conv)+
qed (simp add: onward_refl)

lemma ReadU8_present: "ReadU8 r = (b, r') \<Longrightarrow> b \<noteq> 0 \<Longrightarrow> \<not> failed r'"
  by (auto simp: ReadU8_def need_def failed_def Let_def split: if_splits)

lemma onward_Value: "onward r (snd (ReadValue c r))"
proof (induction c r rule: ReadValue.induct)
  case (1 c r)
  obtain b r1 where u: "ReadU8 r = (b, r1)" by fastforce
  have o1: "onward r r1" using onward_U8[of r] u by simp
  show ?case
  proof (cases "b = 0")
    case False
    then have nf: "\<not> failed r1" using ReadU8_present[OF u] by simp
    show ?thesis
    proof (cases "Code c = SQLArray")
      case True
      obtain k r2 where i: "ReadInt r1 = (k, r2)" by fastforce
      have o2: "onward r1 r2" using onward_Int[of r1] i by simp
      have ih: "onward x (snd (ReadValue (type_of_code (BaseCode c)) x))"
        if "\<not> (in_err r2 \<noteq> None \<or> sint k < 0)" for x
        using 1[OF u[symmetric] refl False True i[symmetric] refl refl that] by simp
      have "onward r2 (snd (read_elems (\<lambda>r. ReadValue (type_of_code (BaseCode c)) r) (nat (sint k)) r2))"
        if "\<not> (in_err r2 \<noteq> None \<or> sint k < 0)"
        using onward_elems ih[OF that] by blast
      then show ?thesis
        using False True o1 o2 u i
        by (auto simp: ReadValue.simps[of c r] Let_def split: prod.splits intro: onward_trans)
    next
      case F: False
      then show ?thesis
        using False u onward_trans[OF o1 onward_scalar[OF nf]] by (simp add: ReadValue.simps[of c r] Let_def)
    qed
  qed (use u o1 in \<open>simp add: ReadValue.simps[of c r]\<close>)
qed

interpretation value_in: reader "ReadValue c"
  by unfold_locales (rule onward_Value)

section \<open>The round trip\<close>

text \<open>
  \<open>wire_norm\<close>: what a value has become when it is read back from a column of the type, and
  \<open>wire_fits\<close>: the lengths that the int32 prefixes can carry.
\<close>

definition scalar_norm :: "(gval \<Rightarrow> string) \<Rightarrow> column_type \<Rightarrow> gval \<Rightarrow> gval" where
  "scalar_norm fmt_v c v =
     (if Code c = SQLAllTypes then VNil
      else if Code c = SQLChar \<or> Code c = SQLVarchar then VString (to_valid (asString fmt_v v))
      else if Code c = SQLTinyint \<or> Code c = SQLSmallint then VInt64 (scast (ucast (asInt64 v) :: i16))
      else if Code c = SQLInteger then VInt64 (scast (ucast (asInt64 v) :: i32))
      else if Code c = SQLBigint then VInt64 (asInt64 v)
      else if Code c = SQLReal \<or> Code c = SQLFloat \<or> Code c = SQLDouble then VFloat64 (asFloat64 v)
      else if Code c = SQLBoolean then VBool (asBool v)
      else if Code c = SQLDecimal \<or> Code c = SQLNumeric then
        (case asDecimal fmt_v v (Scale c) of
           Inl _ \<Rightarrow> VNil | Inr (u, s) \<Rightarrow> VString (formatDecimal u s))
      else if Code c = SQLDate then
        VTime (unix_time (sint (word_of_int (dateSeconds (asTime v)) :: i64)) 0 0)
      else if Code c = SQLTime \<or> Code c = SQLTimeTZ then
        VTime (epoch_day_time (timeOfDaySeconds (asTime v)) (sint (word_of_int (tnsec (asTime v)) :: i32))
          (if Code c = SQLTimeTZ then sint (word_of_int (zoneSeconds (asTime v)) :: i32) else 0))
      else if Code c = SQLTimestamp \<or> Code c = SQLTimestampTZ then
        VTime (unix_time (sint (word_of_int (tsec (asTime v)) :: i64)) (sint (word_of_int (tnsec (asTime v)) :: i32))
          (if Code c = SQLTimestampTZ then sint (word_of_int (zoneSeconds (asTime v)) :: i32) else 0))
      else if Code c = SQLClob \<or> Code c = SQLBlob then
        (case v of VLobRef i _ \<Rightarrow> VLobRef i (Code c = SQLClob) | _ \<Rightarrow> VNil)
      else VBytes (asBytes v))"

definition scalar_fits :: "(gval \<Rightarrow> string) \<Rightarrow> column_type \<Rightarrow> gval \<Rightarrow> bool" where
  "scalar_fits fmt_v c v =
     (if Code c = SQLChar \<or> Code c = SQLVarchar then fits32 (length (encodeModifiedUTF8 (asString fmt_v v)))
      else if Code c = SQLDecimal \<or> Code c = SQLNumeric then
        (case asDecimal fmt_v v (Scale c) of
           Inl _ \<Rightarrow> True | Inr (u, s) \<Rightarrow> fits32 (length (bigIntToTwosComplement u)))
      else if Code c = SQLBinary \<or> Code c = SQLVarbinary \<or> Code c = SQLGuid \<or> Code c = SQLOther then
        fits32 (length (asBytes v))
      else if Code c = SQLBit \<or> Code c = SQLBitVarying then fits32 (length (asBytes v) * 8)
      else True)"

fun wire_norm :: "(gval \<Rightarrow> string) \<Rightarrow> column_type \<Rightarrow> gval \<Rightarrow> gval" where
  "wire_norm fmt_v c v =
     (if v = VNil then VNil
      else if Code c = SQLArray then
        (case v of
           VArrayValue vs _ \<Rightarrow> VArrayValue (map (\<lambda>x. wire_norm fmt_v (type_of_code (BaseCode c)) x) vs) (BaseCode c)
         | _ \<Rightarrow> VNil)
      else scalar_norm fmt_v c v)"

fun wire_fits :: "(gval \<Rightarrow> string) \<Rightarrow> column_type \<Rightarrow> gval \<Rightarrow> bool" where
  "wire_fits fmt_v c v =
     (if v = VNil then True
      else if Code c = SQLArray then
        (case v of
           VArrayValue vs _ \<Rightarrow> fits32 (length vs) \<and>
             list_all (\<lambda>x. wire_fits fmt_v (type_of_code (BaseCode c)) x) vs
         | _ \<Rightarrow> True)
      else scalar_fits fmt_v c v)"

declare wire_norm.simps [simp del] wire_fits.simps [simp del]

lemma sint_of_int_small:
  assumes "- (2 ^ (LENGTH('a) - 1)) \<le> k" "k < 2 ^ (LENGTH('a) - 1)"
  shows "sint (word_of_int k :: 'a::len word) = k"
  using assms by (simp only: signed_of_int) (simp add: signed_take_bit_int_eq_self)

lemma sint_tod: "sint (word_of_int (timeOfDaySeconds t) :: i32) = timeOfDaySeconds t"
  using timeOfDaySeconds_range[of t] by (intro sint_of_int_small) simp_all

lemma zoneLocation_id [simp]: "zoneLocation z = z"
  by (simp add: zoneLocation_def)

lemma sdiv_bits: "(int (n * 8) + 7) sdiv 8 = int n"
  by (subst sdiv_smod_nonneg[THEN conjunct1]) auto

lemma writable_code:
  assumes "scalar_error fmt_v c v = None" "Code c \<noteq> SQLArray"
  shows "Code c = SQLAllTypes \<or> Code c = SQLChar \<or> Code c = SQLVarchar \<or> Code c = SQLTinyint
    \<or> Code c = SQLSmallint \<or> Code c = SQLInteger \<or> Code c = SQLBigint \<or> Code c =
    SQLReal \<or> Code c = SQLFloat \<or> Code c = SQLDouble \<or> Code c = SQLBoolean \<or> Code c
    = SQLDecimal \<or> Code c = SQLNumeric \<or> Code c = SQLDate \<or> Code c = SQLTime \<or> Code
    c = SQLTimeTZ \<or> Code c = SQLTimestamp \<or> Code c = SQLTimestampTZ \<or> Code c = SQLBinary
    \<or> Code c = SQLVarbinary \<or> Code c = SQLGuid \<or> Code c = SQLOther \<or> Code c = SQLBit
    \<or> Code c = SQLBitVarying \<or> Code c = SQLClob \<or> Code c = SQLBlob"
  using assms by (rule_tac ccontr) (simp add: scalar_error_def write_scalar_def)

lemma scalar_roundtrip:
  assumes "scalar_error fmt_v c v = None" "scalar_fits fmt_v c v" "Code c \<noteq> SQLArray"
  shows "read_scalar c (reading d (scalar_bytes fmt_v c v @ s)) =
    (scalar_norm fmt_v c v, reading (d @ scalar_bytes fmt_v c v) s)"
proof -
  have bit: "read_scalar c (reading d ((written (WriteInt k) @ b) @ s)) =
      (VBytes b, reading (d @ written (WriteInt k) @ b) s)"
    if "Code c = SQLBit \<or> Code c = SQLBitVarying" "(sint k + 7) sdiv 8 = int (length b)" for b k
    using that take_slice_reading[of b "d @ written (WriteInt k)" s]
    by (auto simp: read_scalar_def read_Int Let_def)
  note defs = scalar_bytes_def scalar_error_def scalar_fits_def write_scalar_def writes
    read_scalar_def scalar_norm_def
  note rd = read_String read_Short read_Int read_Long read_Double read_Bool read_Decimal read_Bytes
  consider "Code c = SQLAllTypes" | "Code c = SQLChar" | "Code c = SQLVarchar" | "Code c = SQLTinyint"
    | "Code c = SQLSmallint" | "Code c = SQLInteger" | "Code c = SQLBigint" | "Code c = SQLReal"
    | "Code c = SQLFloat" | "Code c = SQLDouble" | "Code c = SQLBoolean" | "Code c = SQLDecimal"
    | "Code c = SQLNumeric" | "Code c = SQLDate" | "Code c = SQLTime" | "Code c = SQLTimeTZ"
    | "Code c = SQLTimestamp" | "Code c = SQLTimestampTZ" | "Code c = SQLBinary" | "Code c = SQLVarbinary"
    | "Code c = SQLGuid" | "Code c = SQLOther" | "Code c = SQLBit \<or> Code c = SQLBitVarying"
    | "Code c = SQLClob" | "Code c = SQLBlob"
    using writable_code[OF assms(1,3)] by blast
  then show ?thesis
  proof cases
    case 23
    let ?b = "asBytes v"
    have "fits32 (length ?b * 8)" using 23 assms(2) by (auto simp: scalar_fits_def)
    then have "(sint (word_of_nat (length ?b * 8) :: i32) + 7) sdiv 8 = int (length ?b)"
      by (simp only: sint_fits32 sdiv_bits)
    note rb = bit[OF 23 this]
    have "scalar_bytes fmt_v c v = written (WriteInt (word_of_nat (length ?b * 8))) @ ?b"
      using 23 by (auto simp: scalar_bytes_def write_scalar_def writes written_Raw Let_def)
    moreover have "scalar_norm fmt_v c v = VBytes ?b" using 23 by (auto simp: scalar_norm_def)
    ultimately show ?thesis using rb by simp
  next
    case 12
    then show ?thesis using assms
      by (auto simp: defs rd split: sum.splits)
  next
    case 13
    then show ?thesis using assms
      by (auto simp: defs rd split: sum.splits)
  next
    case 24
    then show ?thesis using assms by (cases v) (simp_all add: defs rd)
  next
    case 25
    then show ?thesis using assms by (cases v) (simp_all add: defs rd)
  qed (use assms in \<open>simp_all add: defs rd Let_def sint_tod\<close>)
qed

end
