(* ===== verification/NativeValues.thy ===== *)
theory NativeValues
  imports ValueCodec
begin

text \<open>
  The round trip of \<^verbatim>\<open>WriteValue\<close> and \<^verbatim>\<open>ReadValue\<close> for every column type, and the values of the
  driver's own types that come back unchanged.
\<close>

section \<open>Arrays and values\<close>
lemma ReadU8_reading: "ReadU8 (reading d (b # s)) = (b, reading (d @ [b]) s)"
  using read_U8[of d b s] by (simp add: written_U8)

lemma read_elems_written:
  assumes "\<And>v d s. v \<in> set vs \<Longrightarrow> rd (reading d (f v @ s)) = (g v, reading (d @ f v) s)"
  shows "read_elems rd (length vs) (reading d (concat (map f vs) @ s)) =
    (map g vs, reading (d @ concat (map f vs)) s)"
  using assms
proof (induction vs arbitrary: d)
  case (Cons v vs)
  have "rd (reading d (f v @ concat (map f vs) @ s)) = (g v, reading (d @ f v) (concat (map f vs) @ s))"
    using Cons.prems by simp
  moreover have "read_elems rd (length vs) (reading (d @ f v) (concat (map f vs) @ s)) =
    (map g vs, reading ((d @ f v) @ concat (map f vs)) s)"
    using Cons.prems by (intro Cons.IH) simp
  ultimately show ?case by simp
qed simp

lemma read_Value:
  assumes "value_error fmt_v c v = None" "wire_fits fmt_v c v"
  shows "ReadValue c (reading d (value_bytes fmt_v c v @ s)) =
    (wire_norm fmt_v c v, reading (d @ value_bytes fmt_v c v) s)"
  using assms
proof (induction v arbitrary: c d s rule: measure_induct_rule[of size])
  case (less v)
  show ?case
  proof (cases "v = VNil")
    case True
    then show ?thesis by (simp add: ReadValue.simps ReadU8_reading wire_norm.simps)
  next
    case nn: False
    show ?thesis
    proof (cases "Code c = SQLArray")
      case True
      obtain vs k where v: "v = VArrayValue vs k"
        using array_not_arrayvalue[OF True nn less.prems(1)] .
      let ?c = "type_of_code (BaseCode c)"
      note va = value_array[OF True less.prems(1)[unfolded v]]
      have f: "fits32 (length vs)" "\<And>x. x \<in> set vs \<Longrightarrow> wire_fits fmt_v ?c x"
        using less.prems(2) True v by (auto simp: wire_fits.simps[of fmt_v c] list_all_iff)
      have rd: "ReadValue ?c (reading d (value_bytes fmt_v ?c x @ s)) =
        (wire_norm fmt_v ?c x, reading (d @ value_bytes fmt_v ?c x) s)" if "x \<in> set vs" for x d s
        using va(1) f(2) that size_list_estimation'[OF that, of "size x" size] v by (intro less.IH) auto
      show ?thesis
        using True f(1) read_elems_written[where vs = vs and s = s, OF rd, where d = "d @ [1] @ written (WriteInt (word_of_nat (length vs)))"]
        by (simp add: v va(2) ReadValue.simps[of c] ReadU8_reading read_Int sint_fits32 Let_def
            wire_norm.simps[of fmt_v c])
    next
      case False
      note vs = value_scalar[OF nn False]
      have "scalar_error fmt_v c v = None" "scalar_fits fmt_v c v"
        using less.prems nn False vs by (auto simp: wire_fits.simps)
      note sr = scalar_roundtrip[OF this False, of "d @ [1]" s]
      show ?thesis
        using nn False sr by (simp add: vs(2) ReadValue.simps ReadU8_reading wire_norm.simps)
    qed
  qed
qed

text \<open>C35: a value that is written without error and whose lengths fit the prefixes is read back in
  its normal form; exactly its bytes are consumed, and no error is set.\<close>

theorem value_roundtrip:
  assumes "WriteValue fmt_v c v NewRowOutput = (None, w)" "wire_fits fmt_v c v"
  shows "ReadValue c (NewRowInput (out_buf w @ s)) =
    (wire_norm fmt_v c v, \<lparr>in_buf = out_buf w @ s, in_pos = length (out_buf w), in_err = None\<rparr>)"
proof -
  have "value_error fmt_v c v = None" "value_bytes fmt_v c v = out_buf w"
    using assms(1) by (simp_all add: value_error_def value_bytes_def)
  then show ?thesis using read_Value[of fmt_v c v "[]" s] assms(2)
    by (simp add: reading_New reading_def)
qed

theorem value_roundtrip_witness:
  "ReadValue (type_of_code SQLSmallint) (NewRowInput ([1, 0, 5] @ [7])) =
    (VInt64 5, \<lparr>in_buf = [1, 0, 5, 7], in_pos = 3, in_err = None\<rparr>)"
proof -
  let ?f = "\<lambda>_. ''''" and ?c = "type_of_code SQLSmallint" and ?v = "VInt64 0x10005"
  have w: "WriteValue ?f ?c ?v NewRowOutput = (None, \<lparr>out_buf = [1, 0, 5]\<rparr>)"
    by (simp add: WriteValue.simps write_scalar_def type_of_code_def WriteU8_def WriteShort_def
        NewRowOutput_def asInt64_def)
  have f: "wire_fits ?f ?c ?v" by (simp add: wire_fits.simps type_of_code_def scalar_fits_def)
  have n: "wire_norm ?f ?c ?v = VInt64 5"
    by (simp add: wire_norm.simps type_of_code_def scalar_norm_def asInt64_def)
  show ?thesis using value_roundtrip[OF w f, of "[7]"] n by simp
qed

section \<open>The driver's own types come back unchanged\<close>

text \<open>\<open>native c v\<close>: \<open>v\<close> has the Go type that the driver delivers for a column of type \<open>c\<close>, and is in its
  range.\<close>

definition in_int64 :: "int \<Rightarrow> bool" where
  "in_int64 x \<longleftrightarrow> - (2 ^ 63) \<le> x \<and> x < 2 ^ 63"

definition in_int32 :: "int \<Rightarrow> bool" where
  "in_int32 x \<longleftrightarrow> - (2 ^ 31) \<le> x \<and> x < 2 ^ 31"

definition native_scalar :: "column_type \<Rightarrow> gval \<Rightarrow> bool" where
  "native_scalar c v = (case v of
      VInt64 x \<Rightarrow>
        (Code c = SQLTinyint \<or> Code c = SQLSmallint) \<and> - (2 ^ 15) \<le> sint x \<and> sint x < 2 ^ 15 \<or>
        Code c = SQLInteger \<and> in_int32 (sint x) \<or> Code c = SQLBigint
    | VFloat64 x \<Rightarrow> Code c = SQLReal \<or> Code c = SQLFloat \<or> Code c = SQLDouble
    | VBool b \<Rightarrow> Code c = SQLBoolean
    | VString s \<Rightarrow>
        (Code c = SQLChar \<or> Code c = SQLVarchar) \<and> valid_utf8 s \<and> fits32 (length (encodeModifiedUTF8 s)) \<or>
        (Code c = SQLDecimal \<or> Code c = SQLNumeric) \<and>
          (case parseDecimal s (Scale c) of
             Inr (u, t) \<Rightarrow> formatDecimal u t = s \<and> fits32 (length (bigIntToTwosComplement u))
           | Inl _ \<Rightarrow> False)
    | VBytes b \<Rightarrow>
        (Code c = SQLBinary \<or> Code c = SQLVarbinary \<or> Code c = SQLGuid \<or> Code c = SQLOther) \<and> fits32 (length b) \<or>
        (Code c = SQLBit \<or> Code c = SQLBitVarying) \<and> fits32 (length b * 8)
    | VTime t \<Rightarrow> valid_time t \<and> in_int64 (tsec t) \<and> in_int32 (toff t) \<and>
        (Code c = SQLDate \<and> tsec t mod 86400 = 0 \<and> tnsec t = 0 \<and> toff t = 0 \<or>
         Code c = SQLTime \<and> 0 \<le> tsec t \<and> tsec t < 86400 \<and> toff t = 0 \<or>
         Code c = SQLTimeTZ \<and> 0 \<le> tsec t + toff t \<and> tsec t + toff t < 86400 \<or>
         Code c = SQLTimestamp \<and> toff t = 0 \<or> Code c = SQLTimestampTZ)
    | VLobRef i is_clob \<Rightarrow> Code c = SQLClob \<and> is_clob \<or> Code c = SQLBlob \<and> \<not> is_clob
    | _ \<Rightarrow> False)"

fun native :: "column_type \<Rightarrow> gval \<Rightarrow> bool" where
  "native c v =
     (v = VNil \<or>
      (if Code c = SQLArray then
         (case v of
            VArrayValue vs k \<Rightarrow> k = BaseCode c \<and> fits32 (length vs) \<and>
              list_all (\<lambda>x. native (type_of_code (BaseCode c)) x) vs
          | _ \<Rightarrow> False)
       else native_scalar c v))"

declare native.simps [simp del]

lemma scast_ucast_small:
  assumes "- (2 ^ (LENGTH('a) - 1)) \<le> sint x" "sint x < 2 ^ (LENGTH('a) - 1)" "LENGTH('a) \<le> 64"
  shows "scast (ucast (x :: i64) :: 'a::len word) = x"
proof -
  have "ucast x = (word_of_int (sint x) :: 'a word)"
    using assms(3) by (intro bit_word_eqI) (auto simp: bit_simps)
  then have "sint (ucast x :: 'a word) = sint x"
    using sint_of_int_small[OF assms(1,2)] by (simp only:)
  then show ?thesis by (simp add: scast_eq)
qed

lemma native_time_words:
  "in_int64 x \<Longrightarrow> sint (word_of_int x :: i64) = x" "in_int32 y \<Longrightarrow> sint (word_of_int y :: i32) = y"
  using sint_of_int_small[where 'a=64, of x] sint_of_int_small[where 'a=32, of y]
  by (simp_all add: in_int64_def in_int32_def)

lemma valid_time_nanos: "valid_time t \<Longrightarrow> in_int32 (tnsec t)"
  by (simp add: valid_time_def in_int32_def)

lemma native_scalar_ok:
  assumes "native_scalar c v"
  shows "scalar_error fmt_v c v = None \<and> scalar_fits fmt_v c v \<and> scalar_norm fmt_v c v = v"
proof (cases v)
  case (VTime t)
  have n: "sint (word_of_int (tnsec t) :: i32) = tnsec t" "sint (word_of_int (tsec t) :: i64) = tsec t"
    "sint (word_of_int (toff t) :: i32) = toff t"
    using assms VTime valid_time_nanos native_time_words by (simp_all add: native_scalar_def)
  have id: "unix_time (tsec t) (tnsec t) (toff t) = t"
    using assms VTime by (intro unix_time_id) (simp add: native_scalar_def)
  note defs = scalar_error_def write_scalar_def scalar_fits_def scalar_norm_def asTime_def zoneSeconds_def
  consider "Code c = SQLDate" "tsec t mod 86400 = 0" "tnsec t = 0" "toff t = 0"
    | "Code c = SQLTime" "0 \<le> tsec t" "tsec t < 86400" "toff t = 0"
    | "Code c = SQLTimeTZ" "0 \<le> tsec t + toff t" "tsec t + toff t < 86400"
    | "Code c = SQLTimestamp" "toff t = 0" | "Code c = SQLTimestampTZ"
    using assms VTime by (auto simp: native_scalar_def)
  then show ?thesis
  proof cases
    case 1
    then have "dateSeconds t = tsec t" by (auto simp: dateSeconds_def)
    then show ?thesis using 1 VTime n(2) id by (simp add: defs)
  next
    case 2
    then have "timeOfDaySeconds t = tsec t" by (simp add: timeOfDaySeconds_mod)
    then show ?thesis using 2 VTime n(1) id by (simp add: defs epoch_day_time_def Let_def)
  next
    case 3
    then have "timeOfDaySeconds t = tsec t + toff t" by (simp add: timeOfDaySeconds_mod)
    then show ?thesis using 3 VTime n id by (simp add: defs epoch_day_time_def Let_def)
  next
    case 4
    then show ?thesis using VTime n id by (simp add: defs Let_def)
  next
    case 5
    then show ?thesis using VTime n id by (simp add: defs Let_def)
  qed
next
  case (VInt64 x)
  have "scast (ucast x :: i16) = x" if "- (2 ^ 15) \<le> sint x" "sint x < 2 ^ 15"
    using that by (intro scast_ucast_small) simp_all
  moreover have "scast (ucast x :: i32) = x" if "in_int32 (sint x)"
    using that by (intro scast_ucast_small) (simp_all add: in_int32_def)
  ultimately show ?thesis
    using assms VInt64
    by (auto simp: native_scalar_def scalar_error_def write_scalar_def scalar_fits_def scalar_norm_def asInt64_def)
next
  case (VString x)
  then show ?thesis using assms
    by (auto simp: native_scalar_def scalar_error_def write_scalar_def scalar_fits_def scalar_norm_def
        asString_def asDecimal_def valid_utf8_def split: sum.splits)
qed (use assms in \<open>auto simp: native_scalar_def scalar_error_def write_scalar_def scalar_fits_def
      scalar_norm_def asFloat64_def asBool_def asBytes_def\<close>)

lemma native_ok:
  assumes "native c v"
  shows "value_error fmt_v c v = None \<and> wire_fits fmt_v c v \<and> wire_norm fmt_v c v = v"
  using assms
proof (induction v arbitrary: c rule: measure_induct_rule[of size])
  case (less v)
  show ?case
  proof (cases "v = VNil")
    case True
    then show ?thesis by (simp add: wire_fits.simps wire_norm.simps)
  next
    case nn: False
    show ?thesis
    proof (cases "Code c = SQLArray")
      case True
      obtain vs where v: "v = VArrayValue vs (BaseCode c)" "fits32 (length vs)"
        and el: "\<And>x. x \<in> set vs \<Longrightarrow> native (type_of_code (BaseCode c)) x"
        using less.prems nn True by (cases v) (auto simp: native.simps[of c] list_all_iff)
      let ?c = "type_of_code (BaseCode c)"
      have ih: "value_error fmt_v ?c x = None \<and> wire_fits fmt_v ?c x \<and> wire_norm fmt_v ?c x = x"
        if "x \<in> set vs" for x
        using el[OF that] size_list_estimation'[OF that, of "size x" size] v(1) by (intro less.IH) auto
      have "map (wire_norm fmt_v ?c) vs = vs" using ih by (simp add: map_idI)
      moreover have "value_error fmt_v c v = None"
        using True ih v(1) emits_all_elems[of vs fmt_v ?c]
        by (simp add: value_error_def[of _ c] WriteValue.simps emitsD Let_def)
      ultimately show ?thesis
        using True ih v by (simp add: wire_fits.simps[of _ c] wire_norm.simps[of _ c] list_all_iff)
    next
      case False
      then have "native_scalar c v" using less.prems nn by (simp add: native.simps)
      from native_scalar_ok[OF this, of fmt_v] show ?thesis
        using nn False value_scalar(1)[OF nn False] by (simp add: wire_fits.simps wire_norm.simps)
    qed
  qed
qed

text \<open>C34: a value of the Go type the driver delivers for the column type is written without error
  and read back unchanged, arrays with their elements included.\<close>

theorem native_roundtrip:
  assumes "native c v"
  shows "\<exists>w. WriteValue fmt_v c v NewRowOutput = (None, w) \<and>
    ReadValue c (NewRowInput (out_buf w @ s)) =
      (v, \<lparr>in_buf = out_buf w @ s, in_pos = length (out_buf w), in_err = None\<rparr>)"
proof -
  note ok = native_ok[OF assms, of fmt_v]
  obtain w where w: "WriteValue fmt_v c v NewRowOutput = (None, w)"
    using ok by (metis prod.collapse value_error_def)
  then have "value_bytes fmt_v c v = out_buf w" by (simp add: value_bytes_def)
  then show ?thesis
    using w ok read_Value[of fmt_v c v "[]" s] by (simp add: reading_New reading_def)
qed

theorem native_roundtrip_witness:
  "\<exists>w. WriteValue (\<lambda>_. '''') \<lparr>Code = SQLArray, BaseCode = SQLInteger, Precision = 0, Scale = 0\<rparr>
        (VArrayValue [VInt64 5, VNil] SQLInteger) NewRowOutput = (None, w) \<and>
    ReadValue \<lparr>Code = SQLArray, BaseCode = SQLInteger, Precision = 0, Scale = 0\<rparr>
        (NewRowInput (out_buf w @ [])) =
      (VArrayValue [VInt64 5, VNil] SQLInteger,
       \<lparr>in_buf = out_buf w @ [], in_pos = length (out_buf w), in_err = None\<rparr>)"
  by (rule native_roundtrip)
    (simp add: native.simps type_of_code_def native_scalar_def in_int32_def fits32_def)

text \<open>C39: reading any value keeps the buffer, moves only forward, never past the end, and does
  nothing once an error is set.\<close>

theorem ReadValue_safe:
  assumes "in_pos r \<le> length (in_buf r)"
  shows "let r' = snd (ReadValue c r) in
    in_buf r' = in_buf r \<and> in_pos r \<le> in_pos r' \<and> in_pos r' \<le> length (in_buf r') \<and>
    (in_err r = None \<or> r' = r)"
  using onward_Value[of r c] assms by (auto simp: onward_def failed_def Let_def)

theorem ReadValue_safe_witness:
  "let r' = snd (ReadValue (type_of_code SQLInteger) (NewRowInput [1, 0, 0])) in
    in_buf r' = in_buf (NewRowInput [1, 0, 0]) \<and> in_pos (NewRowInput [1, 0, 0]) \<le> in_pos r' \<and>
    in_pos r' \<le> length (in_buf r') \<and> (in_err (NewRowInput [1, 0, 0]) = None \<or> r' = NewRowInput [1, 0, 0])"
  by (rule ReadValue_safe) (simp add: NewRowInput_def)

definition write_value :: "(gval \<Rightarrow> string) \<Rightarrow> column_type \<Rightarrow> gval \<Rightarrow> row_output \<Rightarrow> row_output" where
  "write_value fmt_v c v w = snd (WriteValue fmt_v c v w)"

lemma written_value: "written (write_value fmt_v c v) = value_bytes fmt_v c v"
  by (simp add: written_def write_value_def[abs_def] value_bytes_def)

lemma append_value [writes]: "out_buf (write_value fmt_v c v w) = out_buf w @ written (write_value fmt_v c v)"
  by (simp add: written_value write_value_def emitsD[OF emits_value])

interpretation value_codec: codec "write_value fmt_v c" "ReadValue c"
  "\<lambda>v. value_error fmt_v c v = None \<and> wire_fits fmt_v c v" "wire_norm fmt_v c"
  by unfold_locales (simp_all add: writes written_value read_Value)

end
