(* ===== verification/Messages.thy ===== *)
theory Messages
  imports NativeValues "HOL-Library.Monad_Syntax"
begin

unbundle bit_operations_syntax

text \<open>
  \<^verbatim>\<open>internal/proto/result.go\<close>: the messages of the protocol with their metadata and rows, the
  payload of a request and the decoding of a response.  \<open>None\<close> is a run-time panic: a negative
  \<^verbatim>\<open>make\<close> length or an index out of range.
\<close>

section \<open>Constants\<close>

abbreviation ModeNone :: byte where "ModeNone \<equiv> 0"
abbreviation ModeUpdateCount :: byte where "ModeUpdateCount \<equiv> 1"
abbreviation ModeError :: byte where "ModeError \<equiv> 2"
abbreviation ModeData :: byte where "ModeData \<equiv> 3"
abbreviation ModePrepareAck :: byte where "ModePrepareAck \<equiv> 4"
abbreviation ModeSQLCancel :: byte where "ModeSQLCancel \<equiv> 5"
abbreviation ModeSetSessionAttr :: byte where "ModeSetSessionAttr \<equiv> 6"
abbreviation ModeGetSessionAttr :: byte where "ModeGetSessionAttr \<equiv> 7"
abbreviation ModeBatchExecDirect :: byte where "ModeBatchExecDirect \<equiv> 8"
abbreviation ModeBatchExecute :: byte where "ModeBatchExecute \<equiv> 9"
abbreviation ModeResetSession :: byte where "ModeResetSession \<equiv> 10"
abbreviation ModeConnectAcknowledge :: byte where "ModeConnectAcknowledge \<equiv> 11"
abbreviation ModeRequestData :: byte where "ModeRequestData \<equiv> 13"
abbreviation ModeDataRows :: byte where "ModeDataRows \<equiv> 14"
abbreviation ModeDataHead :: byte where "ModeDataHead \<equiv> 15"
abbreviation ModeBatchExecResponse :: byte where "ModeBatchExecResponse \<equiv> 16"
abbreviation ModeLargeObjectOp :: byte where "ModeLargeObjectOp \<equiv> 18"
abbreviation ModeWarning :: byte where "ModeWarning \<equiv> 19"
abbreviation ModeGenerated :: byte where "ModeGenerated \<equiv> 20"
abbreviation ModeConnect :: byte where "ModeConnect \<equiv> 31"
abbreviation ModeDisconnect :: byte where "ModeDisconnect \<equiv> 32"
abbreviation ModeEndTran :: byte where "ModeEndTran \<equiv> 33"
abbreviation ModeExecDirect :: byte where "ModeExecDirect \<equiv> 34"
abbreviation ModeExecute :: byte where "ModeExecute \<equiv> 35"
abbreviation ModeFreeStmt :: byte where "ModeFreeStmt \<equiv> 36"
abbreviation ModePrepare :: byte where "ModePrepare \<equiv> 37"
abbreviation ModeSetConnectAttr :: byte where "ModeSetConnectAttr \<equiv> 38"
abbreviation ModeStartTran :: byte where "ModeStartTran \<equiv> 39"
abbreviation ModeCloseResult :: byte where "ModeCloseResult \<equiv> 40"
abbreviation ModeUpdateResult :: byte where "ModeUpdateResult \<equiv> 41"
abbreviation ModeCallResponse :: byte where "ModeCallResponse \<equiv> 43"

abbreviation TxCommit :: i32 where "TxCommit \<equiv> 0"
abbreviation TxRollback :: i32 where "TxRollback \<equiv> 1"
abbreviation TxSavepointNameRollback :: i32 where "TxSavepointNameRollback \<equiv> 2"
abbreviation TxSavepointNameRelease :: i32 where "TxSavepointNameRelease \<equiv> 4"
abbreviation TxPrepareCommit :: i32 where "TxPrepareCommit \<equiv> 12"

abbreviation ConnectAttrSavepointName :: i32 where "ConnectAttrSavepointName \<equiv> 10027"

abbreviation ActionUpdateCursor :: i32 where "ActionUpdateCursor \<equiv> 91"
abbreviation ActionDeleteCursor :: i32 where "ActionDeleteCursor \<equiv> 18"
abbreviation ActionInsertCursor :: i32 where "ActionInsertCursor \<equiv> 55"

abbreviation RSReturnable :: byte where "RSReturnable \<equiv> 1"
abbreviation RSHoldable :: byte where "RSHoldable \<equiv> 2"
abbreviation RSScrollable :: byte where "RSScrollable \<equiv> 4"
abbreviation RSUpdatable :: byte where "RSUpdatable \<equiv> 8"

abbreviation AttrIsolation :: i32 where "AttrIsolation \<equiv> 0"
abbreviation AttrAutocommit :: i32 where "AttrAutocommit \<equiv> 1"
abbreviation AttrConnectionReadonly :: i32 where "AttrConnectionReadonly \<equiv> 2"
abbreviation AttrCatalog :: i32 where "AttrCatalog \<equiv> 3"
abbreviation AttrTimezone :: i32 where "AttrTimezone \<equiv> 4"

abbreviation TxReadUncommitted :: i32 where "TxReadUncommitted \<equiv> 1"
abbreviation TxReadCommitted :: i32 where "TxReadCommitted \<equiv> 2"
abbreviation TxRepeatableRead :: i32 where "TxRepeatableRead \<equiv> 4"
abbreviation TxSerializable :: i32 where "TxSerializable \<equiv> 8"

abbreviation StatementReturnAny :: byte where "StatementReturnAny \<equiv> 0"
abbreviation StatementReturnResult :: byte where "StatementReturnResult \<equiv> 2"
abbreviation ReturnGeneratedKeys :: byte where "ReturnGeneratedKeys \<equiv> 1"
abbreviation ReturnNoGeneratedKeys :: byte where "ReturnNoGeneratedKeys \<equiv> 2"
abbreviation DefaultRSProperties :: byte where "DefaultRSProperties \<equiv> 0"

abbreviation MetaResult :: i32 where "MetaResult \<equiv> 1"
abbreviation MetaSimpleResult :: i32 where "MetaSimpleResult \<equiv> 2"
abbreviation MetaUpdateResult :: i32 where "MetaUpdateResult \<equiv> 3"
abbreviation MetaParam :: i32 where "MetaParam \<equiv> 4"
abbreviation MetaGeneratedIdx :: i32 where "MetaGeneratedIdx \<equiv> 5"
abbreviation MetaGeneratedName :: i32 where "MetaGeneratedName \<equiv> 6"

section \<open>Data\<close>

record column =
  ColType :: column_type
  Label :: string
  Catalog :: string
  Schema :: string
  Table :: string
  ColName :: string
  Attrs :: byte

definition ParamMode :: "column \<Rightarrow> byte" where
  "ParamMode c = drop_bit 4 (Attrs c) AND 0x0f"

record metadata =
  MetaType :: i32
  ColumnCount :: i32
  ExtendedCount :: i32
  Types :: "column_type list"
  Columns :: "column list"
  Labels :: "string list"
  ColIndexes :: "i32 list"

record row_set =
  SetID :: i64
  SetSize :: i32
  CurrentOffset :: i32
  Rows :: "gval list list"

record message =
  Mode :: byte
  DatabaseName :: string
  User :: string
  Password :: string
  ZoneString :: string
  TimeZoneSeconds :: i32
  DatabaseID :: i32
  SessionID :: i64
  RandomID :: i32
  ClientProps :: string
  MessageText :: string
  SQLState :: string
  ErrorCode :: i32
  SQL :: string
  StatementID :: i64
  StatementReturnType :: byte
  RSProperties :: byte
  GenerateKeys :: byte
  QueryTimeout :: i16
  FetchSize :: i32
  UpdateCount :: i32
  ID :: i64
  TxType :: i32
  SavepointName :: string
  ConnectAttr :: i32
  ActionType :: i32
  Meta :: "metadata option"
  ParamMeta :: "metadata option"
  RowSet :: "row_set option"
  ParamValues :: "gval list"
  BatchRows :: "gval list list"

text \<open>A received message carries the chained ones, which have none of their own.\<close>

record response = message +
  Chained :: "message list"

definition NewResult :: "byte \<Rightarrow> message" where
  "NewResult mode =
     \<lparr>Mode = mode, DatabaseName = '''', User = '''', Password = '''', ZoneString = '''',
      TimeZoneSeconds = 0, DatabaseID = 0, SessionID = 0, RandomID = 0, ClientProps = '''',
      MessageText = '''', SQLState = '''', ErrorCode = 0, SQL = '''', StatementID = 0,
      StatementReturnType = 0, RSProperties = 0, GenerateKeys = 0, QueryTimeout = 0, FetchSize = 0,
      UpdateCount = 0, ID = 0, TxType = 0, SavepointName = '''', ConnectAttr = 0, ActionType = 0,
      Meta = None, ParamMeta = None, RowSet = None, ParamValues = [], BatchRows = []\<rparr>"

text \<open>\<^verbatim>\<open>&Metadata{}\<close> and \<^verbatim>\<open>&RowSet{}\<close>.\<close>

definition zero_meta :: metadata where
  "zero_meta = \<lparr>MetaType = 0, ColumnCount = 0, ExtendedCount = 0, Types = [], Columns = [],
     Labels = [], ColIndexes = []\<rparr>"

definition zero_column :: column where
  "zero_column = \<lparr>ColType = type_of_code 0, Label = '''', Catalog = '''', Schema = '''', Table = '''',
     ColName = '''', Attrs = 0\<rparr>"

definition zero_rows :: row_set where
  "zero_rows = \<lparr>SetID = 0, SetSize = 0, CurrentOffset = 0, Rows = []\<rparr>"

text \<open>\<^verbatim>\<open>GeneratedKey\<close>: the loop over the chained results.\<close>

fun generated_key :: "message list \<Rightarrow> i64 option" where
  "generated_key [] = None"
| "generated_key (c # cs) =
     (if Mode c \<noteq> ModeGenerated then generated_key cs
      else case RowSet c of
        None \<Rightarrow> generated_key cs
      | Some rs \<Rightarrow>
          (case Rows rs of
             [] \<Rightarrow> generated_key cs
           | row # _ \<Rightarrow>
               (case row of
                  [] \<Rightarrow> generated_key cs
                | VInt64 v # _ \<Rightarrow> Some v
                | _ \<Rightarrow> generated_key cs)))"

definition GeneratedKey :: "response \<Rightarrow> i64 option" where
  "GeneratedKey r = generated_key (Chained r)"

section \<open>Encoding\<close>

definition write_column :: "column \<Rightarrow> row_output \<Rightarrow> row_output" where
  "write_column c w =
     WriteU8 (Attrs c) (WriteString (ColName c) (WriteString (Table c)
       (WriteString (Schema c) (WriteString (Catalog c) (WriteString (Label c) w)))))"

definition write_param :: "column_type \<times> column \<Rightarrow> row_output \<Rightarrow> row_output" where
  "write_param p w =
     WriteU8 (Attrs (snd p)) (WriteString (Label (snd p)) (WriteDataType (fst p) w))"

definition writeMetadata :: "metadata option \<Rightarrow> row_output \<Rightarrow> row_output option" where
  "writeMetadata mm w = (case mm of
      None \<Rightarrow> Some (WriteInt 0 (WriteInt MetaSimpleResult w))
    | Some m \<Rightarrow>
        let w = WriteInt (ColumnCount m) (WriteInt (MetaType m) w);
            n = nat (sint (ColumnCount m)); x = nat (sint (ExtendedCount m))
        in if MetaType m = MetaSimpleResult \<or> MetaType m = MetaUpdateResult then
             Some (fold WriteDataTypeSimple (Types m) w)
           else if MetaType m = MetaGeneratedIdx then Some (fold WriteInt (ColIndexes m) w)
           else if MetaType m = MetaGeneratedName then Some (fold WriteString (Labels m) w)
           else if MetaType m = MetaParam then
             (if length (Types m) < n \<or> length (Columns m) < n then None
              else Some (fold write_param (zip (take n (Types m)) (take n (Columns m))) w))
           else if MetaType m = MetaResult then
             let w = WriteInt (ExtendedCount m) w in
             if length (Types m) < x then None
             else let w = fold WriteDataType (take x (Types m)) w in
             if length (Columns m) < n then None
             else let w = fold write_column (take n (Columns m)) w
             in Some (if ColumnCount m \<noteq> ExtendedCount m then fold WriteInt (ColIndexes m) w else w)
           else Some w)"

text \<open>
  The loop \<^verbatim>\<open>for i := 0; i < n; i++\<close> over one row, given the remaining indexes: a missing value is
  nil, an index past the types panics.
\<close>

fun write_cells :: "(gval \<Rightarrow> string) \<Rightarrow> column_type list \<Rightarrow> gval list \<Rightarrow> nat list \<Rightarrow> row_output \<Rightarrow>
    (go_error option \<times> row_output) option" where
  "write_cells fmt_v types row [] w = Some (None, w)"
| "write_cells fmt_v types row (i # is) w =
     (if length types \<le> i then None
      else case WriteValue fmt_v (types ! i) (if i < length row then row ! i else VNil) w of
        (Some e, w) \<Rightarrow> Some (Some e, w)
      | (None, w) \<Rightarrow> write_cells fmt_v types row is w)"

fun write_rows :: "(gval \<Rightarrow> string) \<Rightarrow> column_type list \<Rightarrow> nat \<Rightarrow> gval list list \<Rightarrow> row_output \<Rightarrow>
    (go_error option \<times> row_output) option" where
  "write_rows fmt_v types n [] w = Some (None, w)"
| "write_rows fmt_v types n (row # rows) w =
     do { (e, w) \<leftarrow> write_cells fmt_v types row [0..<n] w;
          if e \<noteq> None then Some (e, w) else write_rows fmt_v types n rows w }"

definition writeSimpleRows ::
    "(gval \<Rightarrow> string) \<Rightarrow> message \<Rightarrow> row_output \<Rightarrow> (go_error option \<times> row_output) option" where
  "writeSimpleRows fmt_v r w = (case Meta r of
      None \<Rightarrow> Some (None, WriteInt 0 w)
    | Some m \<Rightarrow>
        write_rows fmt_v (Types m) (nat (sint (ColumnCount m))) (BatchRows r)
          (WriteInt (word_of_nat (length (BatchRows r))) w))"

definition writeParams ::
    "(gval \<Rightarrow> string) \<Rightarrow> message \<Rightarrow> row_output \<Rightarrow> (go_error option \<times> row_output) option" where
  "writeParams fmt_v r w = (case ParamMeta r of
      None \<Rightarrow> Some (None, WriteInt 0 w)
    | Some m \<Rightarrow>
        write_cells fmt_v (Types m) (ParamValues r) [0..<nat (sint (ColumnCount m))] (WriteInt 1 w))"

definition EncodePayload ::
    "(gval \<Rightarrow> string) \<Rightarrow> message \<Rightarrow> row_output \<Rightarrow> (go_error option \<times> row_output) option" where
  "EncodePayload fmt_v r w =
     (if Mode r = ModeConnect then
        Some (None, WriteInt (TimeZoneSeconds r) (WriteString (ZoneString r)
          (WriteString (Password r) (WriteString (User r) (WriteString (DatabaseName r) w)))))
      else if Mode r = ModeDisconnect \<or> Mode r = ModeResetSession \<or> Mode r = ModeStartTran then
        Some (None, w)
      else if Mode r = ModeExecDirect then
        Some (None, WriteU8 (GenerateKeys r) (WriteShort (QueryTimeout r) (WriteU8 (RSProperties r)
          (WriteString (SQL r) (WriteU8 (StatementReturnType r) (WriteInt (FetchSize r)
          (WriteInt (UpdateCount r) w)))))))
      else if Mode r = ModePrepare then
        Some (None, WriteU8 (GenerateKeys r) (WriteU8 (RSProperties r) (WriteString (SQL r)
          (WriteU8 (StatementReturnType r) w))))
      else if Mode r = ModeExecute then
        writeParams fmt_v r (WriteShort (QueryTimeout r) (WriteU8 (RSProperties r)
          (WriteLong (StatementID r) (WriteInt (FetchSize r) (WriteInt (UpdateCount r) w)))))
      else if Mode r = ModeBatchExecDirect \<or> Mode r = ModeBatchExecute \<or> Mode r = ModeSetSessionAttr then
        do { w \<leftarrow> writeMetadata (Meta r) (WriteShort (QueryTimeout r) (WriteLong (StatementID r)
               (WriteInt (FetchSize r) (WriteInt (UpdateCount r) w))));
             writeSimpleRows fmt_v r w }
      else if Mode r = ModeEndTran then
        (let w = WriteInt (TxType r) w in
         Some (None,
           if TxType r = TxSavepointNameRelease \<or> TxType r = TxSavepointNameRollback
           then WriteString (SavepointName r) w else w))
      else if Mode r = ModeCloseResult then Some (None, WriteLong (ID r) w)
      else if Mode r = ModeFreeStmt then Some (None, WriteLong (StatementID r) w)
      else if Mode r = ModeSQLCancel then
        Some (None, WriteString (SQL r) (WriteInt (RandomID r) (WriteLong (StatementID r)
          (WriteLong (SessionID r) (WriteInt (DatabaseID r) w)))))
      else if Mode r = ModeSetConnectAttr then
        (let w = WriteInt (ConnectAttr r) w in
         Some (None, if ConnectAttr r = ConnectAttrSavepointName
           then WriteString (SavepointName r) w else w))
      else if Mode r = ModeRequestData then
        Some (None, WriteInt (FetchSize r) (WriteInt (UpdateCount r) (WriteLong (ID r) w)))
      else if Mode r = ModeUpdateResult then
        do { w \<leftarrow> writeMetadata (Meta r) (WriteInt (ActionType r) (WriteLong (ID r) w));
             writeSimpleRows fmt_v r w }
      else if Mode r = ModeGetSessionAttr then Some (None, WriteU8 (StatementReturnType r) w)
      else Some (Some (Errorf ''hsql/proto: cannot encode request mode''), w))"

section \<open>Session attributes\<close>

definition SessionAttrMetadata :: metadata where
  "SessionAttrMetadata =
     (let types = map type_of_code [SQLInteger, SQLInteger, SQLBoolean, SQLVarchar];
          cols = map (\<lambda>t. zero_column\<lparr>ColType := t\<rparr>) types
      in zero_meta\<lparr>MetaType := MetaResult, ColumnCount := 4, ExtendedCount := 4, Types := types,
           Columns := cols\<rparr>)"

definition NewSessionAttrRequest :: "i32 \<Rightarrow> i32 option \<Rightarrow> bool option \<Rightarrow> string option \<Rightarrow> message" where
  "NewSessionAttrRequest attrID intVal boolVal strVal =
     (let row = [VInt64 (scast attrID),
                 (case intVal of Some v \<Rightarrow> VInt64 (scast v) | None \<Rightarrow> VNil),
                 (case boolVal of Some v \<Rightarrow> VBool v | None \<Rightarrow> VNil),
                 (case strVal of Some v \<Rightarrow> VString v | None \<Rightarrow> VNil)]
      in (NewResult ModeSetSessionAttr)\<lparr>Meta := Some SessionAttrMetadata, BatchRows := [row]\<rparr>)"

section \<open>Decoding\<close>

definition read_param :: "row_input \<Rightarrow> (column_type \<times> column) \<times> row_input" where
  "read_param r =
     (let (t, r) = ReadDataType r; (label, r) = ReadString r; (attrs, r) = ReadU8 r
      in ((t, zero_column\<lparr>ColType := t, Label := label, Attrs := attrs\<rparr>), r))"

definition read_column :: "row_input \<Rightarrow> column \<times> row_input" where
  "read_column r =
     (let (label, r) = ReadString r; (cat, r) = ReadString r; (sch, r) = ReadString r;
          (tab, r) = ReadString r; (nam, r) = ReadString r; (attrs, r) = ReadU8 r
      in (zero_column\<lparr>Label := label, Catalog := cat, Schema := sch, Table := tab, ColName := nam,
            Attrs := attrs\<rparr>, r))"

text \<open>\<^verbatim>\<open>make([]T, n)\<close> panics for a negative \<open>n\<close>.\<close>

definition made_len :: "i32 \<Rightarrow> nat option" where
  "made_len n = (if sint n < 0 then None else Some (nat (sint n)))"

definition readMetadata :: "row_input \<Rightarrow> (metadata \<times> row_input) option" where
  "readMetadata r =
     (let (mt, r) = ReadInt r; (cc, r) = ReadInt r; m = zero_meta\<lparr>MetaType := mt, ColumnCount := cc\<rparr> in
      if Err r \<noteq> None then Some (m, r)
      else if mt = MetaSimpleResult \<or> mt = MetaUpdateResult then
        do { n \<leftarrow> made_len cc;
             let (ts, r) = readN n ReadDataTypeSimple r in Some (m\<lparr>Types := ts\<rparr>, r) }
      else if mt = MetaGeneratedIdx then
        do { n \<leftarrow> made_len cc;
             let (xs, r) = readN n ReadInt r in Some (m\<lparr>ColIndexes := xs\<rparr>, r) }
      else if mt = MetaGeneratedName then
        do { n \<leftarrow> made_len cc;
             let (ls, r) = readN n ReadString r in Some (m\<lparr>Labels := ls\<rparr>, r) }
      else if mt = MetaParam then
        do { n \<leftarrow> made_len cc;
             let (ps, r) = readN n read_param r
             in Some (m\<lparr>Types := map fst ps, Columns := map snd ps\<rparr>, r) }
      else if mt = MetaResult then
        let (ec, r) = ReadInt r in
        do { x \<leftarrow> made_len ec;
             let (ts, r) = readN x ReadDataType r in
             do { n \<leftarrow> made_len cc;
                  if x < n then None
                  else
                    let (cols, r) = readN n read_column r;
                        cols = map2 (\<lambda>c t. c\<lparr>ColType := t\<rparr>) cols (take n ts);
                        (xs, r) = (if cc \<noteq> ec then readN n ReadInt r else ([], r))
                    in Some (m\<lparr>ExtendedCount := ec, Types := ts, Columns := cols, ColIndexes := xs\<rparr>, r) } }
      else Some (m, r\<lparr>in_err := Some (Errorf ''hsql/proto: unknown metadata type'')\<rparr>))"

fun read_row :: "column_type list \<Rightarrow> row_input \<Rightarrow> gval list \<times> row_input" where
  "read_row [] r = ([], r)"
| "read_row (t # ts) r = (let (v, r) = ReadValue t r; (vs, r) = read_row ts r in (v # vs, r))"

text \<open>The row loop appends a row and then stops if the reader has failed.\<close>

fun read_rows :: "column_type list \<Rightarrow> nat \<Rightarrow> row_input \<Rightarrow> gval list list \<times> row_input" where
  "read_rows types 0 r = ([], r)"
| "read_rows types (Suc n) r =
     (let (row, r) = read_row types r in
      if Err r \<noteq> None then ([row], r)
      else let (rows, r) = read_rows types n r in (row # rows, r))"

definition readRowSet :: "metadata \<Rightarrow> row_input \<Rightarrow> row_set \<times> row_input" where
  "readRowSet m r =
     (let (i, r) = ReadLong r; (size, r) = ReadInt r; (off, r) = ReadInt r; (blockLen, r) = ReadInt r;
          rs = zero_rows\<lparr>SetID := i, SetSize := size, CurrentOffset := off\<rparr>
      in if Err r \<noteq> None \<or> sint blockLen < 0 then (rs, r)
         else let (rows, r) = read_rows (Types m) (nat (sint blockLen)) r in (rs\<lparr>Rows := rows\<rparr>, r))"

definition readRowSetSimple :: "metadata \<Rightarrow> row_input \<Rightarrow> row_set \<times> row_input" where
  "readRowSetSimple m r =
     (let (n, r) = ReadInt r in
      if Err r \<noteq> None \<or> sint n < 0 then (zero_rows, r)
      else let (rows, r) = read_rows (Types m) (nat (sint n)) r in (zero_rows\<lparr>Rows := rows\<rparr>, r))"

text \<open>The layout shared by CALL, BATCH and SETSESSIONATTR responses from the metadata on.\<close>

definition read_simple_tail :: "message \<Rightarrow> row_input \<Rightarrow> (message \<times> row_input) option" where
  "read_simple_tail r i =
     do { (m, i) \<leftarrow> readMetadata i;
          let (rs, i) = readRowSetSimple m i in Some (r\<lparr>Meta := Some m, RowSet := Some rs\<rparr>, i) }"

definition read_batch :: "message \<Rightarrow> row_input \<Rightarrow> (message \<times> row_input) option" where
  "read_batch r i =
     (let (uc, i) = ReadInt i; (fs, i) = ReadInt i; (sid, i) = ReadLong i; (qt, i) = ReadShort i
      in read_simple_tail (r\<lparr>UpdateCount := uc, FetchSize := fs, StatementID := sid, QueryTimeout := qt\<rparr>) i)"

text \<open>The fields of one response, per mode; \<open>Inl\<close> for a mode that is not a response.\<close>

definition decode_fields :: "byte \<Rightarrow> message \<Rightarrow> row_input \<Rightarrow> (message \<times> row_input) go_result option" where
  "decode_fields mode r i =
     (if mode = ModeConnectAcknowledge then
        let (db, i) = ReadInt i; (sess, i) = ReadLong i; (name, i) = ReadString i;
            (cp, i) = ReadString i; (rid, i) = ReadInt i
        in Some (Inr (r\<lparr>DatabaseID := db, SessionID := sess, DatabaseName := name,
             ClientProps := cp, RandomID := rid\<rparr>, i))
      else if mode = ModeError \<or> mode = ModeWarning then
        let (msg, i) = ReadString i; (st, i) = ReadString i; (code, i) = ReadInt i
        in Some (Inr (r\<lparr>MessageText := msg, SQLState := st, ErrorCode := code\<rparr>, i))
      else if mode = ModeUpdateCount then
        let (uc, i) = ReadInt i in Some (Inr (r\<lparr>UpdateCount := uc\<rparr>, i))
      else if mode = ModeData \<or> mode = ModeDataHead \<or> mode = ModeGenerated then
        let (rid, i) = ReadLong i; (uc, i) = ReadInt i; (fs, i) = ReadInt i; (rp, i) = ReadU8 i in
        do { (m, i) \<leftarrow> readMetadata i;
             let (rs, i) = readRowSet m i
             in Some (Inr (r\<lparr>ID := rid, UpdateCount := uc, FetchSize := fs, RSProperties := rp,
                  Meta := Some m, RowSet := Some rs\<rparr>, i)) }
      else if mode = ModeDataRows then
        do { (m, i) \<leftarrow> readMetadata i;
             let (rs, i) = readRowSet m i in Some (Inr (r\<lparr>Meta := Some m, RowSet := Some rs\<rparr>, i)) }
      else if mode = ModePrepareAck then
        let (srt, i) = ReadU8 i; (sid, i) = ReadLong i; (rp, i) = ReadU8 i in
        do { (m, i) \<leftarrow> readMetadata i;
             (pm, i) \<leftarrow> readMetadata i;
             Some (Inr (r\<lparr>StatementReturnType := srt, StatementID := sid, RSProperties := rp,
               Meta := Some m, ParamMeta := Some pm\<rparr>, i)) }
      else if mode = ModeCallResponse then
        let (uc, i) = ReadInt i; (fs, i) = ReadInt i; (sid, i) = ReadLong i;
            (srt, i) = ReadU8 i; (rp, i) = ReadU8 i
        in map_option Inr (read_simple_tail (r\<lparr>UpdateCount := uc, FetchSize := fs, StatementID := sid,
             StatementReturnType := srt, RSProperties := rp\<rparr>) i)
      else if mode = ModeBatchExecResponse then map_option Inr (read_batch r i)
      else if mode = ModeSetSessionAttr then
        (if in_buf i = [] then Some (Inr (r, i)) else map_option Inr (read_batch r i))
      else if mode = ModeSetConnectAttr \<or> mode = ModeGetSessionAttr then Some (Inr (r, i))
      else Some (Inl (Errorf ''hsql/proto: cannot decode response mode'')))"

definition DecodeResult :: "byte \<Rightarrow> byte list \<Rightarrow> message go_result option" where
  "DecodeResult mode payload =
     do { res \<leftarrow> decode_fields mode (NewResult mode) (NewRowInput payload);
          case res of
            Inl e \<Rightarrow> Some (Inl e)
          | Inr (r, i) \<Rightarrow>
              (case Err i of
                 Some e \<Rightarrow> Some (Inl (Wrapf ''hsql/proto: decoding mode'' e))
               | None \<Rightarrow> Some (Inr r)) }"

end
