(* ===== verification/MessageCodec.thy ===== *)
theory MessageCodec
  imports Messages
begin

unbundle bit_operations_syntax

text \<open>
  What \<^verbatim>\<open>result.go\<close> encodes is what it decodes: metadata, rows of values and the session-attribute
  message in both directions; and what happens with counts that do not fit the data.
\<close>

section \<open>Columns and parameters\<close>

lemma append_column [writes]: "out_buf (write_column c w) = out_buf w @ written (write_column c)"
  by (simp add: written_def[of "write_column c"] write_column_def writes)

lemma append_param [writes]: "out_buf (write_param p w) = out_buf w @ written (write_param p)"
  by (simp add: written_def[of "write_param p"] write_param_def writes)

definition fits_string :: "string \<Rightarrow> bool" where
  "fits_string s \<longleftrightarrow> fits32 (length (encodeModifiedUTF8 s))"

definition column_fits :: "column \<Rightarrow> bool" where
  "column_fits c \<longleftrightarrow> fits_string (Label c) \<and> fits_string (Catalog c) \<and> fits_string (Schema c) \<and>
     fits_string (Table c) \<and> fits_string (ColName c)"

definition column_norm :: "column \<Rightarrow> column" where
  "column_norm c = zero_column\<lparr>Label := to_valid (Label c), Catalog := to_valid (Catalog c),
     Schema := to_valid (Schema c), Table := to_valid (Table c), ColName := to_valid (ColName c),
     Attrs := Attrs c\<rparr>"

definition param_norm :: "column_type \<times> column \<Rightarrow> column_type \<times> column" where
  "param_norm p = (full_type (fst p), zero_column\<lparr>ColType := full_type (fst p),
     Label := to_valid (Label (snd p)), Attrs := Attrs (snd p)\<rparr>)"

lemma onward_column [progress]: "onward r (snd (read_column r))"
  unfolding read_column_def Let_def by (intro onward_bind[unfolded Let_def] progress)

lemma onward_param [progress]: "onward r (snd (read_param r))"
  unfolding read_param_def Let_def by (intro onward_bind[unfolded Let_def] progress)

interpretation column_codec: codec write_column read_column column_fits column_norm
proof (unfold_locales, rule writes, rule progress)
  fix x d s assume "column_fits x"
  moreover have "written (write_column x) = written (WriteString (Label x)) @ written (WriteString (Catalog x)) @
      written (WriteString (Schema x)) @ written (WriteString (Table x)) @ written (WriteString (ColName x)) @
      written (WriteU8 (Attrs x))"
    by (simp add: written_def[of "write_column x"] write_column_def writes)
  ultimately show "read_column (reading d (written (write_column x) @ s)) =
      (column_norm x, reading (d @ written (write_column x)) s)"
    by (simp add: read_column_def read_String read_U8 column_fits_def fits_string_def column_norm_def)
qed

interpretation param_codec: codec write_param read_param "\<lambda>p. fits_string (Label (snd p))" param_norm
proof (unfold_locales, rule writes, rule progress)
  fix x :: "column_type \<times> column" and d s assume "fits_string (Label (snd x))"
  moreover have "written (write_param x) = written (WriteDataType (fst x)) @
      written (WriteString (Label (snd x))) @ written (WriteU8 (Attrs (snd x)))"
    by (simp add: written_def[of "write_param x"] write_param_def writes)
  ultimately show "read_param (reading d (written (write_param x) @ s)) =
      (param_norm x, reading (d @ written (write_param x)) s)"
    by (simp add: read_param_def read_DataType read_String read_U8 fits_string_def param_norm_def)
qed

section \<open>Metadata\<close>

lemmas fold_appends = simple_type_out.append_fold full_type_out.append_fold int_out.append_fold
  string_out.append_fold column_codec.append_fold param_codec.append_fold

lemma append_metadata:
  "writeMetadata mm w =
     map_option (\<lambda>w0. w\<lparr>out_buf := out_buf w @ out_buf w0\<rparr>) (writeMetadata mm NewRowOutput)"
  by (auto simp: writeMetadata_def Let_def fold_appends writes intro!: row_output_eqI split: option.splits)

text \<open>Metadata whose counts are the lengths of its lists, and what is kept of it on the wire.\<close>

definition meta_ok :: "metadata \<Rightarrow> bool" where
  "meta_ok m \<longleftrightarrow>
     (if MetaType m = MetaSimpleResult \<or> MetaType m = MetaUpdateResult then
        sint (ColumnCount m) = int (length (Types m))
      else if MetaType m = MetaGeneratedIdx then sint (ColumnCount m) = int (length (ColIndexes m))
      else if MetaType m = MetaGeneratedName then
        sint (ColumnCount m) = int (length (Labels m)) \<and> (\<forall>l\<in>set (Labels m). fits_string l)
      else if MetaType m = MetaParam then
        sint (ColumnCount m) = int (length (Types m)) \<and> length (Columns m) = length (Types m) \<and>
        (\<forall>c\<in>set (Columns m). fits_string (Label c))
      else if MetaType m = MetaResult then
        sint (ExtendedCount m) = int (length (Types m)) \<and> sint (ColumnCount m) = int (length (Columns m)) \<and>
        length (Columns m) \<le> length (Types m) \<and> (\<forall>c\<in>set (Columns m). column_fits c) \<and>
        (ColumnCount m \<noteq> ExtendedCount m \<longrightarrow> length (ColIndexes m) = length (Columns m))
      else False)"

definition meta_norm :: "metadata \<Rightarrow> metadata" where
  "meta_norm m =
     (let z = zero_meta\<lparr>MetaType := MetaType m, ColumnCount := ColumnCount m\<rparr> in
      if MetaType m = MetaSimpleResult \<or> MetaType m = MetaUpdateResult then
        z\<lparr>Types := map simple_type (Types m)\<rparr>
      else if MetaType m = MetaGeneratedIdx then z\<lparr>ColIndexes := ColIndexes m\<rparr>
      else if MetaType m = MetaGeneratedName then z\<lparr>Labels := map to_valid (Labels m)\<rparr>
      else if MetaType m = MetaParam then
        z\<lparr>Types := map full_type (Types m),
          Columns := map2 (\<lambda>t c. zero_column\<lparr>ColType := full_type t, Label := to_valid (Label c), Attrs := Attrs c\<rparr>)
            (Types m) (Columns m)\<rparr>
      else z\<lparr>ExtendedCount := ExtendedCount m, Types := map full_type (Types m),
          Columns := map2 (\<lambda>c t. (column_norm c)\<lparr>ColType := full_type t\<rparr>) (Columns m) (Types m),
          ColIndexes := if ColumnCount m \<noteq> ExtendedCount m then ColIndexes m else []\<rparr>)"

lemma made_len_nat: "sint n = int k \<Longrightarrow> made_len n = Some k"
  by (simp add: made_len_def)

lemma map2_take: "map2 f xs (take (length xs) ys) = map2 f xs ys"
proof (induction xs arbitrary: ys)
  case (Cons x xs)
  then show ?case by (cases ys) simp_all
qed simp

lemma read_Metadata:
  assumes "meta_ok m"
  shows "\<exists>w. writeMetadata (Some m) NewRowOutput = Some w \<and>
    (\<forall>d s. readMetadata (reading d (out_buf w @ s)) = Some (meta_norm m, reading (d @ out_buf w) s))"
proof -
  have that: ?thesis if "writeMetadata (Some m) NewRowOutput = Some w"
    "\<And>d s. readMetadata (reading d (out_buf w @ s)) = Some (meta_norm m, reading (d @ out_buf w) s)" for w
    using that by blast
  let ?h = "written (WriteInt (MetaType m)) @ written (WriteInt (ColumnCount m))"
  consider (simple) "MetaType m = MetaSimpleResult \<or> MetaType m = MetaUpdateResult"
    | (idx) "MetaType m = MetaGeneratedIdx" | (name) "MetaType m = MetaGeneratedName"
    | (param) "MetaType m = MetaParam" | (result) "MetaType m = MetaResult"
    using assms by (auto simp: meta_ok_def split: if_splits)
  then show ?thesis
  proof cases
    case simple
    let ?w = "fold WriteDataTypeSimple (Types m) (WriteInt (ColumnCount m) (WriteInt (MetaType m) NewRowOutput))"
    have b: "out_buf ?w = ?h @ concat (map (\<lambda>x. written (WriteDataTypeSimple x)) (Types m))"
      by (simp add: fold_appends writes)
    have n: "made_len (ColumnCount m) = Some (length (Types m))"
      using simple assms by (intro made_len_nat) (simp add: meta_ok_def)
    show ?thesis
    proof (rule that[of ?w])
      show "writeMetadata (Some m) NewRowOutput = Some ?w"
        using simple by (auto simp: writeMetadata_def Let_def)
      show "readMetadata (reading d (out_buf ?w @ s)) = Some (meta_norm m, reading (d @ out_buf ?w) s)" for d s
        unfolding b using simple simple_type_codec.read_many[of "Types m" "d @ ?h" s] n
        by (auto simp: readMetadata_def read_Int Err_def meta_norm_def Let_def)
    qed
  next
    case idx
    let ?w = "fold WriteInt (ColIndexes m) (WriteInt (ColumnCount m) (WriteInt (MetaType m) NewRowOutput))"
    have b: "out_buf ?w = ?h @ concat (map (\<lambda>x. written (WriteInt x)) (ColIndexes m))"
      by (simp add: fold_appends writes)
    have n: "made_len (ColumnCount m) = Some (length (ColIndexes m))"
      using idx assms by (intro made_len_nat) (simp add: meta_ok_def)
    show ?thesis
    proof (rule that[of ?w])
      show "writeMetadata (Some m) NewRowOutput = Some ?w"
        using idx by (simp add: writeMetadata_def Let_def)
      show "readMetadata (reading d (out_buf ?w @ s)) = Some (meta_norm m, reading (d @ out_buf ?w) s)" for d s
        unfolding b using idx int_codec.read_many[of "ColIndexes m" "d @ ?h" s] n
        by (simp add: readMetadata_def read_Int Err_def meta_norm_def Let_def)
    qed
  next
    case name
    let ?w = "fold WriteString (Labels m) (WriteInt (ColumnCount m) (WriteInt (MetaType m) NewRowOutput))"
    have b: "out_buf ?w = ?h @ concat (map (\<lambda>x. written (WriteString x)) (Labels m))"
      by (simp add: fold_appends writes)
    have n: "made_len (ColumnCount m) = Some (length (Labels m))"
      using name assms by (intro made_len_nat) (simp add: meta_ok_def)
    have f: "\<forall>x\<in>set (Labels m). fits32 (length (encodeModifiedUTF8 x))"
      using name assms by (simp add: meta_ok_def fits_string_def)
    show ?thesis
    proof (rule that[of ?w])
      show "writeMetadata (Some m) NewRowOutput = Some ?w"
        using name by (simp add: writeMetadata_def Let_def)
      show "readMetadata (reading d (out_buf ?w @ s)) = Some (meta_norm m, reading (d @ out_buf ?w) s)" for d s
        unfolding b using name string_codec.read_many[OF f, of "d @ ?h" s] n
        by (simp add: readMetadata_def read_Int Err_def meta_norm_def Let_def)
    qed
  next
    case param
    let ?ps = "zip (Types m) (Columns m)"
    let ?w = "fold write_param ?ps (WriteInt (ColumnCount m) (WriteInt (MetaType m) NewRowOutput))"
    have b: "out_buf ?w = ?h @ concat (map (\<lambda>x. written (write_param x)) ?ps)"
      by (simp add: fold_appends writes)
    have l: "sint (ColumnCount m) = int (length (Types m))" "length (Columns m) = length (Types m)"
      and f: "\<forall>x\<in>set ?ps. fits_string (Label (snd x))"
      using param assms by (auto simp: meta_ok_def dest: set_zip_rightD)
    have n: "made_len (ColumnCount m) = Some (length ?ps)"
      using l by (intro made_len_nat) simp
    have nm: "map fst (map param_norm ?ps) = map full_type (Types m)"
      "map snd (map param_norm ?ps) = map2 (\<lambda>t c. zero_column\<lparr>ColType := full_type t,
         Label := to_valid (Label c), Attrs := Attrs c\<rparr>) (Types m) (Columns m)"
      using l(2) by (auto simp: param_norm_def o_def intro: nth_equalityI)
    show ?thesis
    proof (rule that[of ?w])
      show "writeMetadata (Some m) NewRowOutput = Some ?w"
        using param l by (simp add: writeMetadata_def Let_def)
      show "readMetadata (reading d (out_buf ?w @ s)) = Some (meta_norm m, reading (d @ out_buf ?w) s)" for d s
        unfolding b using param param_codec.read_many[OF f, of "d @ ?h" s] n nm
        by (simp add: readMetadata_def read_Int Err_def meta_norm_def Let_def)
    qed
  next
    case result
    let ?x = "if ColumnCount m \<noteq> ExtendedCount m then ColIndexes m else []"
    let ?h' = "?h @ written (WriteInt (ExtendedCount m))"
    let ?w = "fold WriteInt ?x (fold write_column (Columns m) (fold WriteDataType (Types m)
      (WriteInt (ExtendedCount m) (WriteInt (ColumnCount m) (WriteInt (MetaType m) NewRowOutput)))))"
    let ?t = "concat (map (\<lambda>x. written (WriteDataType x)) (Types m))"
    let ?c = "concat (map (\<lambda>x. written (write_column x)) (Columns m))"
    let ?i = "concat (map (\<lambda>x. written (WriteInt x)) ?x)"
    have b: "out_buf ?w = ?h' @ ?t @ ?c @ ?i"
      by (simp only: fold_appends writes) (simp add: writes)
    have l: "sint (ExtendedCount m) = int (length (Types m))" "sint (ColumnCount m) = int (length (Columns m))"
        "length (Columns m) \<le> length (Types m)" "ColumnCount m \<noteq> ExtendedCount m \<longrightarrow> length ?x = length (Columns m)"
      and f: "\<forall>x\<in>set (Columns m). column_fits x"
      using result assms by (auto simp: meta_ok_def)
    have n: "made_len (ExtendedCount m) = Some (length (Types m))"
        "made_len (ColumnCount m) = Some (length (Columns m))"
      using l by (auto intro: made_len_nat)
    show ?thesis
    proof (rule that[of ?w])
      show "writeMetadata (Some m) NewRowOutput = Some ?w"
        using result l by (auto simp: writeMetadata_def Let_def)
      show "readMetadata (reading d (out_buf ?w @ s)) = Some (meta_norm m, reading (d @ out_buf ?w) s)" for d s
      proof -
        have r1: "readN (length (Types m)) ReadDataType (reading (d @ ?h') (?t @ ?c @ ?i @ s)) =
            (map full_type (Types m), reading (d @ ?h' @ ?t) (?c @ ?i @ s))"
          using full_type_codec.read_many[of "Types m" "d @ ?h'" "?c @ ?i @ s"] by simp
        have r2: "readN (length (Columns m)) read_column (reading (d @ ?h' @ ?t) (?c @ ?i @ s)) =
            (map column_norm (Columns m), reading (d @ ?h' @ ?t @ ?c) (?i @ s))"
          using column_codec.read_many[OF f, of "d @ ?h' @ ?t" "?i @ s"] by simp
        have r3: "(if ColumnCount m \<noteq> ExtendedCount m
             then readN (length (Columns m)) ReadInt (reading (d @ ?h' @ ?t @ ?c) (?i @ s))
             else ([], reading (d @ ?h' @ ?t @ ?c) (?i @ s))) =
            (?x, reading (d @ ?h' @ ?t @ ?c @ ?i) s)"
          using int_codec.read_many[of ?x "d @ ?h' @ ?t @ ?c" s] l(4)
          by (cases "ColumnCount m = ExtendedCount m") simp_all
        have cols': "map2 (\<lambda>c t. c\<lparr>ColType := t\<rparr>) (map column_norm (Columns m)) (map full_type (Types m)) =
            map2 (\<lambda>c t. (column_norm c)\<lparr>ColType := full_type t\<rparr>) (Columns m) (Types m)"
          by (simp add: zip_map1 zip_map2 o_def case_prod_beta)
        then have cols: "map2 (\<lambda>c t. c\<lparr>ColType := t\<rparr>) (map column_norm (Columns m))
              (take (length (Columns m)) (map full_type (Types m))) =
            map2 (\<lambda>c t. (column_norm c)\<lparr>ColType := full_type t\<rparr>) (Columns m) (Types m)"
          using map2_take[of "\<lambda>c t. c\<lparr>ColType := t\<rparr>" "map column_norm (Columns m)" "map full_type (Types m)"]
          by simp
        have le: "\<not> length (Types m) < length (Columns m)" using l(3) by simp
        have "readMetadata (reading d (?h @ written (WriteInt (ExtendedCount m)) @ ?t @ ?c @ ?i @ s)) =
            Some (meta_norm m, reading (d @ ?h' @ ?t @ ?c @ ?i) s)"
          by (cases "ColumnCount m = ExtendedCount m")
            (use result r1 r2 r3 n le in
              \<open>simp_all add: readMetadata_def read_Int Err_def meta_norm_def Let_def cols cols'\<close>)
        then show ?thesis by (simp add: b)
      qed
    qed
  qed
qed

text \<open>C38: metadata with counts that match its lists is decoded to what was encoded, up to the fields
  that its type does not transmit.\<close>

theorem metadata_roundtrip:
  assumes "meta_ok m"
  shows "\<exists>w. writeMetadata (Some m) NewRowOutput = Some w \<and>
    readMetadata (NewRowInput (out_buf w @ s)) =
      Some (meta_norm m, \<lparr>in_buf = out_buf w @ s, in_pos = length (out_buf w), in_err = None\<rparr>)"
proof -
  obtain w where "writeMetadata (Some m) NewRowOutput = Some w"
    "\<forall>d s. readMetadata (reading d (out_buf w @ s)) = Some (meta_norm m, reading (d @ out_buf w) s)"
    using read_Metadata[OF assms] by blast
  from this(1) this(2)[rule_format, of "[]" s] show ?thesis by (simp add: reading_New reading_def)
qed

theorem metadata_roundtrip_witness:
  "\<exists>w. writeMetadata (Some SessionAttrMetadata) NewRowOutput = Some w \<and>
    readMetadata (NewRowInput (out_buf w @ [])) = Some (meta_norm SessionAttrMetadata,
      \<lparr>in_buf = out_buf w @ [], in_pos = length (out_buf w), in_err = None\<rparr>)"
proof (rule metadata_roundtrip)
  have "fits_string ''''" by (simp add: fits_string_def fits32_def encodeModifiedUTF8_def range_runes_def
    bytes_of_string_def)
  then show "meta_ok SessionAttrMetadata"
    by (simp add: meta_ok_def SessionAttrMetadata_def zero_meta_def zero_column_def column_fits_def Let_def)
qed

section \<open>Rows\<close>

text \<open>The values that are sent of a row: one per column, nil for a missing one.\<close>

definition row_cells :: "nat \<Rightarrow> gval list \<Rightarrow> gval list" where
  "row_cells n row = map (\<lambda>i. if i < length row then row ! i else VNil) [0..<n]"

text \<open>\<open>n\<close> values under \<open>n\<close> types.\<close>

definition cells_ok :: "(gval \<Rightarrow> string) \<Rightarrow> column_type list \<Rightarrow> gval list \<Rightarrow> bool" where
  "cells_ok fmt_v types vs \<longleftrightarrow>
     list_all2 (\<lambda>t v. value_error fmt_v t v = None \<and> wire_fits fmt_v t v) types vs"

definition cells_bytes :: "(gval \<Rightarrow> string) \<Rightarrow> column_type list \<Rightarrow> gval list \<Rightarrow> byte list" where
  "cells_bytes fmt_v types vs = concat (map2 (value_bytes fmt_v) types vs)"

lemma write_cells_ok:
  assumes "\<And>i. i \<in> set is \<Longrightarrow> i < length types \<and>
    value_error fmt_v (types ! i) (if i < length row then row ! i else VNil) = None"
  shows "write_cells fmt_v types row is w = Some (None, w\<lparr>out_buf := out_buf w @
    concat (map (\<lambda>i. value_bytes fmt_v (types ! i) (if i < length row then row ! i else VNil)) is)\<rparr>)"
  using assms
proof (induction "is" arbitrary: w)
  case (Cons i "is")
  have i: "i < length types" "value_error fmt_v (types ! i) (if i < length row then row ! i else VNil) = None"
    using Cons.prems by auto
  note ih = Cons.IH[OF Cons.prems[OF list.set_intros(2)]]
  have "WriteValue fmt_v (types ! i) (if i < length row then row ! i else VNil) w =
    (None, w\<lparr>out_buf := out_buf w @ value_bytes fmt_v (types ! i) (if i < length row then row ! i else VNil)\<rparr>)"
    using emitsD[OF emits_value] i(2) by metis
  then show ?case using i(1) by (simp add: ih)
qed simp

lemma write_row_bytes:
  assumes "cells_ok fmt_v types (row_cells n row)" "length types = n"
  shows "write_cells fmt_v types row [0..<n] w =
    Some (None, w\<lparr>out_buf := out_buf w @ cells_bytes fmt_v types (row_cells n row)\<rparr>)"
proof -
  have e: "i < length types \<and> value_error fmt_v (types ! i) (if i < length row then row ! i else VNil) = None"
    if "i \<in> set [0..<n]" for i
    using assms that by (auto simp: cells_ok_def row_cells_def list_all2_conv_all_nth)
  have "map (\<lambda>i. value_bytes fmt_v (types ! i) (if i < length row then row ! i else VNil)) [0..<n] =
      map2 (value_bytes fmt_v) types (row_cells n row)"
    using assms(2) by (auto simp: row_cells_def intro: nth_equalityI)
  then show ?thesis by (subst write_cells_ok[OF e]) (simp_all add: cells_bytes_def)
qed

lemma read_row_bytes:
  assumes "cells_ok fmt_v types vs"
  shows "read_row types (reading d (cells_bytes fmt_v types vs @ s)) =
    (map2 (wire_norm fmt_v) types vs, reading (d @ cells_bytes fmt_v types vs) s)"
  using assms unfolding cells_ok_def
proof (induction arbitrary: d rule: list_all2_induct)
  case (Cons t ts v vs)
  have "ReadValue t (reading d (value_bytes fmt_v t v @ cells_bytes fmt_v ts vs @ s)) =
    (wire_norm fmt_v t v, reading (d @ value_bytes fmt_v t v) (cells_bytes fmt_v ts vs @ s))"
    using Cons.hyps by (intro read_Value) simp_all
  then show ?case using Cons.IH[of "d @ value_bytes fmt_v t v"] by (simp add: cells_bytes_def)
qed (simp add: cells_bytes_def)

text \<open>A block of rows.\<close>

definition rows_ok :: "(gval \<Rightarrow> string) \<Rightarrow> column_type list \<Rightarrow> gval list list \<Rightarrow> bool" where
  "rows_ok fmt_v types rows \<longleftrightarrow>
     fits32 (length rows) \<and> (\<forall>row\<in>set rows. cells_ok fmt_v types (row_cells (length types) row))"

definition rows_bytes :: "(gval \<Rightarrow> string) \<Rightarrow> column_type list \<Rightarrow> gval list list \<Rightarrow> byte list" where
  "rows_bytes fmt_v types rows =
     concat (map (\<lambda>row. cells_bytes fmt_v types (row_cells (length types) row)) rows)"

definition rows_norm :: "(gval \<Rightarrow> string) \<Rightarrow> column_type list \<Rightarrow> gval list list \<Rightarrow> gval list list" where
  "rows_norm fmt_v types rows =
     map (\<lambda>row. map2 (wire_norm fmt_v) types (row_cells (length types) row)) rows"

lemma write_rows_bytes:
  assumes "\<forall>row\<in>set rows. cells_ok fmt_v types (row_cells (length types) row)"
  shows "write_rows fmt_v types (length types) rows w =
    Some (None, w\<lparr>out_buf := out_buf w @ rows_bytes fmt_v types rows\<rparr>)"
  using assms
  by (induction rows arbitrary: w) (simp_all add: write_row_bytes rows_bytes_def)

lemma read_rows_bytes:
  assumes "\<forall>row\<in>set rows. cells_ok fmt_v types (row_cells (length types) row)"
  shows "read_rows types (length rows) (reading d (rows_bytes fmt_v types rows @ s)) =
    (rows_norm fmt_v types rows, reading (d @ rows_bytes fmt_v types rows) s)"
  using assms
proof (induction rows arbitrary: d)
  case (Cons row rows)
  have "read_row types (reading d (cells_bytes fmt_v types (row_cells (length types) row) @
        rows_bytes fmt_v types rows @ s)) =
      (map2 (wire_norm fmt_v) types (row_cells (length types) row),
       reading (d @ cells_bytes fmt_v types (row_cells (length types) row)) (rows_bytes fmt_v types rows @ s))"
    using Cons.prems by (intro read_row_bytes) simp
  then show ?case using Cons by (simp add: rows_bytes_def rows_norm_def Err_def)
qed (simp add: rows_bytes_def rows_norm_def)

lemma read_simple_rows:
  assumes "rows_ok fmt_v (Types m) rows"
  shows "readRowSetSimple m (reading d (written (WriteInt (word_of_nat (length rows))) @
      rows_bytes fmt_v (Types m) rows @ s)) =
    (zero_rows\<lparr>Rows := rows_norm fmt_v (Types m) rows\<rparr>,
     reading (d @ written (WriteInt (word_of_nat (length rows))) @ rows_bytes fmt_v (Types m) rows) s)"
  using assms read_rows_bytes[of rows fmt_v "Types m" "d @ written (WriteInt (word_of_nat (length rows)))" s]
  by (simp add: readRowSetSimple_def read_Int Err_def sint_fits32 rows_ok_def)

section \<open>Messages whose rows travel in both directions\<close>

text \<open>
  BATCH and SETSESSIONATTR requests have the layout of the BATCH response: what the client encodes,
  the decoder for that layout reads back.
\<close>

definition batch_ok :: "(gval \<Rightarrow> string) \<Rightarrow> message \<Rightarrow> metadata \<Rightarrow> bool" where
  "batch_ok fmt_v r m \<longleftrightarrow> Meta r = Some m \<and> meta_ok m \<and>
     sint (ColumnCount m) = int (length (Types m)) \<and> Types (meta_norm m) = Types m \<and>
     rows_ok fmt_v (Types m) (BatchRows r)"

lemma batch_bytes:
  assumes "batch_ok fmt_v r m"
    and "Mode r = ModeBatchExecDirect \<or> Mode r = ModeBatchExecute \<or> Mode r = ModeSetSessionAttr"
  obtains mw where "writeMetadata (Some m) NewRowOutput = Some mw"
    and "EncodePayload fmt_v r NewRowOutput = Some (None, \<lparr>out_buf =
      written (WriteInt (UpdateCount r)) @ written (WriteInt (FetchSize r)) @ written (WriteLong (StatementID r)) @
      written (WriteShort (QueryTimeout r)) @ out_buf mw @
      written (WriteInt (word_of_nat (length (BatchRows r)))) @ rows_bytes fmt_v (Types m) (BatchRows r)\<rparr>)"
proof -
  obtain mw where mw: "writeMetadata (Some m) NewRowOutput = Some mw"
    using read_Metadata[of m] assms(1) by (auto simp: batch_ok_def)
  have n: "nat (sint (ColumnCount m)) = length (Types m)" using assms(1) by (simp add: batch_ok_def)
  have sr: "writeSimpleRows fmt_v r w = Some (None, w\<lparr>out_buf := out_buf w @
      written (WriteInt (word_of_nat (length (BatchRows r)))) @ rows_bytes fmt_v (Types m) (BatchRows r)\<rparr>)" for w
    using assms(1) n by (simp add: writeSimpleRows_def batch_ok_def rows_ok_def write_rows_bytes)
      (intro row_output_eqI, simp add: writes)
  have "EncodePayload fmt_v r NewRowOutput = Some (None, \<lparr>out_buf =
      written (WriteInt (UpdateCount r)) @ written (WriteInt (FetchSize r)) @ written (WriteLong (StatementID r)) @
      written (WriteShort (QueryTimeout r)) @ out_buf mw @
      written (WriteInt (word_of_nat (length (BatchRows r)))) @ rows_bytes fmt_v (Types m) (BatchRows r)\<rparr>)"
    using assms sr
    by (auto simp: EncodePayload_def batch_ok_def append_metadata[of "Some m" "WriteShort _ _"] mw writes)
  then show ?thesis using that mw by blast
qed

lemma read_batch_bytes:
  assumes "batch_ok fmt_v r m" "writeMetadata (Some m) NewRowOutput = Some mw"
  shows "read_batch z (reading d (written (WriteInt (UpdateCount r)) @ written (WriteInt (FetchSize r)) @
      written (WriteLong (StatementID r)) @ written (WriteShort (QueryTimeout r)) @ out_buf mw @
      written (WriteInt (word_of_nat (length (BatchRows r)))) @ rows_bytes fmt_v (Types m) (BatchRows r))) =
    Some (z\<lparr>UpdateCount := UpdateCount r, FetchSize := FetchSize r, StatementID := StatementID r,
      QueryTimeout := QueryTimeout r, Meta := Some (meta_norm m),
      RowSet := Some (zero_rows\<lparr>Rows := rows_norm fmt_v (Types m) (BatchRows r)\<rparr>)\<rparr>,
     reading (d @ written (WriteInt (UpdateCount r)) @ written (WriteInt (FetchSize r)) @
      written (WriteLong (StatementID r)) @ written (WriteShort (QueryTimeout r)) @ out_buf mw @
      written (WriteInt (word_of_nat (length (BatchRows r)))) @ rows_bytes fmt_v (Types m) (BatchRows r)) [])"
proof -
  have rm: "readMetadata (reading d (out_buf mw @ s)) = Some (meta_norm m, reading (d @ out_buf mw) s)" for d s
    using read_Metadata[of m] assms by (auto simp: batch_ok_def)
  have t: "Types (meta_norm m) = Types m" and ok: "rows_ok fmt_v (Types m) (BatchRows r)"
    using assms(1) by (simp_all add: batch_ok_def)
  have rr: "readRowSetSimple (meta_norm m) (reading d (written (WriteInt (word_of_nat (length (BatchRows r)))) @
      rows_bytes fmt_v (Types m) (BatchRows r))) =
    (zero_rows\<lparr>Rows := rows_norm fmt_v (Types m) (BatchRows r)\<rparr>,
     reading (d @ written (WriteInt (word_of_nat (length (BatchRows r)))) @ rows_bytes fmt_v (Types m) (BatchRows r)) [])"
    for d
    using read_simple_rows[of fmt_v "meta_norm m" "BatchRows r" d "[]"] ok by (simp add: t)
  show ?thesis
    by (simp add: read_batch_def read_simple_tail_def read_Int read_Long read_Short rm rr)
qed

text \<open>A SETSESSIONATTR request is decoded, with the decoder for the server's answer of the same
  layout, to its header, metadata and rows of values.\<close>

theorem session_attr_roundtrip:
  assumes "batch_ok fmt_v r m" "Mode r = ModeSetSessionAttr"
  shows "\<exists>w. EncodePayload fmt_v r NewRowOutput = Some (None, w) \<and>
    DecodeResult ModeSetSessionAttr (out_buf w) = Some (Inr ((NewResult ModeSetSessionAttr)\<lparr>
      UpdateCount := UpdateCount r, FetchSize := FetchSize r, StatementID := StatementID r,
      QueryTimeout := QueryTimeout r, Meta := Some (meta_norm m),
      RowSet := Some (zero_rows\<lparr>Rows := rows_norm fmt_v (Types m) (BatchRows r)\<rparr>)\<rparr>))"
proof -
  obtain mw where mw: "writeMetadata (Some m) NewRowOutput = Some mw"
    and enc: "EncodePayload fmt_v r NewRowOutput = Some (None, \<lparr>out_buf =
      written (WriteInt (UpdateCount r)) @ written (WriteInt (FetchSize r)) @ written (WriteLong (StatementID r)) @
      written (WriteShort (QueryTimeout r)) @ out_buf mw @
      written (WriteInt (word_of_nat (length (BatchRows r)))) @ rows_bytes fmt_v (Types m) (BatchRows r)\<rparr>)"
    using batch_bytes[OF assms(1)] assms(2) by metis
  show ?thesis
    unfolding enc
    using read_batch_bytes[OF assms(1) mw, of "NewResult ModeSetSessionAttr" "[]"]
    by (simp add: DecodeResult_def decode_fields_def reading_New Err_def written_Int)
qed

text \<open>The session-attribute request satisfies these conditions for every attribute value.\<close>

lemma fits_string_Nil [simp]: "fits_string ''''"
  by (simp add: fits_string_def fits32_def encodeModifiedUTF8_def range_runes_def bytes_of_string_def)

lemma to_valid_Nil [simp]: "to_valid [] = []"
  by (simp add: to_valid_def range_runes_def bytes_of_string_def string_of_runes_def string_of_bytes_def)

definition attr_row :: "i32 \<Rightarrow> i32 option \<Rightarrow> bool option \<Rightarrow> string option \<Rightarrow> gval list" where
  "attr_row attrID intVal boolVal strVal =
     [VInt64 (scast attrID), (case intVal of Some v \<Rightarrow> VInt64 (scast v) | None \<Rightarrow> VNil),
      (case boolVal of Some v \<Rightarrow> VBool v | None \<Rightarrow> VNil),
      (case strVal of Some v \<Rightarrow> VString v | None \<Rightarrow> VNil)]"

lemma NewSessionAttrRequest_row:
  "BatchRows (NewSessionAttrRequest a i b s) = [attr_row a i b s]"
  "Meta (NewSessionAttrRequest a i b s) = Some SessionAttrMetadata"
  "Mode (NewSessionAttrRequest a i b s) = ModeSetSessionAttr"
  by (simp_all add: NewSessionAttrRequest_def attr_row_def NewResult_def)

lemma meta_ok_session_attr: "meta_ok SessionAttrMetadata"
  by (simp add: meta_ok_def SessionAttrMetadata_def zero_meta_def zero_column_def column_fits_def Let_def)

lemma meta_norm_session_attr: "meta_norm SessionAttrMetadata = SessionAttrMetadata"
  by (simp add: meta_norm_def SessionAttrMetadata_def zero_meta_def zero_column_def column_norm_def
      full_type_def type_of_code_def IsArray_def Let_def)

lemma Types_session_attr:
  "Types SessionAttrMetadata = map type_of_code [SQLInteger, SQLInteger, SQLBoolean, SQLVarchar]"
  by (simp add: SessionAttrMetadata_def Let_def)

lemma row_cells_all: "length row = n \<Longrightarrow> row_cells n row = row"
  by (auto simp: row_cells_def intro: nth_equalityI)

lemma sint_scast32: "sint (scast (x :: i32) :: i64) = sint x"
  by (rule sint_up_scast) (simp add: is_up)

lemma native_attr:
  "native (type_of_code SQLInteger) (VInt64 (scast (x :: i32)))" "native (type_of_code t) VNil"
  "native (type_of_code SQLBoolean) (VBool v)"
  using sint_lt[of x] sint_ge[of x]
  by (simp_all add: native.simps native_scalar_def type_of_code_def in_int32_def sint_scast32)

lemma string_attr:
  "fits_string x \<Longrightarrow> value_error fmt_v (type_of_code SQLVarchar) (VString x) = None \<and>
     wire_fits fmt_v (type_of_code SQLVarchar) (VString x)"
  "wire_norm fmt_v (type_of_code SQLVarchar) (VString x) = VString (to_valid x)"
  by (simp_all add: value_scalar type_of_code_def scalar_error_def write_scalar_def wire_fits.simps
      scalar_fits_def fits_string_def asString_def wire_norm.simps scalar_norm_def)

lemma attr_cells:
  assumes "case strVal of None \<Rightarrow> True | Some x \<Rightarrow> fits_string x"
  shows "cells_ok fmt_v (map type_of_code [SQLInteger, SQLInteger, SQLBoolean, SQLVarchar])
      (attr_row a intVal boolVal strVal)"
    and "map2 (wire_norm fmt_v) (map type_of_code [SQLInteger, SQLInteger, SQLBoolean, SQLVarchar])
      (attr_row a intVal boolVal strVal) = attr_row a intVal boolVal (map_option to_valid strVal)"
proof -
  have nil: "value_error fmt_v t VNil = None \<and> wire_fits fmt_v t VNil \<and> wire_norm fmt_v t VNil = VNil" for t
    by (simp add: wire_fits.simps wire_norm.simps)
  note n = native_attr[THEN native_ok, of fmt_v]
  show "cells_ok fmt_v (map type_of_code [SQLInteger, SQLInteger, SQLBoolean, SQLVarchar])
      (attr_row a intVal boolVal strVal)"
    using assms n nil string_attr(1)
    by (simp add: cells_ok_def attr_row_def split: option.splits)
  show "map2 (wire_norm fmt_v) (map type_of_code [SQLInteger, SQLInteger, SQLBoolean, SQLVarchar])
      (attr_row a intVal boolVal strVal) = attr_row a intVal boolVal (map_option to_valid strVal)"
    using n nil string_attr(2)
    by (simp add: attr_row_def split: option.splits)
qed

lemma batch_ok_session_attr:
  assumes "case strVal of None \<Rightarrow> True | Some x \<Rightarrow> fits_string x"
  shows "batch_ok fmt_v (NewSessionAttrRequest a intVal boolVal strVal) SessionAttrMetadata"
  using attr_cells(1)[OF assms]
  by (simp add: batch_ok_def NewSessionAttrRequest_row meta_ok_session_attr meta_norm_session_attr
      Types_session_attr rows_ok_def fits32_def row_cells_all)
    (simp add: SessionAttrMetadata_def attr_row_def row_cells_all Let_def)?

theorem session_attr_roundtrip_witness:
  "\<exists>w. EncodePayload (\<lambda>_. '''') (NewSessionAttrRequest 1 None (Some False) None) NewRowOutput = Some (None, w) \<and>
    DecodeResult ModeSetSessionAttr (out_buf w) = Some (Inr ((NewResult ModeSetSessionAttr)\<lparr>
      UpdateCount := 0, FetchSize := 0, StatementID := 0, QueryTimeout := 0, Meta := Some SessionAttrMetadata,
      RowSet := Some (zero_rows\<lparr>Rows := [[VInt64 1, VNil, VBool False, VNil]]\<rparr>)\<rparr>))"
proof -
  let ?r = "NewSessionAttrRequest 1 None (Some False) None"
  have ok: "batch_ok (\<lambda>_. '''') ?r SessionAttrMetadata" by (rule batch_ok_session_attr) simp
  have f: "UpdateCount ?r = 0" "FetchSize ?r = 0" "StatementID ?r = 0" "QueryTimeout ?r = 0"
    by (simp_all add: NewSessionAttrRequest_def NewResult_def)
  have "rows_norm (\<lambda>_. '''') (Types SessionAttrMetadata) (BatchRows ?r) = [[VInt64 1, VNil, VBool False, VNil]]"
    using attr_cells(2)[of None "\<lambda>_. ''''" 1 None "Some False"]
    by (simp add: rows_norm_def NewSessionAttrRequest_row Types_session_attr row_cells_all attr_row_def)
  then show ?thesis
    using session_attr_roundtrip[OF ok] by (simp add: NewSessionAttrRequest_row f meta_norm_session_attr)
qed

section \<open>Counts that do not fit the data\<close>

text \<open>A negative column count makes the decoder panic instead of reporting an error.\<close>

theorem negative_count_panics:
  assumes "sint cc < 0" "mt \<in> {MetaResult, MetaSimpleResult, MetaUpdateResult, MetaParam, MetaGeneratedIdx, MetaGeneratedName}"
  shows "readMetadata (NewRowInput (written (WriteInt mt) @ written (WriteInt cc) @ s)) = None"
proof -
  have "made_len cc = None" using assms(1) by (simp add: made_len_def)
  then show ?thesis using assms(2)
    by (auto simp: readMetadata_def reading_New read_Int Err_def Let_def case_prod_beta Option.bind_eq_None_conv)
qed

text \<open>RESULT metadata that ends after a positive column count makes it panic as well, so a
  truncated DATA frame is not reported as an error.\<close>

theorem truncated_metadata_panics:
  assumes "0 < sint cc"
  shows "readMetadata (NewRowInput (written (WriteInt MetaResult) @ written (WriteInt cc))) = None"
proof -
  have short: "ReadInt (reading d []) = (0, (reading d [])\<lparr>in_err := Some ErrShortBuffer\<rparr>)" for d
    by (simp add: ReadInt_def need_def)
  have "made_len 0 = Some 0" "made_len cc = Some (nat (sint cc))" "0 < nat (sint cc)"
    using assms by (simp_all add: made_len_def)
  moreover have "ReadInt (reading d (written (WriteInt v))) = (v, reading (d @ written (WriteInt v)) [])" for d v
    using read_Int[of d v "[]"] by simp
  ultimately show ?thesis by (simp add: readMetadata_def reading_New read_Int Err_def short)
qed

theorem truncated_metadata_panics_witness:
  "readMetadata (NewRowInput (written (WriteInt MetaResult) @ written (WriteInt 3))) = None"
  by (rule truncated_metadata_panics) simp

theorem negative_count_panics_witness:
  "readMetadata (NewRowInput (written (WriteInt MetaParam) @ written (WriteInt (-1)) @ [])) = None"
  by (rule negative_count_panics) simp_all

section \<open>Errors and generated keys\<close>

text \<open>The payload of an ERROR message is decoded to its text, SQLState and code.\<close>

theorem decode_error_message:
  assumes "fits_string msg" "fits_string state"
  shows "DecodeResult ModeError (written (WriteString msg) @ written (WriteString state) @ written (WriteInt code)) =
    Some (Inr ((NewResult ModeError)\<lparr>MessageText := to_valid msg, SQLState := to_valid state, ErrorCode := code\<rparr>))"
proof -
  have e: "ReadInt (reading d (written (WriteInt code))) = (code, reading (d @ written (WriteInt code)) [])" for d
    using read_Int[of d code "[]"] by simp
  show ?thesis
    using assms
    by (simp add: DecodeResult_def decode_fields_def reading_New read_String e fits_string_def Err_def)
qed

theorem decode_error_message_witness:
  "DecodeResult ModeError (written (WriteString '''') @ written (WriteString '''') @ written (WriteInt (-5501))) =
    Some (Inr ((NewResult ModeError)\<lparr>MessageText := to_valid '''', SQLState := to_valid '''', ErrorCode := -5501\<rparr>))"
  by (rule decode_error_message) simp_all

text \<open>The key that one chained message carries, if any.\<close>

definition key_of :: "message \<Rightarrow> i64 option" where
  "key_of c =
     (if Mode c = ModeGenerated then
        (case RowSet c of
           Some rs \<Rightarrow> (case Rows rs of (VInt64 v # _) # _ \<Rightarrow> Some v | _ \<Rightarrow> None)
         | None \<Rightarrow> None)
      else None)"

text \<open>The generated key is that of the first chained message that carries an int64 key.\<close>

theorem generated_key_first:
  "GeneratedKey r = (case List.map_filter key_of (Chained r) of [] \<Rightarrow> None | k # _ \<Rightarrow> Some k)"
proof -
  have "generated_key cs = (case List.map_filter key_of cs of [] \<Rightarrow> None | k # _ \<Rightarrow> Some k)" for cs
  proof (induction cs)
    case (Cons c cs)
    then show ?case
      by (auto simp: key_of_def split: option.splits list.splits gval.splits)
  qed simp
  then show ?thesis by (simp add: GeneratedKey_def)
qed

end
