(* ===== verification/Frames.thy ===== *)
theory Frames
  imports MessageCodec
begin

unbundle bit_operations_syntax

text \<open>
  The socket as the driver sees it and the framing of \<^verbatim>\<open>internal/proto/frame.go\<close>: the buffered writer,
  the buffered reader, one frame, the terminator.
\<close>

section \<open>The socket\<close>

text \<open>
  \<open>pend\<close> is what the \<^verbatim>\<open>bufio.Writer\<close> has accepted and not handed over, \<open>werr\<close> its sticky error, \<open>inp\<close> the
  bytes that have arrived and have not been read, \<open>inp_end\<close> what a read returns when they run out,
  and \<open>sent\<close> everything handed over so far.  The peer is code elsewhere: a parameter \<open>srv\<close> that takes the
  flushed bytes and either fails the write or answers with bytes and what follows them.  A write that
  overflows the 4096-byte buffer flushes a part early; here everything goes out with the next flush.
  \<open>shut\<close> tells whether the driver has closed the socket, \<open>shut_err\<close> is what closing it returns.
\<close>

record 'p net =
  peer :: 'p
  pend :: "byte list"
  werr :: "go_error option"
  inp :: "byte list"
  inp_end :: go_error
  sent :: "byte list"
  shut :: bool
  shut_err :: "go_error option"

type_synonym 'p server = "'p \<Rightarrow> byte list \<Rightarrow> 'p \<times> (go_error + byte list \<times> go_error)"

definition bw_write :: "byte list \<Rightarrow> 'p net \<Rightarrow> go_error option \<times> 'p net" where
  "bw_write bs n = (case werr n of
      Some e \<Rightarrow> (Some e, n)
    | None \<Rightarrow> (None, n\<lparr>pend := pend n @ bs\<rparr>))"

definition bw_flush :: "'p server \<Rightarrow> 'p net \<Rightarrow> go_error option \<times> 'p net" where
  "bw_flush srv n = (case werr n of
      Some e \<Rightarrow> (Some e, n)
    | None \<Rightarrow>
        if pend n = [] then (None, n)
        else case srv (peer n) (pend n) of
          (p, Inl e) \<Rightarrow> (Some e, n\<lparr>peer := p, werr := Some e\<rparr>)
        | (p, Inr (bs, e)) \<Rightarrow>
            (None, n\<lparr>peer := p, sent := sent n @ pend n, pend := [], inp := inp n @ bs, inp_end := e\<rparr>))"

text \<open>\<^verbatim>\<open>net.Conn.Close\<close>: the socket is gone, whatever closing it returns.\<close>

definition net_close :: "'p net \<Rightarrow> go_error option \<times> 'p net" where
  "net_close n = (shut_err n, n\<lparr>shut := True\<rparr>)"

definition br_byte :: "'p net \<Rightarrow> byte go_result \<times> 'p net" where
  "br_byte n = (case inp n of
      [] \<Rightarrow> (Inl (inp_end n), n)
    | b # bs \<Rightarrow> (Inr b, n\<lparr>inp := bs\<rparr>))"

text \<open>\<^verbatim>\<open>io.ReadFull\<close>: a partial read ends in \<^verbatim>\<open>io.ErrUnexpectedEOF\<close> instead of \<^verbatim>\<open>io.EOF\<close>.\<close>

definition read_full :: "nat \<Rightarrow> 'p net \<Rightarrow> byte list go_result \<times> 'p net" where
  "read_full k n =
     (if k \<le> length (inp n) then (Inr (take k (inp n)), n\<lparr>inp := drop k (inp n)\<rparr>)
      else (Inl (if inp n \<noteq> [] \<and> inp_end n = EOF then ErrUnexpectedEOF else inp_end n), n\<lparr>inp := []\<rparr>))"

section \<open>Frames\<close>

definition int32_bytes :: "i32 \<Rightarrow> byte list" where
  "int32_bytes v = [ucast (signed_drop_bit 24 v), ucast (signed_drop_bit 16 v),
     ucast (signed_drop_bit 8 v), ucast v]"

definition WriteFrame :: "byte \<Rightarrow> byte list \<Rightarrow> 'p net \<Rightarrow> go_error option \<times> 'p net" where
  "WriteFrame mode payload n =
     (let (err, n) = bw_write [mode] n in
      if err \<noteq> None then (err, n)
      else
        let (err, n) = bw_write (int32_bytes (word_of_nat (4 + length payload))) n in
        if err \<noteq> None then (err, n)
        else
          let (err, n) = bw_write payload n in
          if err \<noteq> None then (err, n) else (None, n))"

definition WriteTerminator :: "'p net \<Rightarrow> go_error option \<times> 'p net" where
  "WriteTerminator n = bw_write [ModeNone] n"

definition readInt32 :: "'p net \<Rightarrow> i32 go_result \<times> 'p net" where
  "readInt32 n =
     (let (res, n) = read_full 4 n in
      case res of
        Inl e \<Rightarrow> (Inl e, n)
      | Inr b \<Rightarrow>
          (Inr (push_bit 24 (ucast (b ! 0)) OR (push_bit 16 (ucast (b ! 1)) OR
             (push_bit 8 (ucast (b ! 2)) OR ucast (b ! 3)))), n))"

text \<open>The result is the mode with the payload; the terminator comes as \<open>ModeNone\<close> with no payload.\<close>

definition ReadFrame :: "'p net \<Rightarrow> (byte \<times> byte list) go_result \<times> 'p net" where
  "ReadFrame n =
     (let (mb, n) = br_byte n in
      case mb of
        Inl e \<Rightarrow> (Inl e, n)
      | Inr mode \<Rightarrow>
          if mode = ModeNone then (Inr (ModeNone, []), n)
          else
            let (len, n) = readInt32 n in
            case len of
              Inl e \<Rightarrow> (Inl e, n)
            | Inr len \<Rightarrow>
                if len <s 4 then (Inl (Errorf ''hsql/proto: invalid frame length''), n)
                else
                  let (payload, n) = read_full (nat (sint len - 4)) n in
                  case payload of
                    Inl e \<Rightarrow> (Inl e, n)
                  | Inr payload \<Rightarrow> (Inr (mode, payload), n))"

section \<open>What is written and what is read\<close>

definition frame_bytes :: "byte \<Rightarrow> byte list \<Rightarrow> byte list" where
  "frame_bytes mode payload = mode # int32_bytes (word_of_nat (4 + length payload)) @ payload"

lemma int32_bytes_written: "int32_bytes v = written (WriteInt v)"
  by (simp add: int32_bytes_def written_def WriteInt_def NewRowOutput_def)

lemma length_int32_bytes [simp]: "length (int32_bytes v) = 4"
  by (simp add: int32_bytes_def)

lemma WriteFrame_ok:
  "werr n = None \<Longrightarrow> WriteFrame mode payload n = (None, n\<lparr>pend := pend n @ frame_bytes mode payload\<rparr>)"
  by (simp add: WriteFrame_def bw_write_def frame_bytes_def)

lemma WriteFrame_err:
  "werr n = Some e \<Longrightarrow> WriteFrame mode payload n = (Some e, n)"
  by (simp add: WriteFrame_def bw_write_def)

lemma read_full_append:
  "length a = k \<Longrightarrow> read_full k (n\<lparr>inp := a @ s\<rparr>) = (Inr a, n\<lparr>inp := s\<rparr>)"
  by (simp add: read_full_def)

lemma readInt32_bytes: "readInt32 (n\<lparr>inp := int32_bytes v @ s\<rparr>) = (Inr v, n\<lparr>inp := s\<rparr>)"
proof -
  have "read_full 4 (n\<lparr>inp := int32_bytes v @ s\<rparr>) = (Inr (int32_bytes v), n\<lparr>inp := s\<rparr>)"
    by (rule read_full_append) simp
  then show ?thesis using join32[of v] by (simp add: readInt32_def) (simp add: int32_bytes_written written_Int)
qed

text \<open>A payload that an int32 frame length can describe.\<close>

definition frame_fits :: "byte list \<Rightarrow> bool" where
  "frame_fits payload \<longleftrightarrow> length payload + 4 < 2 ^ 31"

lemma ReadFrame_bytes:
  assumes "mode \<noteq> ModeNone" "frame_fits payload"
  shows "ReadFrame (n\<lparr>inp := frame_bytes mode payload @ s\<rparr>) = (Inr (mode, payload), n\<lparr>inp := s\<rparr>)"
proof -
  have len: "sint (word_of_nat (4 + length payload) :: i32) = int (4 + length payload)"
    using assms(2) by (intro sint_fits32) (simp add: fits32_def frame_fits_def)
  have ge: "\<not> (word_of_nat (4 + length payload) :: i32) <s 4"
    unfolding word_sless_alt len by simp
  have l: "nat (sint (word_of_nat (4 + length payload) :: i32) - 4) = length payload"
    unfolding len by simp
  have "readInt32 (n\<lparr>inp := int32_bytes (word_of_nat (4 + length payload)) @ payload @ s\<rparr>) =
    (Inr (word_of_nat (4 + length payload)), n\<lparr>inp := payload @ s\<rparr>)"
    by (rule readInt32_bytes)
  then show ?thesis
    using assms(1) ge l
    by (simp add: ReadFrame_def br_byte_def frame_bytes_def read_full_append del: of_nat_add)
qed

lemma ReadFrame_none: "ReadFrame (n\<lparr>inp := ModeNone # s\<rparr>) = (Inr (ModeNone, []), n\<lparr>inp := s\<rparr>)"
  by (simp add: ReadFrame_def br_byte_def)

text \<open>A frame that is written is read back, with exactly its bytes consumed from the stream.\<close>

theorem frame_roundtrip:
  assumes "mode \<noteq> ModeNone" "length payload + 4 < 2 ^ 31" "werr n = None" "pend n = []"
  shows "let (err, n') = WriteFrame mode payload n in err = None \<and>
    ReadFrame (n\<lparr>inp := pend n' @ s\<rparr>) = (Inr (mode, payload), n\<lparr>inp := s\<rparr>)"
  using assms ReadFrame_bytes[where mode = mode and payload = payload and n = n and s = s] by (simp add: WriteFrame_ok frame_fits_def)

definition idle_net :: "'p \<Rightarrow> 'p net" where
  "idle_net p = \<lparr>peer = p, pend = [], werr = None, inp = [], inp_end = EOF, sent = [], shut = False, shut_err = None\<rparr>"

theorem frame_roundtrip_witness:
  "let (err, n') = WriteFrame ModeExecDirect [1, 2, 3] (idle_net ()) in err = None \<and>
    ReadFrame ((idle_net ())\<lparr>inp := pend n' @ [0]\<rparr>) =
      (Inr (ModeExecDirect, [1, 2, 3]), (idle_net ())\<lparr>inp := [0]\<rparr>)"
  by (rule frame_roundtrip) (simp_all add: idle_net_def)

text \<open>A frame whose length field is below 4, zero and negative lengths included, is refused before
  any payload is read.\<close>

theorem short_frame_refused:
  assumes "mode \<noteq> ModeNone" "sint len < 4"
  shows "ReadFrame (n\<lparr>inp := mode # int32_bytes len @ s\<rparr>) =
    (Inl (Errorf ''hsql/proto: invalid frame length''), n\<lparr>inp := s\<rparr>)"
  using assms readInt32_bytes[where n = n and v = len and s = s]
  by (simp add: ReadFrame_def br_byte_def word_sless_alt)

theorem short_frame_refused_witness:
  "ReadFrame ((idle_net ())\<lparr>inp := ModeData # int32_bytes (-1) @ [9]\<rparr>) =
    (Inl (Errorf ''hsql/proto: invalid frame length''), (idle_net ())\<lparr>inp := [9]\<rparr>)"
  by (rule short_frame_refused) simp_all

text \<open>Reading only consumes; it writes nothing.\<close>

lemma br_byte_frame: "snd (br_byte n) = n\<lparr>inp := inp (snd (br_byte n))\<rparr>"
  "length (inp (snd (br_byte n))) \<le> length (inp n)"
  by (auto simp: br_byte_def split: list.splits)

lemma br_byte_consumes: "fst (br_byte n) = Inr b \<Longrightarrow> length (inp (snd (br_byte n))) < length (inp n)"
  by (auto simp: br_byte_def split: list.splits)

lemma read_full_frame: "snd (read_full k n) = n\<lparr>inp := inp (snd (read_full k n))\<rparr>"
  "length (inp (snd (read_full k n))) \<le> length (inp n)"
  by (auto simp: read_full_def)

lemma readInt32_frame: "snd (readInt32 n) = n\<lparr>inp := inp (snd (readInt32 n))\<rparr>"
  "length (inp (snd (readInt32 n))) \<le> length (inp n)"
  using read_full_frame[of 4 n] by (auto simp: readInt32_def Let_def case_prod_beta split: sum.splits)

text \<open>\<open>consumes n n'\<close>: \<open>n'\<close> is \<open>n\<close> with less input.\<close>

definition consumes :: "'p net \<Rightarrow> 'p net \<Rightarrow> bool" where
  "consumes n n' \<longleftrightarrow> n' = n\<lparr>inp := inp n'\<rparr> \<and> length (inp n') \<le> length (inp n)"

lemma consumes_refl: "consumes n n"
  by (simp add: consumes_def)

lemma consumes_trans: "consumes n n' \<Longrightarrow> consumes n' n'' \<Longrightarrow> consumes n n''"
  unfolding consumes_def by (cases n; cases n'; cases n'') auto

lemma consumes_byte: "br_byte n = (x, n') \<Longrightarrow> consumes n n'"
  using br_byte_frame[of n] by (simp add: consumes_def)

lemma consumes_full: "read_full k n = (x, n') \<Longrightarrow> consumes n n'"
  using read_full_frame[where k = k and n = n] by (simp add: consumes_def)

lemma consumes_int: "readInt32 n = (x, n') \<Longrightarrow> consumes n n'"
  using readInt32_frame[of n] by (simp add: consumes_def)

lemma consumes_ReadFrame:
  assumes "ReadFrame n = (x, n')"
  shows "consumes n n'"
proof -
  obtain mb n1 where b: "br_byte n = (mb, n1)" by fastforce
  obtain len n2 where l: "readInt32 n1 = (len, n2)" by fastforce
  obtain pl n3 where p: "read_full (nat (sint (projr len) - 4)) n2 = (pl, n3)" by fastforce
  have "consumes n n1" "consumes n n2" "consumes n n3"
    using consumes_byte[OF b] consumes_int[OF l] consumes_full[OF p] consumes_trans by blast+
  moreover have "n' \<in> {n1, n2, n3}"
    using assms b l p by (auto simp: ReadFrame_def split: sum.splits if_splits)
  ultimately show ?thesis by blast
qed

lemma ReadFrame_shorter:
  assumes "ReadFrame n = (Inr x, n')"
  shows "length (inp n') < length (inp n)"
proof -
  obtain b n1 where b: "br_byte n = (Inr b, n1)"
    using assms by (cases "br_byte n") (auto simp: ReadFrame_def split: sum.splits)
  then have "length (inp n1) < length (inp n)" using br_byte_consumes[of n b] by simp
  moreover have "length (inp n') \<le> length (inp n1)"
  proof -
    obtain len n2 where l: "readInt32 n1 = (len, n2)" by fastforce
    obtain pl n3 where p: "read_full (nat (sint (projr len) - 4)) n2 = (pl, n3)" by fastforce
    have "consumes n1 n2" "consumes n1 n3"
      using consumes_int[OF l] consumes_full[OF p] consumes_trans by blast+
    moreover have "n' \<in> {n1, n2, n3}"
      using assms b l p by (auto simp: ReadFrame_def split: sum.splits if_splits)
    ultimately show ?thesis by (auto simp: consumes_def)
  qed
  ultimately show ?thesis by simp
qed

end
