(* ===== verification/LobParams.thy ===== *)
theory LobParams
  imports Frames
begin

unbundle bit_operations_syntax

text \<open>
  Binding of parameters before a request is sent: \<^verbatim>\<open>array_param.go\<close> and the sending half of \<^verbatim>\<open>lob.go\<close>.
  ARRAY arguments are turned into \<^verbatim>\<open>proto.ArrayValue\<close>, BLOB and CLOB arguments into references with fresh
  temporary ids whose contents follow the request frame in the same transmission.
\<close>

section \<open>The slots of a request\<close>

text \<open>
  \<^verbatim>\<open>requestParamSlots\<close>: the parameter types and the values they are for; \<open>None\<close> is the panic of slicing
  the types with a count out of range.
\<close>

definition slice_types :: "metadata \<Rightarrow> column_type list option" where
  "slice_types m =
     (let n = sint (ColumnCount m) in
      if n < 0 \<or> int (length (Types m)) < n then None else Some (take (nat n) (Types m)))"

definition requestParamSlots :: "message \<Rightarrow> (column_type list \<times> gval list) option" where
  "requestParamSlots req =
     (if Mode req = ModeExecute then
        (case ParamMeta req of
           None \<Rightarrow> Some ([], [])
         | Some m \<Rightarrow> map_option (\<lambda>ts. (ts, ParamValues req)) (slice_types m))
      else if Mode req = ModeUpdateResult then
        (case (Meta req, BatchRows req) of
           (Some m, [row]) \<Rightarrow> map_option (\<lambda>ts. (ts, row)) (slice_types m)
         | _ \<Rightarrow> Some ([], []))
      else Some ([], []))"

text \<open>The slots are the request's own slices, so assigning to them changes the request.\<close>

definition set_slots :: "gval list \<Rightarrow> message \<Rightarrow> message" where
  "set_slots vs req =
     (if Mode req = ModeExecute then req\<lparr>ParamValues := vs\<rparr>
      else if Mode req = ModeUpdateResult then req\<lparr>BatchRows := [vs]\<rparr> else req)"

section \<open>ARRAY parameters\<close>

definition array_param :: "gval \<Rightarrow> gval go_result" where
  "array_param v = (case v of
      VArray vs \<Rightarrow> Inr (VArrayValue vs 0)
    | VArrayPtr None \<Rightarrow> Inl (Errorf ''hsql: nil ARRAY parameter'')
    | VArrayPtr (Some vs) \<Rightarrow> Inr (VArrayValue vs 0)
    | VArrayValue vs k \<Rightarrow> Inr (VArrayValue vs k)
    | _ \<Rightarrow> Inl (Errorf ''hsql: cannot bind as ARRAY''))"

fun array_params :: "column_type list \<Rightarrow> gval list \<Rightarrow> gval list go_result" where
  "array_params [] vs = Inr vs"
| "array_params ts [] = Inr []"
| "array_params (t # ts) (v # vs) =
     (case (if v = VNil \<or> Code t \<noteq> SQLArray then Inr v else array_param v) of
        Inl e \<Rightarrow> Inl e
      | Inr v \<Rightarrow> map_sum id (\<lambda>vs. v # vs) (array_params ts vs))"

definition prepareArrayParams :: "message \<Rightarrow> message go_result option" where
  "prepareArrayParams req =
     do { (types, values) \<leftarrow> requestParamSlots req;
          Some (if types = [] then Inr req
            else map_sum id (\<lambda>vs. set_slots vs req) (array_params types values)) }"

section \<open>LOB parameters\<close>

definition maxLobChunk :: nat where
  "maxLobChunk = 2 ^ 20"

record pending_lob =
  lob_id :: i64
  lob_isClob :: bool
  lob_bytes :: "byte list"
  lob_chars :: "u16 list"
  lob_blobReader :: "go_reader option"
  lob_clobReader :: "go_reader option"
  lob_length :: i64

definition zero_lob :: pending_lob where
  "zero_lob = \<lparr>lob_id = 0, lob_isClob = False, lob_bytes = [], lob_chars = [], lob_blobReader = None,
     lob_clobReader = None, lob_length = 0\<rparr>"

definition blobParam :: "gval \<Rightarrow> pending_lob go_result" where
  "blobParam v = (case v of
      VBytes x \<Rightarrow> Inr (zero_lob\<lparr>lob_bytes := x\<rparr>)
    | VString x \<Rightarrow> Inr (zero_lob\<lparr>lob_bytes := bytes_of_string x\<rparr>)
    | VBlob (Some rd) n \<Rightarrow> Inr (zero_lob\<lparr>lob_blobReader := Some rd, lob_length := n\<rparr>)
    | VBlobPtr (Some (Some rd, n)) \<Rightarrow> Inr (zero_lob\<lparr>lob_blobReader := Some rd, lob_length := n\<rparr>)
    | VBlob None n \<Rightarrow> Inl (Errorf ''hsql: nil BLOB reader'')
    | VBlobPtr _ \<Rightarrow> Inl (Errorf ''hsql: nil BLOB reader'')
    | _ \<Rightarrow> Inl (Errorf ''hsql: cannot bind as BLOB''))"

definition clobParam :: "gval \<Rightarrow> pending_lob go_result" where
  "clobParam v = (case v of
      VString x \<Rightarrow> Inr (zero_lob\<lparr>lob_isClob := True, lob_chars := utf16_encode (range_runes x)\<rparr>)
    | VBytes x \<Rightarrow>
        Inr (zero_lob\<lparr>lob_isClob := True, lob_chars := utf16_encode (range_runes (string_of_bytes x))\<rparr>)
    | VClob (Some rd) n \<Rightarrow> Inr (zero_lob\<lparr>lob_isClob := True, lob_clobReader := Some rd, lob_length := n\<rparr>)
    | VClobPtr (Some (Some rd, n)) \<Rightarrow>
        Inr (zero_lob\<lparr>lob_isClob := True, lob_clobReader := Some rd, lob_length := n\<rparr>)
    | VClob None n \<Rightarrow> Inl (Errorf ''hsql: nil CLOB reader'')
    | VClobPtr _ \<Rightarrow> Inl (Errorf ''hsql: nil CLOB reader'')
    | _ \<Rightarrow> Inl (Errorf ''hsql: cannot bind as CLOB''))"

text \<open>
  The loop of \<^verbatim>\<open>prepareLobParams\<close>.  The state is the connection's next temporary id, which
  \<^verbatim>\<open>nextLobID\<close> hands out downwards.
\<close>

definition nextLobID :: "i64 \<Rightarrow> i64 \<times> i64" where
  "nextLobID seq = (seq, seq - 1)"

definition is_lob_ref :: "gval \<Rightarrow> bool" where
  "is_lob_ref v = (case v of VLobRef _ _ \<Rightarrow> True | _ \<Rightarrow> False)"

fun lob_params :: "column_type list \<Rightarrow> gval list \<Rightarrow> i64 \<Rightarrow> (gval list \<times> pending_lob list) go_result \<times> i64" where
  "lob_params [] vs seq = (Inr (vs, []), seq)"
| "lob_params ts [] seq = (Inr ([], []), seq)"
| "lob_params (t # ts) (v # vs) seq =
     (if v = VNil \<or> (Code t \<noteq> SQLBlob \<and> Code t \<noteq> SQLClob) \<or> is_lob_ref v then
        (case lob_params ts vs seq of
           (Inl e, seq) \<Rightarrow> (Inl e, seq)
         | (Inr (vs, lobs), seq) \<Rightarrow> (Inr (v # vs, lobs), seq))
      else
        (case (if Code t = SQLBlob then blobParam v else clobParam v) of
           Inl e \<Rightarrow> (Inl e, seq)
         | Inr lob \<Rightarrow>
             (let (i, seq) = nextLobID seq in
              case lob_params ts vs seq of
                (Inl e, seq) \<Rightarrow> (Inl e, seq)
              | (Inr (vs, lobs), seq) \<Rightarrow>
                  (Inr (VLobRef i (Code t = SQLClob) # vs, lob\<lparr>lob_id := i\<rparr> # lobs), seq))))"

definition prepareLobParams ::
    "message \<Rightarrow> i64 \<Rightarrow> ((message \<times> pending_lob list) go_result \<times> i64) option" where
  "prepareLobParams req seq =
     do { (types, values) \<leftarrow> requestParamSlots req;
          Some (if types = [] then (Inr (req, []), seq)
            else case lob_params types values seq of
              (Inl e, seq) \<Rightarrow> (Inl e, seq)
            | (Inr (vs, lobs), seq) \<Rightarrow> (Inr (set_slots vs req, lobs), seq)) }"

section \<open>Sending the contents\<close>

definition int64_bytes :: "i64 \<Rightarrow> byte list" where
  "int64_bytes v = map (\<lambda>k. ucast (drop_bit k v)) [56, 48, 40, 32, 24, 16, 8, 0]"

definition utf16_bytes :: "u16 list \<Rightarrow> byte list" where
  "utf16_bytes cs = concat (map (\<lambda>c. [ucast (drop_bit 8 c), ucast c]) cs)"

text \<open>\<^verbatim>\<open>writeI32\<close> and \<^verbatim>\<open>writeI64\<close> ignore the error, which the writer keeps for the next call.\<close>

definition writeI32 :: "i32 \<Rightarrow> 'p net \<Rightarrow> 'p net" where
  "writeI32 v n = snd (bw_write (int32_bytes v) n)"

definition writeI64 :: "i64 \<Rightarrow> 'p net \<Rightarrow> 'p net" where
  "writeI64 v n = snd (bw_write (int64_bytes v) n)"

definition writeUTF16 :: "u16 list \<Rightarrow> 'p net \<Rightarrow> go_error option \<times> 'p net" where
  "writeUTF16 cs n = bw_write (utf16_bytes cs) n"

text \<open>The session's database and session ids, which every LOB frame carries.\<close>

type_synonym lob_session = "i32 \<times> i64"

definition writeLobHeader :: "lob_session \<Rightarrow> i32 \<Rightarrow> i64 \<Rightarrow> 'p net \<Rightarrow> 'p net" where
  "writeLobHeader s subType i n =
     writeI32 subType (writeI64 i (writeI64 (snd s) (writeI32 (fst s)
       (snd (bw_write [ModeLargeObjectOp] n)))))"

definition writeLobBytesFrame ::
    "lob_session \<Rightarrow> i32 \<Rightarrow> i64 \<Rightarrow> i64 \<Rightarrow> byte list \<Rightarrow> 'p net \<Rightarrow> go_error option \<times> 'p net" where
  "writeLobBytesFrame s subType i off b n =
     bw_write b (writeI64 (word_of_nat (length b)) (writeI64 off (writeLobHeader s subType i n)))"

definition writeLobCharsFrame ::
    "lob_session \<Rightarrow> i32 \<Rightarrow> i64 \<Rightarrow> i64 \<Rightarrow> u16 list \<Rightarrow> 'p net \<Rightarrow> go_error option \<times> 'p net" where
  "writeLobCharsFrame s subType i off cs n =
     writeUTF16 cs (writeI64 (word_of_nat (length cs)) (writeI64 off (writeLobHeader s subType i n)))"

abbreviation LobReqGetBytes :: i32 where "LobReqGetBytes \<equiv> 1"
abbreviation LobReqSetBytes :: i32 where "LobReqSetBytes \<equiv> 2"
abbreviation LobReqGetChars :: i32 where "LobReqGetChars \<equiv> 3"
abbreviation LobReqSetChars :: i32 where "LobReqSetChars \<equiv> 4"
abbreviation LobReqCreateBytes :: i32 where "LobReqCreateBytes \<equiv> 7"
abbreviation LobReqCreateChars :: i32 where "LobReqCreateChars \<equiv> 8"
abbreviation LobReqGetLength :: i32 where "LobReqGetLength \<equiv> 10"

text \<open>
  \<^verbatim>\<open>io.CopyN(w, r, n)\<close>: the bytes copied and the error, which is EOF when the reader ends early; an
  error that comes with the last byte is dropped.
\<close>

fun copyN :: "nat \<Rightarrow> go_reader \<Rightarrow> byte list \<times> go_error option" where
  "copyN n [] = ([], if n = 0 then None else Some EOF)"
| "copyN n ((b, e) # rd) =
     (if n = 0 then ([], None)
      else if n \<le> length b then (take n b, None)
      else case e of
        Some e \<Rightarrow> (b, Some e)
      | None \<Rightarrow> (let (bs, e) = copyN (n - length b) rd in (b @ bs, e)))"

text \<open>The loop over the reads of a BLOB of unknown length.\<close>

fun blob_chunks ::
    "lob_session \<Rightarrow> i64 \<Rightarrow> go_reader \<Rightarrow> i64 \<Rightarrow> bool \<Rightarrow> 'p net \<Rightarrow> go_error option \<times> bool \<times> 'p net" where
  "blob_chunks s i [] off first n = (None, first, n)"
| "blob_chunks s i ((b, e) # rd) off first n =
     (let (werr, first, off, n) =
        (if length b > 0 then
           let (werr, n) = writeLobBytesFrame s (if first then LobReqCreateBytes else LobReqSetBytes) i off b n
           in (werr, False, off + word_of_nat (length b), n)
         else (None, first, off, n))
      in if werr \<noteq> None then (werr, first, n)
         else case e of
           None \<Rightarrow> blob_chunks s i rd off first n
         | Some e \<Rightarrow> (if e = EOF then (None, first, n) else (Some e, first, n)))"

definition writeLobCreateBytesFromReader ::
    "lob_session \<Rightarrow> pending_lob \<Rightarrow> go_reader \<Rightarrow> 'p net \<Rightarrow> go_error option \<times> 'p net" where
  "writeLobCreateBytesFromReader s lob rd n =
     (if 0 \<le>s lob_length lob then
        let n = writeI64 (lob_length lob) (writeI64 0 (writeLobHeader s LobReqCreateBytes (lob_id lob) n));
            (bs, e) = copyN (nat (sint (lob_length lob))) rd;
            (werr, n) = bw_write bs n
        in (if lob_length lob = 0 then None else if werr \<noteq> None then werr else e, n)
      else
        let (err, first, n) = blob_chunks s (lob_id lob) rd 0 True n in
        if err \<noteq> None then (err, n)
        else if first then writeLobBytesFrame s LobReqCreateBytes (lob_id lob) 0 [] n
        else (None, n))"

text \<open>
  \<^verbatim>\<open>bufio.Reader.ReadRune\<close> decodes the bytes of all reads up to the first error, which comes after the
  last rune.
\<close>

fun reader_all :: "go_reader \<Rightarrow> byte list \<times> go_error" where
  "reader_all [] = ([], EOF)"
| "reader_all ((b, e) # rd) =
     (case e of
        Some e \<Rightarrow> (b, e)
      | None \<Rightarrow> (let (bs, e) = reader_all rd in (b @ bs, e)))"

definition reader_runes :: "go_reader \<Rightarrow> rune list \<times> go_error" where
  "reader_runes rd = (let (bs, e) = reader_all rd in (decode_utf8 bs, e))"

definition units_of :: "rune \<Rightarrow> nat" where
  "units_of r = (if 0xffff <s r then 2 else 1)"

text \<open>The loop of \<^verbatim>\<open>readUTF16Chunk\<close>: the runes taken, whether the stream ran out, and the rest.\<close>

fun take_units :: "nat \<Rightarrow> rune list \<Rightarrow> rune list \<times> bool \<times> rune list" where
  "take_units room rs =
     (if room = 0 then ([], False, rs)
      else case rs of
        [] \<Rightarrow> ([], True, [])
      | r # rs' \<Rightarrow>
          if room < units_of r then ([], False, rs)
          else let (a, out, rest) = take_units (room - units_of r) rs' in (r # a, out, rest))"

declare take_units.simps [simp del]

definition readUTF16Chunk :: "rune list \<Rightarrow> go_error \<Rightarrow> nat \<Rightarrow> u16 list \<times> go_error option \<times> rune list" where
  "readUTF16Chunk rs e maxUnits =
     (let (a, out, rest) = take_units maxUnits rs in
      if out then
        (if e = EOF \<and> a \<noteq> [] then (utf16_encode a, None, []) else ([], Some e, []))
      else (utf16_encode a, None, rest))"

lemma take_units_split: "take_units room rs = (a, out, rest) \<Longrightarrow> rs = a @ rest"
  by (induction room rs arbitrary: a out rest rule: take_units.induct)
    (subst (asm) take_units.simps, auto split: if_splits list.splits prod.splits)

lemma take_units_progress:
  "take_units room rs = (a, out, rest) \<Longrightarrow> 2 \<le> room \<Longrightarrow> \<not> out \<Longrightarrow> a \<noteq> []"
  by (subst (asm) take_units.simps)
    (auto simp: units_of_def split: if_splits list.splits prod.splits)

lemma readUTF16Chunk_shorter:
  assumes "readUTF16Chunk rs e m = (cs, None, rest)" "2 \<le> m"
  shows "length rest < length rs"
proof -
  obtain a out r where t: "take_units m rs = (a, out, r)" by (cases "take_units m rs") auto
  have s: "rs = a @ r" by (rule take_units_split[OF t])
  have "a \<noteq> []"
    using assms t take_units_progress[OF t] by (auto simp: readUTF16Chunk_def split: if_splits)
  then show ?thesis
    using assms(1) t s by (auto simp: readUTF16Chunk_def split: if_splits)
qed

function clob_chunks ::
    "lob_session \<Rightarrow> i64 \<Rightarrow> rune list \<Rightarrow> go_error \<Rightarrow> i64 \<Rightarrow> bool \<Rightarrow> 'p net \<Rightarrow>
     go_error option \<times> bool \<times> 'p net" where
  "clob_chunks s i rs e off first n =
     (let (cs, err, rest) = readUTF16Chunk rs e maxLobChunk;
          (werr, first, off, n) =
            (if length cs > 0 then
               let (werr, n) = writeLobCharsFrame s (if first then LobReqCreateChars else LobReqSetChars) i off cs n
               in (werr, False, off + word_of_nat (length cs), n)
             else (None, first, off, n))
      in if werr \<noteq> None then (werr, first, n)
         else case err of
           Some e' \<Rightarrow> (if e' = EOF then (None, first, n) else (Some e', first, n))
         | None \<Rightarrow> clob_chunks s i rest e off first n)"
  by pat_completeness auto
termination
proof (relation "measure (\<lambda>(s, i, rs, e, off, first, n). length rs)", simp, goal_cases)
  case prems: (1 s i rs e off first n x cs y err rest)
  then have "readUTF16Chunk rs e maxLobChunk = (cs, None, rest)" by auto
  moreover have "2 \<le> maxLobChunk" by (simp add: maxLobChunk_def)
  ultimately show ?case using readUTF16Chunk_shorter by auto
qed

declare clob_chunks.simps [simp del]

definition writeLobCreateCharsFromReader ::
    "lob_session \<Rightarrow> pending_lob \<Rightarrow> go_reader \<Rightarrow> 'p net \<Rightarrow> go_error option \<times> 'p net" where
  "writeLobCreateCharsFromReader s lob rd n =
     (let (rs, e) = reader_runes rd;
          (err, first, n) = clob_chunks s (lob_id lob) rs e 0 True n
      in if err \<noteq> None then (err, n)
         else if first then writeLobCharsFrame s LobReqCreateChars (lob_id lob) 0 [] n
         else (None, n))"

definition writeLobCreate :: "lob_session \<Rightarrow> pending_lob \<Rightarrow> 'p net \<Rightarrow> go_error option \<times> 'p net" where
  "writeLobCreate s lob n =
     (if lob_isClob lob then
        (case lob_clobReader lob of
           Some rd \<Rightarrow> writeLobCreateCharsFromReader s lob rd n
         | None \<Rightarrow> writeLobCharsFrame s LobReqCreateChars (lob_id lob) 0 (lob_chars lob) n)
      else
        (case lob_blobReader lob of
           Some rd \<Rightarrow> writeLobCreateBytesFromReader s lob rd n
         | None \<Rightarrow> writeLobBytesFrame s LobReqCreateBytes (lob_id lob) 0 (lob_bytes lob) n))"

end
