(* ===== verification/Props.thy ===== *)
theory Props
  imports GoStrings
begin

text \<open>
  \<^verbatim>\<open>props.go\<close>: the properties that the server reports at connect time, \<open>key=value;key=value\<close>.
\<close>

section \<open>The parser\<close>

text \<open>One pair of the loop: blank pairs are skipped, a pair without \<open>=\<close> is a key with an empty value.\<close>

definition add_prop :: "string \<Rightarrow> (string \<rightharpoonup> string) \<Rightarrow> (string \<rightharpoonup> string)" where
  "add_prop pair props =
     (let pair = TrimSpace pair in
      if pair = [] then props
      else case IndexByte pair (CHR ''='') of
        Some i \<Rightarrow> props(TrimSpace (take i pair) \<mapsto> TrimSpace (drop (i + 1) pair))
      | None \<Rightarrow> props(pair \<mapsto> []))"

definition parseServerProperties :: "string \<Rightarrow> (string \<rightharpoonup> string)" where
  "parseServerProperties s =
     (if s = [] then Map.empty else fold add_prop (Split s (CHR '';'')) Map.empty)"

section \<open>What it parses\<close>

text \<open>Text that does not start or end with a space.\<close>

definition trimmed :: "string \<Rightarrow> bool" where
  "trimmed s \<longleftrightarrow> s = [] \<or> inky (hd s) \<and> inky (last s)"

lemma TrimSpace_trimmed: "trimmed s \<Longrightarrow> TrimSpace s = s"
  by (cases "s = []") (simp_all add: trimmed_def TrimSpace_inky)

definition good_pair :: "string \<times> string \<Rightarrow> bool" where
  "good_pair p \<longleftrightarrow> trimmed (fst p) \<and> trimmed (snd p) \<and>
     CHR ''='' \<notin> set (fst p) \<and> CHR '';'' \<notin> set (fst p) \<and> CHR '';'' \<notin> set (snd p)"

definition pair_text :: "string \<times> string \<Rightarrow> string" where
  "pair_text p = fst p @ ''='' @ snd p"

fun props_text :: "(string \<times> string) list \<Rightarrow> string" where
  "props_text [] = []"
| "props_text [p] = pair_text p"
| "props_text (p # ps) = pair_text p @ '';'' @ props_text ps"

lemma add_prop_text:
  assumes "good_pair p"
  shows "add_prop (pair_text p) m = m(fst p \<mapsto> snd p)"
proof -
  have eq: "inky (CHR ''='')" by (simp add: inky_def)
  have "trimmed (pair_text p)"
    using assms eq by (cases "fst p"; cases "snd p" rule: rev_cases)
      (auto simp: good_pair_def trimmed_def pair_text_def)
  then have t: "TrimSpace (pair_text p) = pair_text p" by (rule TrimSpace_trimmed)
  have i: "IndexByte (pair_text p) (CHR ''='') = Some (length (fst p))"
    using assms by (simp add: pair_text_def good_pair_def IndexByte_at)
  show ?thesis
    using assms by (simp add: add_prop_def t i Let_def)
      (simp add: pair_text_def good_pair_def TrimSpace_trimmed)
qed

lemma Split_props:
  assumes "\<forall>p\<in>set ps. good_pair p" "ps \<noteq> []"
  shows "Split (props_text ps) (CHR '';'') = map pair_text ps"
  using assms
proof (induction ps rule: props_text.induct)
  case (2 p)
  then show ?case by (intro Split_single[THEN trans]) (auto simp: pair_text_def good_pair_def)
next
  case (3 p q ps)
  then have "CHR '';'' \<notin> set (pair_text p)" by (auto simp: pair_text_def good_pair_def)
  then show ?case using 3 Split_append[of "CHR '';''" "pair_text p" "props_text (q # ps)"] by simp
qed simp

text \<open>The text of a list of properties is parsed to the map of the list, later pairs overriding
  earlier ones.\<close>

theorem parseServerProperties_text:
  assumes "\<forall>p\<in>set ps. good_pair p"
  shows "parseServerProperties (props_text ps) = map_of (rev ps)"
proof (cases "ps = []")
  case False
  have "fold add_prop (map pair_text ps) m = m ++ map_of (rev ps)" for m
    using assms
  proof (induction ps arbitrary: m)
    case (Cons p ps)
    then have "fold add_prop (map pair_text ps) (m(fst p \<mapsto> snd p)) = m(fst p \<mapsto> snd p) ++ map_of (rev ps)"
      by simp
    then show ?case using Cons.prems add_prop_text[of p m] by (cases p) (simp add: map_add_assoc)
  qed simp
  moreover have "props_text ps \<noteq> []"
    using False by (cases ps rule: props_text.cases) (auto simp: pair_text_def)
  ultimately show ?thesis by (simp add: parseServerProperties_def Split_props[OF assms False])
qed (simp add: parseServerProperties_def)

theorem parseServerProperties_text_witness:
  "parseServerProperties ''a=1;b=;a=2'' = map_of [(''a'', ''2''), (''b'', []), (''a'', ''1'')]"
proof -
  have "\<forall>p\<in>set [(''a'', ''1''), (''b'', []), (''a'', ''2'')]. good_pair p"
    by (simp add: good_pair_def trimmed_def inky_def)
  from parseServerProperties_text[OF this] show ?thesis by (simp add: pair_text_def)
qed

end
