(* ===== verification/Conn.thy ===== *)
theory Conn
  imports LobParams Props
begin

unbundle bit_operations_syntax

text \<open>
  \<^verbatim>\<open>conn.go\<close>: the connection, its handshake, the request/response exchange and the life cycle that
  \<^verbatim>\<open>database/sql\<close> drives (Ping, ResetSession, IsValid, Close).
\<close>

section \<open>State\<close>

text \<open>Of \<^verbatim>\<open>tls.Config\<close> the code reads and sets the server name; the rest is carried along.\<close>

record tls_config =
  tlsServerName :: string
  tlsRest :: string

record config =
  cfgHost :: string
  cfgPort :: int
  cfgUser :: string
  cfgPassword :: string
  cfgDatabase :: string
  cfgTLS :: bool
  cfgTLSConfig :: "tls_config option"
  cfgTLSConfigName :: string
  cfgZone :: string
  cfgTimeZoneSeconds :: int
  cfgFetchSize :: int

record 'p conn =
  cfg :: config
  net :: "'p net"
  rowOut :: row_output
  sessionID :: i64
  databaseID :: i32
  randomID :: i32
  lobIDSeq :: i64
  serverProps :: "string \<rightharpoonup> string"
  conn_closed :: bool
  broken :: bool
  autocommit :: bool
  txAlteredSession :: bool

text \<open>
  A context, by what \<^verbatim>\<open>ctx.Err()\<close> returns when a request is about to be sent and after an exchange that
  failed.  Both may change while an operation with several requests runs: they are functions of
  what has been sent over the connection when \<^verbatim>\<open>ctx.Err()\<close> is read, and two requests of an operation are
  never started after the same bytes.  A deadline or a cancellation acts on the exchange itself as a
  failed read or write.  A context is \<open>in_time\<close> when it is not done at the start of any request.
\<close>

record ctx =
  ctx_entry :: "byte list \<Rightarrow> go_error option"
  ctx_exit :: "byte list \<Rightarrow> go_error option"

definition Background :: ctx where
  "Background = \<lparr>ctx_entry = (\<lambda>_. None), ctx_exit = (\<lambda>_. None)\<rparr>"

definition in_time :: "ctx \<Rightarrow> bool" where
  "in_time ctx \<longleftrightarrow> (\<forall>bs. ctx_entry ctx bs = None)"

lemma in_time_entry: "in_time ctx \<Longrightarrow> ctx_entry ctx bs = None"
  by (simp add: in_time_def)

lemma background_in_time [simp]: "in_time Background" "ctx_entry Background bs = None" "ctx_exit Background bs = None"
  by (simp_all add: in_time_def Background_def)

text \<open>
  An operation on the connection: \<open>None\<close> is a panic, otherwise the error or the value, and the new
  connection.  \<open>andThen\<close> is Go's \<^verbatim>\<open>if err != nil { return ..., err }\<close>.
\<close>

type_synonym ('p, 'a) conn_op = "'p conn \<Rightarrow> ('a go_result \<times> 'p conn) option"

definition andThen :: "('p, 'a) conn_op \<Rightarrow> ('a \<Rightarrow> ('p, 'b) conn_op) \<Rightarrow> ('p, 'b) conn_op" where
  "andThen m f c =
     do { (res, c) \<leftarrow> m c;
          case res of Inl e \<Rightarrow> Some (Inl e, c) | Inr x \<Rightarrow> f x c }"

definition ok :: "'a \<Rightarrow> ('p, 'a) conn_op" where
  "ok x c = Some (Inr x, c)"

definition fail :: "go_error \<Rightarrow> ('p, 'a) conn_op" where
  "fail e c = Some (Inl e, c)"

definition unusable :: "'p conn \<Rightarrow> bool" where
  "unusable c \<longleftrightarrow> conn_closed c \<or> broken c"

section \<open>Sending\<close>

text \<open>The loop that writes the LOB contents after the request frame.\<close>

fun writeLobs :: "pending_lob list \<Rightarrow> 'p conn \<Rightarrow> go_error option \<times> 'p conn" where
  "writeLobs [] c = (None, c)"
| "writeLobs (lob # lobs) c =
     (let (err, n) = writeLobCreate (databaseID c, sessionID c) lob (net c); c = c\<lparr>net := n\<rparr> in
      if err \<noteq> None then (err, c\<lparr>broken := True\<rparr>) else writeLobs lobs c)"

text \<open>The writing part of \<^verbatim>\<open>send\<close>: frame, LOB contents, terminator, flush.\<close>

definition transmit :: "'p server \<Rightarrow> byte \<Rightarrow> pending_lob list \<Rightarrow> 'p conn \<Rightarrow> go_error option \<times> 'p conn" where
  "transmit srv mode lobs c =
     (let (err, n) = WriteFrame mode (Bytes (rowOut c)) (net c); c = c\<lparr>net := n\<rparr> in
      if err \<noteq> None then (err, c)
      else
        let (err, c) = writeLobs lobs c in
        if err \<noteq> None then (err, c)
        else
          let (err, n) = WriteTerminator (net c); c = c\<lparr>net := n\<rparr> in
          if err \<noteq> None then (err, c)
          else let (err, n) = bw_flush srv (net c) in (err, c\<lparr>net := n\<rparr>))"

definition send :: "(gval \<Rightarrow> string) \<Rightarrow> 'p server \<Rightarrow> message \<Rightarrow> 'p conn \<Rightarrow> (go_error option \<times> 'p conn) option" where
  "send fmt_v srv req c =
     do { res \<leftarrow> prepareArrayParams req;
          case res of
            Inl e \<Rightarrow> Some (Some e, c)
          | Inr req \<Rightarrow>
              do { (res, seq) \<leftarrow> prepareLobParams req (lobIDSeq c);
                   let c = c\<lparr>lobIDSeq := seq\<rparr> in
                   case res of
                     Inl e \<Rightarrow> Some (Some e, c)
                   | Inr (req, lobs) \<Rightarrow>
                       do { (err, w) \<leftarrow> EncodePayload fmt_v req (Reset (rowOut c));
                            let c = c\<lparr>rowOut := w\<rparr> in
                            if err \<noteq> None then Some (err, c)
                            else Some (transmit srv (Mode req) lobs c) } } }"

section \<open>Receiving\<close>

function receive_chained :: "'p net \<Rightarrow> (message list go_result \<times> 'p net) option" where
  "receive_chained n =
     (case ReadFrame n of
        (Inl e, n) \<Rightarrow> Some (Inl (Wrapf ''hsql: reading chained response'' e), n)
      | (Inr (mode, payload), n') \<Rightarrow>
          if mode = ModeNone then Some (Inr [], n')
          else do { res \<leftarrow> DecodeResult mode payload;
                    case res of
                      Inl e \<Rightarrow> Some (Inl e, n')
                    | Inr r \<Rightarrow>
                        do { (rs, n'') \<leftarrow> receive_chained n';
                             Some (map_sum id (\<lambda>rs. r # rs) rs, n'') } })"
  by pat_completeness auto
termination
proof (relation "measure (\<lambda>n. length (inp n))", simp, goal_cases)
  case prems: (1 n x y z mode payload n')
  from prems(1,2) have "ReadFrame n = (Inr z, y)" by simp
  from ReadFrame_shorter[OF this] show ?case by simp
qed

declare receive_chained.simps [simp del]

definition receive :: "('p, response) conn_op" where
  "receive c =
     (case ReadFrame (net c) of
        (Inl e, n) \<Rightarrow> Some (Inl (Wrapf ''hsql: reading response'' e), c\<lparr>net := n\<rparr>)
      | (Inr (mode, payload), n) \<Rightarrow>
          do { res \<leftarrow> DecodeResult mode payload;
               case res of
                 Inl e \<Rightarrow> Some (Inl e, c\<lparr>net := n\<rparr>)
               | Inr main \<Rightarrow>
                   do { (res, n) \<leftarrow> receive_chained n;
                        Some (map_sum id (\<lambda>rs. message.extend main \<lparr>Chained = rs\<rparr>) res, c\<lparr>net := n\<rparr>) } })"

definition exchange :: "(gval \<Rightarrow> string) \<Rightarrow> 'p server \<Rightarrow> message \<Rightarrow> ('p, response) conn_op" where
  "exchange fmt_v srv req c =
     do { (err, c) \<leftarrow> send fmt_v srv req c;
          case err of
            Some e \<Rightarrow> Some (Inl e, c)
          | None \<Rightarrow> receive c }"

definition errorFromResult :: "response \<Rightarrow> go_error" where
  "errorFromResult r = ServerError (MessageText r) (SQLState r) (ErrorCode r)"

definition execCtx :: "(gval \<Rightarrow> string) \<Rightarrow> 'p server \<Rightarrow> ctx \<Rightarrow> message \<Rightarrow> ('p, response) conn_op" where
  "execCtx fmt_v srv ctx req c =
     (if conn_closed c \<or> broken c then Some (Inl ErrBadConn, c)
      else case ctx_entry ctx (sent (net c)) of
        Some e \<Rightarrow> Some (Inl e, c)
      | None \<Rightarrow>
          do { (res, c) \<leftarrow> exchange fmt_v srv req c;
               case res of
                 Inl e \<Rightarrow>
                   Some (Inl (case ctx_exit ctx (sent (net c)) of Some ctxErr \<Rightarrow> ctxErr | None \<Rightarrow> e), c\<lparr>broken := True\<rparr>)
               | Inr r \<Rightarrow>
                   Some (if Mode r = ModeError then Inl (errorFromResult r) else Inr r, c) })"

definition exec :: "(gval \<Rightarrow> string) \<Rightarrow> 'p server \<Rightarrow> message \<Rightarrow> ('p, response) conn_op" where
  "exec fmt_v srv req = execCtx fmt_v srv Background req"

section \<open>Life cycle\<close>

abbreviation NetworkCompatibilityVersionInt :: i32 where
  "NetworkCompatibilityVersionInt \<equiv> -2030400"

definition handshake :: "(gval \<Rightarrow> string) \<Rightarrow> 'p server \<Rightarrow> ('p, unit) conn_op" where
  "handshake fmt_v srv c =
     (let (err, n) = bw_write (int32_bytes NetworkCompatibilityVersionInt) (net c); c = c\<lparr>net := n\<rparr> in
      case err of
        Some e \<Rightarrow> Some (Inl (Wrapf ''hsql: writing handshake'' e), c)
      | None \<Rightarrow>
          let (err, n) = bw_flush srv (net c); c = c\<lparr>net := n\<rparr> in
          case err of
            Some e \<Rightarrow> Some (Inl e, c)
          | None \<Rightarrow>
              let req = (NewResult ModeConnect)\<lparr>DatabaseName := cfgDatabase (cfg c), User := cfgUser (cfg c),
                    Password := cfgPassword (cfg c), ZoneString := cfgZone (cfg c),
                    TimeZoneSeconds := word_of_int (cfgTimeZoneSeconds (cfg c))\<rparr>
              in andThen (exchange fmt_v srv req)
                   (\<lambda>res c.
                     if Mode res \<noteq> ModeConnectAcknowledge then
                       Some (Inl (Errorf ''hsql: unexpected handshake response mode''), c)
                     else Some (Inr (), c\<lparr>sessionID := SessionID res, databaseID := DatabaseID res,
                       randomID := RandomID res, serverProps := parseServerProperties (ClientProps res)\<rparr>)) c)"

text \<open>\<^verbatim>\<open>net.JoinHostPort\<close>: a host with a colon is an IPv6 address and is bracketed.\<close>

definition address :: "config \<Rightarrow> string" where
  "address cf =
     (if CHR '':'' \<in> set (cfgHost cf) then ''['' @ cfgHost cf @ '']:'' @ int_string (cfgPort cf)
      else cfgHost cf @ '':'' @ int_string (cfgPort cf))"

text \<open>The TLS settings of a dial: those of the configuration or the zero ones, with the host as the default server name.\<close>

definition tls_settings :: "config \<Rightarrow> tls_config option" where
  "tls_settings cf =
     (if cfgTLS cf then
        let t = (case cfgTLSConfig cf of Some t \<Rightarrow> t | None \<Rightarrow> \<lparr>tlsServerName = [], tlsRest = []\<rparr>)
        in Some (if tlsServerName t = [] then t\<lparr>tlsServerName := cfgHost cf\<rparr> else t)
      else None)"

text \<open>
  \<open>dial\<close> is \<^verbatim>\<open>net\<close> and \<^verbatim>\<open>crypto/tls\<close>: from an address and the TLS settings to an error or a socket.  \<^verbatim>\<open>connect\<close> dials and
  performs the handshake on a fresh connection; when that fails, it closes the socket.  The context of \<^verbatim>\<open>connect\<close> goes to
  \<^verbatim>\<open>DialContext\<close>, so that \<open>dial\<close> is the dial under that context, and to \<^verbatim>\<open>watchCancel\<close>, which lets reads and writes fail;
  neither \<^verbatim>\<open>connect\<close> nor \<^verbatim>\<open>handshake\<close> reads \<^verbatim>\<open>ctx.Err()\<close>.  An error comes with the socket
  that was opened, if any, which the caller never sees.
\<close>

type_synonym 'p dialer = "string \<Rightarrow> tls_config option \<Rightarrow> 'p net go_result"

type_synonym 'p connected = "go_error \<times> 'p net option + 'p conn"

definition new_conn :: "config \<Rightarrow> 'p net \<Rightarrow> 'p conn" where
  "new_conn cf n = \<lparr>cfg = cf, net = n, rowOut = NewRowOutput, sessionID = 0, databaseID = 0, randomID = 0,
     lobIDSeq = -1, serverProps = Map.empty, conn_closed = False, broken = False, autocommit = True,
     txAlteredSession = False\<rparr>"

definition connect :: "(gval \<Rightarrow> string) \<Rightarrow> 'p server \<Rightarrow> 'p dialer \<Rightarrow> config \<Rightarrow> 'p connected option" where
  "connect fmt_v srv dial cf =
     (case dial (address cf) (tls_settings cf) of
        Inl e \<Rightarrow> Some (Inl (Wrapf ''hsql: dial'' e, None))
      | Inr n \<Rightarrow>
          do { (res, c) \<leftarrow> handshake fmt_v srv (new_conn cf n);
               Some (case res of Inl e \<Rightarrow> Inl (e, Some (snd (net_close (net c)))) | Inr _ \<Rightarrow> Inr c) })"

definition newExecDirect :: "'p conn \<Rightarrow> string \<Rightarrow> message" where
  "newExecDirect c query = (NewResult ModeExecDirect)\<lparr>SQL := query, StatementReturnType := StatementReturnAny,
     GenerateKeys := ReturnNoGeneratedKeys, FetchSize := word_of_int (cfgFetchSize (cfg c))\<rparr>"

definition Ping :: "(gval \<Rightarrow> string) \<Rightarrow> 'p server \<Rightarrow> ctx \<Rightarrow> ('p, unit) conn_op" where
  "Ping fmt_v srv ctx c =
     (if conn_closed c \<or> broken c then Some (Inl ErrBadConn, c)
      else andThen (execCtx fmt_v srv ctx (newExecDirect c ''VALUES(1)'')) (\<lambda>_. ok ()) c)"

text \<open>\<^verbatim>\<open>Close\<close> ignores the outcome of the DISCONNECT and reports that of closing the socket.\<close>

definition Close :: "(gval \<Rightarrow> string) \<Rightarrow> 'p server \<Rightarrow> ('p, unit) conn_op" where
  "Close fmt_v srv c =
     (if conn_closed c then Some (Inr (), c)
      else
        do { (_, c) \<leftarrow> send fmt_v srv (NewResult ModeDisconnect) (c\<lparr>conn_closed := True\<rparr>);
             let (err, n) = net_close (net c) in
             Some (case err of Some e \<Rightarrow> Inl e | None \<Rightarrow> Inr (), c\<lparr>net := n\<rparr>) })"

definition IsValid :: "'p conn \<Rightarrow> bool" where
  "IsValid c \<longleftrightarrow> \<not> conn_closed c \<and> \<not> broken c"

definition ResetSession :: "(gval \<Rightarrow> string) \<Rightarrow> 'p server \<Rightarrow> ctx \<Rightarrow> ('p, unit) conn_op" where
  "ResetSession fmt_v srv ctx c =
     (if conn_closed c \<or> broken c then Some (Inl ErrBadConn, c)
      else
        andThen (execCtx fmt_v srv ctx (newExecDirect c ''ROLLBACK''))
          (\<lambda>_ c. andThen (execCtx fmt_v srv ctx (newExecDirect c ''SET AUTOCOMMIT TRUE''))
            (\<lambda>_ c. Some (Inr (), c\<lparr>autocommit := True, lobIDSeq := -1\<rparr>)) c) c)"

end
