(* ===== verification/ConnProps.thy ===== *)
theory ConnProps
  imports Conn
begin

unbundle bit_operations_syntax

text \<open>
  The connection's contract: how an operation may change the connection, that one request is
  answered by exactly one transmission, and when a connection stays usable.
\<close>

section \<open>How the connection evolves\<close>

text \<open>The socket keeps what it has sent and its sticky write error, and it is not closed on the way.\<close>

definition net_grows :: "'p net \<Rightarrow> 'p net \<Rightarrow> bool" where
  "net_grows n n' \<longleftrightarrow> (\<exists>bs. sent n' = sent n @ bs) \<and> (werr n \<noteq> None \<longrightarrow> werr n' = werr n) \<and>
     shut n' = shut n"

lemma net_grows_refl [simp]: "net_grows n n"
  by (simp add: net_grows_def)

lemma net_grows_trans: "net_grows n n' \<Longrightarrow> net_grows n' n'' \<Longrightarrow> net_grows n n''"
  unfolding net_grows_def by (metis append_assoc)

lemma net_grows_flush: "bw_flush srv n = (e, n') \<Longrightarrow> net_grows n n'"
  by (auto simp: bw_flush_def net_grows_def split: option.splits prod.splits sum.splits if_splits)

lemma net_grows_consumes: "consumes n n' \<Longrightarrow> net_grows n n'"
  unfolding consumes_def net_grows_def by (cases n; cases n') auto

lemma consumes_sent: "consumes n n' \<Longrightarrow> sent n' = sent n"
  by (cases n; cases n') (simp add: consumes_def)

text \<open>Everything that writes only adds to what is waiting to be flushed.\<close>

definition queues :: "'p net \<Rightarrow> 'p net \<Rightarrow> bool" where
  "queues n n' \<longleftrightarrow> (\<exists>bs. n' = n\<lparr>pend := pend n @ bs\<rparr>)"

lemma queues_grows: "queues n n' \<Longrightarrow> net_grows n n'"
  by (auto simp: queues_def net_grows_def)

lemma queues_refl [simp]: "queues n n"
  by (auto simp: queues_def intro: exI[of _ "[]"])

lemma queues_trans: "queues n n' \<Longrightarrow> queues n' n'' \<Longrightarrow> queues n n''"
  by (auto simp: queues_def)

lemma queues_write: "bw_write bs n = (e, n') \<Longrightarrow> queues n n'"
  by (auto simp: bw_write_def queues_def split: option.splits intro: exI[of _ "[]"])

lemma queues_snd_write [simp]: "queues n (snd (bw_write bs n))"
  using queues_write[of bs n] by (metis prod.collapse)

lemma queues_on: "queues n m \<Longrightarrow> queues n (snd (bw_write bs m))"
  using queues_trans queues_snd_write by blast

lemma queues_frame: "WriteFrame m b n = (e, n') \<Longrightarrow> queues n n'"
  by (cases "werr n") (auto simp: WriteFrame_ok WriteFrame_err queues_def intro: exI[of _ "[]"])

lemma queues_header: "queues n (writeLobHeader s t i n)"
  unfolding writeLobHeader_def writeI32_def writeI64_def
  by (intro queues_on) simp

lemma queues_ints [simp]: "queues n (writeI64 v n)" "queues n (writeI32 u n)"
  by (simp_all add: writeI64_def writeI32_def)

lemma queues_bytes_frame: "writeLobBytesFrame s t i off b n = (e, n') \<Longrightarrow> queues n n'"
  unfolding writeLobBytesFrame_def
  by (meson queues_header queues_ints(1) queues_trans queues_write)

lemma queues_chars_frame: "writeLobCharsFrame s t i off cs n = (e, n') \<Longrightarrow> queues n n'"
  unfolding writeLobCharsFrame_def writeUTF16_def
  by (meson queues_header queues_ints(1) queues_trans queues_write)

lemma queues_blob: "blob_chunks s i rd off first n = (e, f, n') \<Longrightarrow> queues n n'"
proof (induction s i rd off first n arbitrary: e f n' rule: blob_chunks.induct)
  case (2 s i b er rd off first n)
  obtain we n1 where w: "writeLobBytesFrame s (if first then LobReqCreateBytes else LobReqSetBytes) i off b n = (we, n1)"
    by fastforce
  have g: "queues n n1" by (rule queues_bytes_frame[OF w])
  show ?case
    using 2 w g queues_trans[OF g]
    by (cases "length b > 0"; cases we; cases er) (auto split: if_splits)
qed simp

lemma queues_clob: "clob_chunks s i rs er off first n = (e, f, n') \<Longrightarrow> queues n n'"
proof (induction s i rs er off first n arbitrary: e f n' rule: clob_chunks.induct)
  case (1 s i rs er off first n)
  obtain cs err rest where c: "readUTF16Chunk rs er maxLobChunk = (cs, err, rest)" by (cases "readUTF16Chunk rs er maxLobChunk")
  obtain we n1 where w: "writeLobCharsFrame s (if first then LobReqCreateChars else LobReqSetChars) i off cs n = (we, n1)"
    by fastforce
  have g: "queues n n1" by (rule queues_chars_frame[OF w])
  show ?case
    using 1 c w g queues_trans[OF g] unfolding clob_chunks.simps[of s i rs]
    by (cases "length cs > 0"; cases we; cases err) (auto split: if_splits)
qed

lemma queues_lob: "writeLobCreate s lob n = (e, n') \<Longrightarrow> queues n n'"
proof -
  assume w: "writeLobCreate s lob n = (e, n')"
  consider (cr) rd where "lob_isClob lob" "lob_clobReader lob = Some rd"
    | (c) "lob_isClob lob" "lob_clobReader lob = None"
    | (br) rd where "\<not> lob_isClob lob" "lob_blobReader lob = Some rd"
    | (b) "\<not> lob_isClob lob" "lob_blobReader lob = None" by fastforce
  then show ?thesis
  proof cases
    case cr
    obtain er f n1 where l: "clob_chunks s (lob_id lob) (fst (reader_runes rd)) (snd (reader_runes rd)) 0 True n = (er, f, n1)"
      by (cases "clob_chunks s (lob_id lob) (fst (reader_runes rd)) (snd (reader_runes rd)) 0 True n")
    have g: "queues n n1" by (rule queues_clob[OF l])
    show ?thesis
      using w cr l g queues_trans[OF g queues_chars_frame]
      by (auto simp: writeLobCreate_def writeLobCreateCharsFromReader_def Let_def case_prod_beta split: if_splits)
  next
    case c
    then show ?thesis using w by (auto simp: writeLobCreate_def intro: queues_chars_frame)
  next
    case br
    obtain er f n1 where l: "blob_chunks s (lob_id lob) rd 0 True n = (er, f, n1)"
      by (cases "blob_chunks s (lob_id lob) rd 0 True n")
    have g: "queues n n1" by (rule queues_blob[OF l])
    have h: "queues n (writeI64 x (writeI64 y (writeLobHeader s t i n)))" for x y t i
      by (meson queues_header queues_ints(1) queues_trans)
    show ?thesis
      using w br l g queues_trans[OF g queues_bytes_frame] queues_trans[OF h queues_snd_write]
      by (auto simp: writeLobCreate_def writeLobCreateBytesFromReader_def Let_def case_prod_beta split: if_splits)
  next
    case b
    then show ?thesis using w by (auto simp: writeLobCreate_def intro: queues_bytes_frame)
  qed
qed

text \<open>
  \<open>evolves c c'\<close>: an operation leads from \<open>c\<close> to \<open>c'\<close>.  Whether the connection is closed and its
  configuration do not change, a broken connection stays broken, nothing sent is unsent.
\<close>

definition evolves :: "'p conn \<Rightarrow> 'p conn \<Rightarrow> bool" where
  "evolves c c' \<longleftrightarrow> conn_closed c' = conn_closed c \<and> (broken c \<longrightarrow> broken c') \<and> cfg c' = cfg c \<and>
     net_grows (net c) (net c')"

lemma evolves_refl [simp]: "evolves c c"
  by (simp add: evolves_def)

lemma evolves_trans: "evolves c c' \<Longrightarrow> evolves c' c'' \<Longrightarrow> evolves c c''"
  unfolding evolves_def using net_grows_trans by metis

lemma evolves_net: "net_grows (net c) n \<Longrightarrow> evolves c (c\<lparr>net := n\<rparr>)"
  by (simp add: evolves_def)

lemma evolves_lobs: "writeLobs lobs c = (e, c') \<Longrightarrow> evolves c c'"
proof (induction lobs arbitrary: c)
  case (Cons lob lobs)
  obtain err n where w: "writeLobCreate (databaseID c, sessionID c) lob (net c) = (err, n)" by fastforce
  have g: "evolves c (c\<lparr>net := n\<rparr>)" using queues_grows[OF queues_lob[OF w]] by (rule evolves_net)
  then have "evolves c (c\<lparr>net := n, broken := True\<rparr>)" by (simp add: evolves_def)
  then show ?case using Cons w g evolves_trans[OF g] by (cases err) auto
qed simp

lemma evolves_then_net:
  "evolves c c' \<Longrightarrow> net_grows (net c') n \<Longrightarrow> evolves c (c'\<lparr>net := n\<rparr>)"
  using evolves_net evolves_trans by blast

lemma evolves_transmit:
  assumes "transmit srv mode lobs c = (e, c')"
  shows "evolves c c'"
proof -
  obtain e1 n1 where f: "WriteFrame mode (Bytes (rowOut c)) (net c) = (e1, n1)" by fastforce
  obtain e2 c2 where l: "writeLobs lobs (c\<lparr>net := n1\<rparr>) = (e2, c2)" by fastforce
  obtain e3 n3 where t: "WriteTerminator (net c2) = (e3, n3)" by fastforce
  obtain e4 n4 where u: "bw_flush srv n3 = (e4, n4)" by fastforce
  have 1: "evolves c (c\<lparr>net := n1\<rparr>)" using queues_grows[OF queues_frame[OF f]] by (rule evolves_net)
  have 2: "evolves c c2" using 1 evolves_lobs[OF l] by (rule evolves_trans)
  have 3: "evolves c (c2\<lparr>net := n3\<rparr>)"
    using 2 queues_grows[OF queues_write[OF t[unfolded WriteTerminator_def]]] by (rule evolves_then_net)
  have "evolves c (c2\<lparr>net := n4\<rparr>)"
    using 2 net_grows_trans[OF queues_grows[OF queues_write[OF t[unfolded WriteTerminator_def]]] net_grows_flush[OF u]]
    by (rule evolves_then_net)
  moreover have "c' \<in> {c\<lparr>net := n1\<rparr>, c2, c2\<lparr>net := n3\<rparr>, c2\<lparr>net := n4\<rparr>}"
    using assms f l t u by (auto simp: transmit_def Let_def split: if_splits)
  ultimately show ?thesis using 1 2 3 by blast
qed

lemma evolves_seq: "evolves c (c\<lparr>lobIDSeq := s\<rparr>)" "evolves c (c\<lparr>lobIDSeq := s, rowOut := w\<rparr>)"
  by (simp_all add: evolves_def)

lemma send_cases:
  assumes "send fmt_v srv req c = Some (e, c')"
  obtains (array) err where "prepareArrayParams req = Some (Inl err)" "e = Some err" "c' = c"
    | (lob) req1 err seq where "prepareArrayParams req = Some (Inr req1)"
        "prepareLobParams req1 (lobIDSeq c) = Some (Inl err, seq)" "e = Some err" "c' = c\<lparr>lobIDSeq := seq\<rparr>"
    | (encode) req1 req2 lobs seq err w where "prepareArrayParams req = Some (Inr req1)"
        "prepareLobParams req1 (lobIDSeq c) = Some (Inr (req2, lobs), seq)"
        "EncodePayload fmt_v req2 (Reset (rowOut c)) = Some (Some err, w)" "e = Some err"
        "c' = c\<lparr>lobIDSeq := seq, rowOut := w\<rparr>"
    | (sent) req1 req2 lobs seq w where "prepareArrayParams req = Some (Inr req1)"
        "prepareLobParams req1 (lobIDSeq c) = Some (Inr (req2, lobs), seq)"
        "EncodePayload fmt_v req2 (Reset (rowOut c)) = Some (None, w)"
        "transmit srv (Mode req2) lobs (c\<lparr>lobIDSeq := seq, rowOut := w\<rparr>) = (e, c')"
proof -
  obtain res where r: "prepareArrayParams req = Some res"
    using assms by (cases "prepareArrayParams req") (auto simp: send_def)
  show ?thesis
  proof (cases res)
    case (Inl err)
    then show ?thesis using assms r array by (auto simp: send_def)
  next
    case (Inr req1)
    obtain res2 seq where r2: "prepareLobParams req1 (lobIDSeq c) = Some (res2, seq)"
      using assms r Inr by (cases "prepareLobParams req1 (lobIDSeq c)") (auto simp: send_def)
    show ?thesis
    proof (cases res2)
      case (Inl err)
      then show ?thesis using assms r Inr r2 lob by (auto simp: send_def Let_def)
    next
      case I2: (Inr p)
      obtain req2 lobs where p: "p = (req2, lobs)" by fastforce
      obtain err w where en: "EncodePayload fmt_v req2 (Reset (rowOut c)) = Some (err, w)"
        using assms r Inr r2 I2 p
        by (cases "EncodePayload fmt_v req2 (Reset (rowOut c))") (auto simp: send_def Let_def)
      show ?thesis
        using assms r Inr r2 I2 p en encode sent by (cases err) (auto simp: send_def Let_def)
    qed
  qed
qed

lemma evolves_send: "send fmt_v srv req c = Some (e, c') \<Longrightarrow> evolves c c'"
  by (erule send_cases) (auto simp: evolves_seq intro: evolves_trans[OF evolves_seq(2) evolves_transmit])

lemma consumes_chained: "receive_chained n = Some (r, n') \<Longrightarrow> consumes n n'"
proof (induction n arbitrary: r n' rule: receive_chained.induct)
  case (1 n)
  obtain x n1 where f: "ReadFrame n = (x, n1)" by fastforce
  note c = consumes_ReadFrame[OF f]
  show ?case
  proof (cases x)
    case (Inl e)
    then show ?thesis using 1(2) f c by (simp add: receive_chained.simps[of n])
  next
    case (Inr mp)
    obtain mode payload where mp: "mp = (mode, payload)" by fastforce
    show ?thesis
    proof (cases "mode = ModeNone")
      case True
      then show ?thesis using 1(2) f c Inr mp by (simp add: receive_chained.simps[of n])
    next
      case False
      obtain res where d: "DecodeResult mode payload = Some res"
        using 1(2) f Inr mp False by (cases "DecodeResult mode payload") (simp_all add: receive_chained.simps[of n])
      show ?thesis
      proof (cases res)
        case (Inl e)
        then show ?thesis using 1(2) f c Inr mp False d by (simp add: receive_chained.simps[of n])
      next
        case I: (Inr m)
        obtain rs where rc: "receive_chained n1 = Some (rs, n')"
          using 1(2) f Inr mp False d I
          by (cases "receive_chained n1") (auto simp: receive_chained.simps[of n])
        have "consumes n1 n'" using 1(1)[OF f[symmetric] Inr mp[symmetric] False d I rc] .
        then show ?thesis using c consumes_trans by blast
      qed
    qed
  qed
qed

lemma receive_net:
  assumes "receive c = Some (r, c')"
  shows "\<exists>n. c' = c\<lparr>net := n\<rparr> \<and> consumes (net c) n"
proof -
  obtain x n1 where f: "ReadFrame (net c) = (x, n1)" by fastforce
  note k = consumes_ReadFrame[OF f]
  show ?thesis
  proof (cases x)
    case (Inl e)
    then show ?thesis using assms f k by (auto simp: receive_def)
  next
    case (Inr mp)
    obtain mode payload where mp: "mp = (mode, payload)" by fastforce
    obtain res where d: "DecodeResult mode payload = Some res"
      using assms f Inr mp by (cases "DecodeResult mode payload") (auto simp: receive_def)
    show ?thesis
    proof (cases res)
      case (Inl e)
      then show ?thesis using assms f k Inr mp d by (auto simp: receive_def)
    next
      case I: (Inr m)
      obtain rs n2 where rc: "receive_chained n1 = Some (rs, n2)"
        using assms f Inr mp d I by (cases "receive_chained n1") (auto simp: receive_def)
      have "consumes (net c) n2" using k consumes_chained[OF rc] consumes_trans by blast
      then show ?thesis using assms f Inr mp d I rc by (auto simp: receive_def)
    qed
  qed
qed

lemma evolves_receive: "receive c = Some (r, c') \<Longrightarrow> evolves c c'"
  by (drule receive_net) (auto intro: evolves_net net_grows_consumes)

lemma exchange_cases:
  assumes "exchange fmt_v srv req c = Some (res, c')"
  obtains (unsent) e where "send fmt_v srv req c = Some (Some e, c')" "res = Inl e"
    | (received) c1 where "send fmt_v srv req c = Some (None, c1)" "receive c1 = Some (res, c')"
  using assms by (auto simp: exchange_def split: bind_splits option.splits)

lemma evolves_exchange: "exchange fmt_v srv req c = Some (res, c') \<Longrightarrow> evolves c c'"
  by (erule exchange_cases) (auto intro: evolves_send evolves_receive evolves_trans)

lemma evolves_execCtx: "execCtx fmt_v srv ctx req c = Some (res, c') \<Longrightarrow> evolves c c'"
  by (auto simp: execCtx_def evolves_def dest!: evolves_exchange
      split: if_splits option.splits bind_splits sum.splits)

section \<open>The contract of an operation\<close>

text \<open>
  What every operation of the driver promises: on a closed or broken connection it returns
  \<^verbatim>\<open>driver.ErrBadConn\<close> and touches nothing, and otherwise the connection evolves.
\<close>

locale conn_call =
  fixes op :: "('p, 'a) conn_op"
  assumes guard: "unusable c \<Longrightarrow> op c = Some (Inl ErrBadConn, c)"
    and evolve: "op c = Some (res, c') \<Longrightarrow> evolves c c'"
begin

lemma success_usable: "op c = Some (Inr x, c') \<Longrightarrow> \<not> unusable c"
  using guard[of c] by auto

lemma broken_for_good:
  "op c = Some (res, c') \<Longrightarrow> unusable c' \<Longrightarrow> op c' = Some (Inl ErrBadConn, c')"
  by (rule guard)

lemma unusable_kept: "op c = Some (res, c') \<Longrightarrow> unusable c \<Longrightarrow> unusable c'"
  using evolve[of c res c'] by (auto simp: unusable_def evolves_def)

lemma sends_only_more: "op c = Some (res, c') \<Longrightarrow> \<exists>bs. sent (net c') = sent (net c) @ bs"
  using evolve[of c res c'] by (auto simp: evolves_def net_grows_def)

lemma nothing_sent_unusable: "op c = Some (res, c') \<Longrightarrow> unusable c \<Longrightarrow> net c' = net c"
  using guard[of c] by auto

end

text \<open>Sequences of such calls keep the second half of the contract.\<close>

definition steady :: "('p, 'a) conn_op \<Rightarrow> bool" where
  "steady m \<longleftrightarrow> (\<forall>c res c'. m c = Some (res, c') \<longrightarrow> evolves c c')"

lemma steadyD: "steady m \<Longrightarrow> m c = Some (res, c') \<Longrightarrow> evolves c c'"
  by (simp add: steady_def)

lemma steady_andThen [intro]: "steady m \<Longrightarrow> (\<And>x. steady (f x)) \<Longrightarrow> steady (andThen m f)"
  unfolding steady_def andThen_def
  by (auto intro: evolves_trans split: bind_splits sum.splits) (meson evolves_trans)?

lemma andThen_Inr:
  "andThen m f c = Some (Inr y, c'') \<longleftrightarrow> (\<exists>x c'. m c = Some (Inr x, c') \<and> f x c' = Some (Inr y, c''))"
  by (auto simp: andThen_def split: bind_splits sum.splits)

lemma steady_ok [intro]: "steady (ok x)" "steady (fail e)"
  by (simp_all add: steady_def ok_def fail_def)

lemma steady_set: "(\<And>c. evolves c (g c)) \<Longrightarrow> steady (\<lambda>c. Some (x, g c))"
  by (auto simp: steady_def)

lemma steady_execCtx [intro]: "steady (execCtx fmt_v srv ctx req)"
  using evolves_execCtx by (auto simp: steady_def)

lemma steady_at: "(\<And>c0. steady (f c0)) \<Longrightarrow> steady (\<lambda>c. f c c)"
  by (auto simp: steady_def)

lemma steady_guard: "steady m \<Longrightarrow> steady (\<lambda>c. if P c then Some (x, c) else m c)"
  by (auto simp: steady_def)

lemma conn_callI:
  "(\<And>c. unusable c \<Longrightarrow> op c = Some (Inl ErrBadConn, c)) \<Longrightarrow> steady op \<Longrightarrow> conn_call op"
  by (simp add: conn_call_def steady_def)

interpretation exec_call: conn_call "execCtx fmt_v srv ctx req"
  by (rule conn_callI[OF _ steady_execCtx]) (simp add: execCtx_def unusable_def)

lemma steady_Ping [intro]: "steady (Ping fmt_v srv ctx)"
  unfolding Ping_def[abs_def]
  by (rule steady_guard, rule steady_at[where f = "\<lambda>c0. andThen
    (execCtx fmt_v srv ctx (newExecDirect c0 ''VALUES(1)'')) (\<lambda>_. ok ())"])
    (intro steady_andThen steady_execCtx steady_ok)

interpretation ping_call: conn_call "Ping fmt_v srv ctx"
  by (rule conn_callI[OF _ steady_Ping]) (simp add: Ping_def unusable_def)

lemma steady_ResetSession [intro]: "steady (ResetSession fmt_v srv ctx)"
  unfolding ResetSession_def[abs_def]
  by (rule steady_guard, rule steady_at[where f = "\<lambda>c0. andThen
      (execCtx fmt_v srv ctx (newExecDirect c0 ''ROLLBACK''))
      (\<lambda>_ c. andThen (execCtx fmt_v srv ctx (newExecDirect c ''SET AUTOCOMMIT TRUE''))
        (\<lambda>_ c. Some (Inr (), c\<lparr>autocommit := True, lobIDSeq := -1\<rparr>)) c)"],
      rule steady_andThen, rule steady_execCtx,
      rule steady_at[where f = "\<lambda>c0. andThen (execCtx fmt_v srv ctx (newExecDirect c0 ''SET AUTOCOMMIT TRUE''))
        (\<lambda>_ c. Some (Inr (), c\<lparr>autocommit := True, lobIDSeq := -1\<rparr>))"],
      rule steady_andThen, rule steady_execCtx, rule steady_set)
    (simp add: evolves_def)

interpretation reset_call: conn_call "ResetSession fmt_v srv ctx"
  by (rule conn_callI[OF _ steady_ResetSession]) (simp add: ResetSession_def unusable_def)

section \<open>Usable or broken\<close>

text \<open>After an exchange was started, an error other than the server's own error message leaves the
  connection broken; and a broken or closed connection refuses every later request without
  sending a byte.\<close>

theorem failed_exchange_breaks:
  assumes "execCtx fmt_v srv ctx req c = Some (Inl e, c')" "\<not> unusable c" "ctx_entry ctx (sent (net c)) = None"
  shows "(\<exists>msg st code. e = ServerError msg st code) \<or>
    (broken c' \<and> execCtx fmt_v srv ctx' req' c' = Some (Inl ErrBadConn, c'))"
proof -
  have "(\<exists>msg st code. e = ServerError msg st code) \<or> broken c'"
    using assms by (auto simp: execCtx_def unusable_def errorFromResult_def split: bind_splits sum.splits if_splits)
  then show ?thesis using exec_call.guard[of c'] by (auto simp: unusable_def)
qed

lemma transmit_ok_broken: "writeLobs lobs c = (None, c') \<Longrightarrow> broken c' = broken c"
  by (induction lobs arbitrary: c) (auto simp: Let_def split: prod.splits if_splits)

lemma transmit_broken: "transmit srv mode lobs c = (None, c') \<Longrightarrow> broken c' = broken c"
  by (auto simp: transmit_def Let_def dest: transmit_ok_broken split: prod.splits if_splits)

lemma send_broken:
  assumes "send fmt_v srv req c = Some (None, c')"
  shows "broken c' = broken c"
  using assms by (rule send_cases) (auto dest: transmit_broken)

lemma exchange_broken:
  assumes "exchange fmt_v srv req c = Some (Inr r, c')"
  shows "broken c' = broken c"
  using assms
proof (rule exchange_cases)
  fix c1 assume "send fmt_v srv req c = Some (None, c1)" "receive c1 = Some (Inr r, c')"
  then show ?thesis using send_broken receive_net by fastforce
qed simp

lemma exec_ok_usable:
  assumes "execCtx fmt_v srv ctx req c = Some (Inr r, c')"
  shows "IsValid c \<and> IsValid c' \<and> Mode r \<noteq> ModeError"
proof -
  have "evolves c c'" using assms by (rule evolves_execCtx)
  moreover have "\<not> unusable c" using assms by (rule exec_call.success_usable)
  moreover have "broken c' = broken c" "Mode r \<noteq> ModeError"
    using assms exchange_broken[of fmt_v srv req c]
    by (auto simp: execCtx_def split: if_splits option.splits bind_splits sum.splits)
  ultimately show ?thesis by (auto simp: IsValid_def unusable_def evolves_def)
qed

text \<open>A request that succeeds leaves the connection usable.\<close>

theorem success_keeps_usable:
  assumes "execCtx fmt_v srv ctx req c = Some (Inr r, c')"
  shows "IsValid c \<and> IsValid c' \<and> Mode r \<noteq> ModeError"
  using assms by (rule exec_ok_usable)

section \<open>One request, one transmission\<close>

text \<open>A transmission: some frames and the terminator; and the messages that its frames decode to.\<close>

definition transmission :: "(byte \<times> byte list) list \<Rightarrow> byte list" where
  "transmission fs = concat (map (\<lambda>f. frame_bytes (fst f) (snd f)) fs) @ [ModeNone]"

definition decodes :: "(byte \<times> byte list) list \<Rightarrow> message list \<Rightarrow> bool" where
  "decodes fs rs \<longleftrightarrow> list_all2 (\<lambda>f r. fst f \<noteq> ModeNone \<and> length (snd f) + 4 < 2 ^ 31 \<and>
     DecodeResult (fst f) (snd f) = Some (Inr r)) fs rs"

text \<open>Nothing half-written and nothing unread.\<close>

definition in_sync :: "'p net \<Rightarrow> bool" where
  "in_sync n \<longleftrightarrow> pend n = [] \<and> werr n = None \<and> inp n = []"

lemma receive_chained_frames:
  assumes "decodes fs rs"
  shows "receive_chained (n\<lparr>inp := transmission fs @ s\<rparr>) = Some (Inr rs, n\<lparr>inp := s\<rparr>)"
  using assms unfolding decodes_def
proof (induction arbitrary: n rule: list_all2_induct)
  case Nil
  show ?case by (simp add: transmission_def receive_chained.simps ReadFrame_none)
next
  case (Cons f fs r rs)
  have "ReadFrame (n\<lparr>inp := frame_bytes (fst f) (snd f) @ transmission fs @ s\<rparr>) =
      (Inr (fst f, snd f), n\<lparr>inp := transmission fs @ s\<rparr>)"
    using Cons.hyps by (intro ReadFrame_bytes) (simp_all add: frame_fits_def)
  moreover have "transmission (f # fs) @ s = frame_bytes (fst f) (snd f) @ transmission fs @ s"
    by (simp add: transmission_def)
  ultimately show ?case
    using Cons by (simp add: receive_chained.simps[of "n\<lparr>inp := frame_bytes (fst f) (snd f) @ transmission fs @ s\<rparr>"] case_prod_beta)
qed

lemma receive_transmission:
  assumes "decodes (f # fs) (r # rs)" "inp (net c) = transmission (f # fs) @ s"
  shows "receive c = Some (Inr (message.extend r \<lparr>Chained = rs\<rparr>), c\<lparr>net := (net c)\<lparr>inp := s\<rparr>\<rparr>)"
proof -
  have d: "fst f \<noteq> ModeNone" "frame_fits (snd f)" "DecodeResult (fst f) (snd f) = Some (Inr r)" "decodes fs rs"
    using assms(1) by (simp_all add: decodes_def frame_fits_def)
  have "ReadFrame ((net c)\<lparr>inp := frame_bytes (fst f) (snd f) @ transmission fs @ s\<rparr>) =
      (Inr (fst f, snd f), (net c)\<lparr>inp := transmission fs @ s\<rparr>)"
    using d by (intro ReadFrame_bytes)
  moreover have "(net c)\<lparr>inp := frame_bytes (fst f) (snd f) @ transmission fs @ s\<rparr> = net c"
    using assms(2) by (simp add: transmission_def)
  ultimately have "ReadFrame (net c) = (Inr (fst f, snd f), (net c)\<lparr>inp := transmission fs @ s\<rparr>)" by simp
  then show ?thesis
    using d(3) receive_chained_frames[OF d(4), where n = "net c" and s = s] by (simp add: receive_def case_prod_beta)
qed

text \<open>
  A request that is sent as it is: without parameters, or with none bound to an ARRAY, BLOB or CLOB but
  NULLs.
\<close>

definition plain_slots :: "message \<Rightarrow> bool" where
  "plain_slots req = (case requestParamSlots req of
      None \<Rightarrow> False
    | Some (types, values) \<Rightarrow>
        list_all (\<lambda>(t, v). v = VNil \<or> Code t \<notin> {SQLArray, SQLBlob, SQLClob}) (zip types values))"

definition plain_request :: "message \<Rightarrow> bool" where
  "plain_request req \<longleftrightarrow> (Mode req \<noteq> ModeExecute \<and> Mode req \<noteq> ModeUpdateResult) \<or> plain_slots req"

lemma array_params_plain:
  "list_all (\<lambda>(t, v). v = VNil \<or> Code t \<notin> {SQLArray, SQLBlob, SQLClob}) (zip ts vs) \<Longrightarrow> array_params ts vs = Inr vs"
  by (induction ts vs rule: array_params.induct) auto

lemma lob_params_plain:
  "list_all (\<lambda>(t, v). v = VNil \<or> Code t \<notin> {SQLArray, SQLBlob, SQLClob}) (zip ts vs) \<Longrightarrow>
    lob_params ts vs seq = (Inr (vs, []), seq)"
  by (induction ts vs seq rule: lob_params.induct) auto

lemma set_slots_same: "requestParamSlots req = Some (ts, vs) \<Longrightarrow> ts \<noteq> [] \<Longrightarrow> set_slots vs req = req"
  by (cases req) (auto simp: requestParamSlots_def set_slots_def split: option.splits list.splits if_splits)

lemma prepare_plain:
  assumes "plain_request req"
  shows "prepareArrayParams req = Some (Inr req) \<and> prepareLobParams req seq = Some (Inr (req, []), seq)"
proof -
  obtain ts vs where s: "requestParamSlots req = Some (ts, vs)"
    "list_all (\<lambda>(t, v). v = VNil \<or> Code t \<notin> {SQLArray, SQLBlob, SQLClob}) (zip ts vs)"
    using assms by (auto simp: plain_request_def plain_slots_def requestParamSlots_def split: option.splits prod.splits)
  then show ?thesis
    using set_slots_same[OF s(1)] array_params_plain[OF s(2)] lob_params_plain[OF s(2), of seq]
    by (simp add: prepareArrayParams_def prepareLobParams_def)
qed

lemma Reset_New [simp]: "Reset w = NewRowOutput"
  by (simp add: Reset_def NewRowOutput_def)

lemma send_plain:
  assumes "plain_request req" "EncodePayload fmt_v req NewRowOutput = Some (None, w)"
    and "pend (net c) = []" "werr (net c) = None"
    and "srv (peer (net c)) (transmission [(Mode req, out_buf w)]) = (p', Inr (bs, e))"
  shows "send fmt_v srv req c = Some (None, c\<lparr>rowOut := w, net := (net c)\<lparr>peer := p',
    sent := sent (net c) @ transmission [(Mode req, out_buf w)], inp := inp (net c) @ bs, inp_end := e\<rparr>\<rparr>)"
  using assms prepare_plain[OF assms(1)]
  by (simp add: send_def transmit_def WriteFrame_ok Bytes_def WriteTerminator_def bw_write_def bw_flush_def
      transmission_def Let_def)

lemma answered_exec:
  assumes "\<not> unusable c" "ctx_entry ctx (sent (net c)) = None" "in_sync (net c)" "plain_request req"
    and "EncodePayload fmt_v req NewRowOutput = Some (None, w)"
    and "srv (peer (net c)) (transmission [(Mode req, out_buf w)]) = (p', Inr (transmission (f # fs), e))"
    and "decodes (f # fs) (r # rs)"
  shows "\<exists>c'. execCtx fmt_v srv ctx req c =
      Some (if Mode r = ModeError then Inl (ServerError (MessageText r) (SQLState r) (ErrorCode r))
            else Inr (message.extend r \<lparr>Chained = rs\<rparr>), c') \<and>
    in_sync (net c') \<and> IsValid c' \<and> sent (net c') = sent (net c) @ transmission [(Mode req, out_buf w)]"
proof -
  let ?n = "(net c)\<lparr>peer := p', sent := sent (net c) @ transmission [(Mode req, out_buf w)],
    inp := inp (net c) @ transmission (f # fs), inp_end := e\<rparr>"
  let ?c = "c\<lparr>rowOut := w, net := ?n\<rparr>"
  have s: "send fmt_v srv req c = Some (None, ?c)"
    using assms by (intro send_plain) (simp_all add: in_sync_def)
  have i: "inp (net ?c) = transmission (f # fs) @ []"
    using assms(3) by (simp add: in_sync_def)
  note rc = receive_transmission[OF assms(7) i]
  have x: "exchange fmt_v srv req c = Some (Inr (message.extend r \<lparr>Chained = rs\<rparr>), ?c\<lparr>net := ?n\<lparr>inp := []\<rparr>\<rparr>)"
    using s rc by (simp add: exchange_def)
  have m: "Mode (message.extend r \<lparr>Chained = rs\<rparr>) = Mode r"
    "errorFromResult (message.extend r \<lparr>Chained = rs\<rparr>) = ServerError (MessageText r) (SQLState r) (ErrorCode r)"
    by (cases r, simp add: message.extend_def errorFromResult_def)+
  show ?thesis
    using assms(1-3) x m
    by (simp add: execCtx_def unusable_def IsValid_def in_sync_def)
qed

text \<open>C8: in a connection that is in sync, a request goes out as one transmission; if the server answers
  with a transmission of decodable messages, the call returns the first message with the others
  chained (or the server's error), and the connection is in sync again, on the very next byte.\<close>

theorem request_response:
  assumes "\<not> unusable c" "ctx_entry ctx (sent (net c)) = None" "in_sync (net c)" "plain_request req"
    and "EncodePayload fmt_v req NewRowOutput = Some (None, w)"
    and "srv (peer (net c)) (transmission [(Mode req, out_buf w)]) = (p', Inr (transmission (f # fs), e))"
    and "decodes (f # fs) (r # rs)"
  shows "\<exists>c'. execCtx fmt_v srv ctx req c =
      Some (if Mode r = ModeError then Inl (ServerError (MessageText r) (SQLState r) (ErrorCode r))
            else Inr (message.extend r \<lparr>Chained = rs\<rparr>), c') \<and>
    in_sync (net c') \<and> IsValid c' \<and> sent (net c') = sent (net c) @ transmission [(Mode req, out_buf w)]"
  using assms by (rule answered_exec)

text \<open>A small configuration and a peer that answers everything with one update count.\<close>

definition sample_config :: config where
  "sample_config = \<lparr>cfgHost = ''localhost'', cfgPort = 9001, cfgUser = ''SA'', cfgPassword = '''',
     cfgDatabase = ''db'', cfgTLS = False, cfgTLSConfig = None, cfgTLSConfigName = '''', cfgZone = ''UTC'',
     cfgTimeZoneSeconds = 0, cfgFetchSize = 0\<rparr>"

definition sample_conn :: "unit conn" where
  "sample_conn = new_conn sample_config (idle_net ())"

definition count_reply :: "(byte \<times> byte list) list" where
  "count_reply = [(ModeUpdateCount, [0, 0, 0, 1])]"

definition count_server :: "unit server" where
  "count_server p bs = (p, Inr (transmission count_reply, EOF))"

definition dead_server :: "unit server" where
  "dead_server p bs = (p, Inl NetError)"

lemma sample_conn_simps [simp]:
  "\<not> unusable sample_conn" "in_sync (net sample_conn)" "net sample_conn = idle_net ()"
  "conn_closed sample_conn = False" "broken sample_conn = False" "cfg sample_conn = sample_config"
  by (simp_all add: sample_conn_def new_conn_def unusable_def in_sync_def idle_net_def)

lemma count_reply_decodes:
  "decodes count_reply [(NewResult ModeUpdateCount)\<lparr>UpdateCount := 1\<rparr>]"
proof -
  have "ReadInt (NewRowInput [0, 0, 0, 1]) = (1, reading [0, 0, 0, 1] [])"
    using read_Int[of "[]" 1 "[]"] by (simp add: written_Int reading_New)
  then show ?thesis
    by (simp add: decodes_def count_reply_def DecodeResult_def decode_fields_def Err_def)
qed

lemma count_server_answers:
  assumes "\<not> unusable c" "in_sync (net c)" "plain_request req"
    and "EncodePayload fmt_v req NewRowOutput = Some (None, w)"
  shows "\<exists>c' r. execCtx fmt_v count_server Background req c = Some (Inr r, c') \<and> in_sync (net c') \<and> \<not> unusable c'"
proof -
  let ?m = "(NewResult ModeUpdateCount)\<lparr>UpdateCount := 1\<rparr>"
  have b: "ctx_entry Background (sent (net c)) = None" "Mode ?m \<noteq> ModeError" by (simp_all add: Background_def NewResult_def)
  have s: "count_server (peer (net c)) (transmission [(Mode req, out_buf w)]) =
      (peer (net c), Inr (transmission ((ModeUpdateCount, [0, 0, 0, 1]) # []), EOF))"
    by (simp add: count_server_def count_reply_def)
  have d: "decodes ((ModeUpdateCount, [0, 0, 0, 1]) # []) (?m # [])"
    using count_reply_decodes by (simp add: count_reply_def)
  from answered_exec[where srv = count_server, OF assms(1) b(1) assms(2,3,4) s d] b(2)
  show ?thesis by (auto simp: IsValid_def unusable_def)
qed

theorem failed_exchange_breaks_witness:
  "\<exists>c'. execCtx (\<lambda>_. '''') dead_server Background (NewResult ModeResetSession) sample_conn = Some (Inl NetError, c') \<and>
    broken c' \<and> execCtx (\<lambda>_. '''') dead_server Background (NewResult ModeResetSession) c' = Some (Inl ErrBadConn, c')"
proof -
  let ?r = "NewResult ModeResetSession"
  have p: "requestParamSlots ?r = Some ([], [])" by (simp add: requestParamSlots_def NewResult_def)
  have m: "Mode ?r = ModeResetSession" by (simp add: NewResult_def)
  obtain c' where c': "execCtx (\<lambda>_. '''') dead_server Background ?r sample_conn = Some (Inl NetError, c')"
    by (simp add: execCtx_def exchange_def send_def prepareArrayParams_def prepareLobParams_def p m
        transmit_def EncodePayload_def WriteFrame_ok idle_net_def WriteTerminator_def bw_write_def bw_flush_def
        dead_server_def frame_bytes_def Background_def Let_def)
  have e: "ctx_entry Background (sent (net sample_conn)) = None" by simp
  from failed_exchange_breaks[OF c' _ e] c' show ?thesis by auto
qed

theorem request_response_witness:
  "\<exists>c'. execCtx (\<lambda>_. '''') count_server Background (NewResult ModeResetSession) sample_conn =
      Some (Inr (message.extend ((NewResult ModeUpdateCount)\<lparr>UpdateCount := 1\<rparr>) \<lparr>Chained = []\<rparr>), c') \<and>
    in_sync (net c') \<and> IsValid c' \<and> sent (net c') = [ModeResetSession, 0, 0, 0, 4, ModeNone]"
proof -
  let ?r = "NewResult ModeResetSession" and ?m = "(NewResult ModeUpdateCount)\<lparr>UpdateCount := 1\<rparr>"
  have b: "plain_request ?r" "Mode ?r = ModeResetSession" "ctx_entry Background (sent (net sample_conn)) = None" "Mode ?m = ModeUpdateCount"
    by (simp_all add: plain_request_def NewResult_def Background_def)
  have w: "EncodePayload (\<lambda>_. '''') ?r NewRowOutput = Some (None, NewRowOutput)"
    by (simp add: EncodePayload_def b)
  have s: "count_server (peer (net sample_conn)) (transmission [(Mode ?r, out_buf NewRowOutput)]) =
      ((), Inr (transmission ((ModeUpdateCount, [0, 0, 0, 1]) # []), EOF))"
    by (simp add: count_server_def count_reply_def)
  have t: "transmission [(ModeResetSession, [])] = [ModeResetSession, 0, 0, 0, 4, ModeNone]"
    by (simp add: transmission_def frame_bytes_def int32_bytes_written written_Int)
  have d: "decodes ((ModeUpdateCount, [0, 0, 0, 1]) # []) (?m # [])"
    using count_reply_decodes by (simp add: count_reply_def)
  have i: "sent (idle_net ()) = []" by (simp add: idle_net_def)
  show ?thesis
    using request_response[where srv = count_server, OF sample_conn_simps(1) b(3) sample_conn_simps(2) b(1) w s d]
    unfolding b by (simp add: t i)
qed

theorem success_keeps_usable_witness:
  "\<exists>r c'. execCtx (\<lambda>_. '''') count_server Background (NewResult ModeResetSession) sample_conn = Some (Inr r, c') \<and>
    IsValid c' \<and> Mode r \<noteq> ModeError"
proof -
  have "plain_request (NewResult ModeResetSession)" by (simp add: plain_request_def NewResult_def)
  moreover have "EncodePayload (\<lambda>_. '''') (NewResult ModeResetSession) NewRowOutput = Some (None, NewRowOutput)"
    by (simp add: EncodePayload_def NewResult_def)
  ultimately show ?thesis
    using count_server_answers[OF sample_conn_simps(1,2)] success_keeps_usable by blast
qed

section \<open>Client-side failures and the handshake\<close>

text \<open>An argument that cannot be bound as an ARRAY is found before anything is written, and yet the
  connection is marked broken.\<close>

theorem bind_error_breaks:
  assumes "prepareArrayParams req = Some (Inl e)" "\<not> unusable c" "ctx_entry ctx (sent (net c)) = None" "ctx_exit ctx (sent (net c)) = None"
  shows "execCtx fmt_v srv ctx req c = Some (Inl e, c\<lparr>broken := True\<rparr>)"
  using assms by (simp add: execCtx_def unusable_def exchange_def send_def)

theorem bind_error_breaks_witness:
  "execCtx (\<lambda>_. '''') count_server Background
     ((NewResult ModeExecute)\<lparr>ParamMeta := Some (zero_meta\<lparr>ColumnCount := 1, Types := [type_of_code SQLArray]\<rparr>),
        ParamValues := [VInt64 1]\<rparr>) sample_conn =
   Some (Inl (Errorf ''hsql: cannot bind as ARRAY''), sample_conn\<lparr>broken := True\<rparr>)"
  by (rule bind_error_breaks)
    (simp_all add: prepareArrayParams_def requestParamSlots_def slice_types_def NewResult_def zero_meta_def
      type_of_code_def array_param_def Background_def)

text \<open>The login request, and the handshake after the version number was accepted.\<close>

definition connect_request :: "config \<Rightarrow> message" where
  "connect_request cf = (NewResult ModeConnect)\<lparr>DatabaseName := cfgDatabase cf, User := cfgUser cf,
     Password := cfgPassword cf, ZoneString := cfgZone cf, TimeZoneSeconds := word_of_int (cfgTimeZoneSeconds cf)\<rparr>"

lemma handshake_steps:
  assumes "werr (net c) = None" "pend (net c) = []"
    and "srv (peer (net c)) (int32_bytes NetworkCompatibilityVersionInt) = (p, Inr (bs, e))"
  shows "handshake fmt_v srv c = andThen (exchange fmt_v srv (connect_request (cfg c)))
    (\<lambda>res c. if Mode res \<noteq> ModeConnectAcknowledge then
         Some (Inl (Errorf ''hsql: unexpected handshake response mode''), c)
       else Some (Inr (), c\<lparr>sessionID := SessionID res, databaseID := DatabaseID res,
         randomID := RandomID res, serverProps := parseServerProperties (ClientProps res)\<rparr>))
    (c\<lparr>net := (net c)\<lparr>peer := p, sent := sent (net c) @ int32_bytes NetworkCompatibilityVersionInt,
       inp := inp (net c) @ bs, inp_end := e\<rparr>\<rparr>)"
proof -
  have "int32_bytes NetworkCompatibilityVersionInt \<noteq> []" by (simp add: int32_bytes_def)
  then show ?thesis
    using assms
    by (cases "net c") (simp add: handshake_def bw_write_def bw_flush_def connect_request_def Let_def)
qed

text \<open>The handshake takes ids and properties from a CONNECTACKNOWLEDGE; any other message, the
  server's ERROR included, is reported as an unexpected mode, and the server's text, SQLState and
  code are lost.\<close>

theorem handshake_outcome:
  assumes "werr (net c) = None" "pend (net c) = []"
    and "srv (peer (net c)) (int32_bytes NetworkCompatibilityVersionInt) = (p, Inr (bs, e))"
    and "exchange fmt_v srv (connect_request (cfg c))
      (c\<lparr>net := (net c)\<lparr>peer := p, sent := sent (net c) @ int32_bytes NetworkCompatibilityVersionInt,
         inp := inp (net c) @ bs, inp_end := e\<rparr>\<rparr>) = Some (Inr r, c')"
  shows "handshake fmt_v srv c =
    (if Mode r = ModeConnectAcknowledge then
       Some (Inr (), c'\<lparr>sessionID := SessionID r, databaseID := DatabaseID r, randomID := RandomID r,
         serverProps := parseServerProperties (ClientProps r)\<rparr>)
     else Some (Inl (Errorf ''hsql: unexpected handshake response mode''), c'))"
  unfolding handshake_steps[where srv = srv, OF assms(1-3)] by (simp add: andThen_def assms(4))

text \<open>Closing is final: a second Close does nothing, and no operation sends anything any more.\<close>

theorem Close_final:
  assumes "Close fmt_v srv c = Some (res, c')"
  shows "conn_closed c' \<and> \<not> IsValid c' \<and> Close fmt_v srv c' = Some (Inr (), c') \<and>
    execCtx fmt_v srv ctx req c' = Some (Inl ErrBadConn, c')"
proof -
  have "conn_closed c'"
  proof (cases "conn_closed c")
    case True
    then show ?thesis using assms by (simp add: Close_def)
  next
    case False
    then obtain e c1 where "send fmt_v srv (NewResult ModeDisconnect) (c\<lparr>conn_closed := True\<rparr>) = Some (e, c1)"
      "conn_closed c' = conn_closed c1"
      using assms by (auto simp: Close_def net_close_def split: bind_splits)
    then show ?thesis by (auto dest!: evolves_send simp: evolves_def)
  qed
  then show ?thesis by (simp add: IsValid_def Close_def exec_call.guard unusable_def)
qed

theorem Close_final_witness:
  "\<exists>c'. Close (\<lambda>_. '''') count_server sample_conn = Some (Inr (), c') \<and> conn_closed c'"
proof -
  let ?r = "NewResult ModeDisconnect" and ?c = "sample_conn\<lparr>conn_closed := True\<rparr>"
  have b: "plain_request ?r" "Mode ?r = ModeDisconnect" by (simp_all add: plain_request_def NewResult_def)
  have w: "EncodePayload (\<lambda>_. '''') ?r NewRowOutput = Some (None, NewRowOutput)"
    by (simp add: EncodePayload_def b)
  have n: "pend (net ?c) = []" "werr (net ?c) = None" by (simp_all add: idle_net_def)
  have "count_server (peer (net ?c)) (transmission [(Mode ?r, out_buf NewRowOutput)]) =
      ((), Inr (transmission count_reply, EOF))" by (simp add: count_server_def)
  from send_plain[where srv = count_server, OF b(1) w n this] obtain c' where c': "Close (\<lambda>_. '''') count_server sample_conn = Some (Inr (), c')"
    by (simp add: Close_def net_close_def idle_net_def)
  from Close_final[OF c'] c' show ?thesis by blast
qed

text \<open>A pooled connection that was reset is usable, in autocommit mode as far as the driver knows,
  and hands out LOB ids from -1 again; what it knows of altered session characteristics stays.\<close>

theorem ResetSession_ok:
  assumes "ResetSession fmt_v srv ctx c = Some (Inr (), c')"
  shows "IsValid c' \<and> autocommit c' \<and> lobIDSeq c' = -1"
proof -
  obtain r1 c1 r2 c2 where "execCtx fmt_v srv ctx (newExecDirect c ''ROLLBACK'') c = Some (Inr r1, c1)"
    and r2: "execCtx fmt_v srv ctx (newExecDirect c1 ''SET AUTOCOMMIT TRUE'') c1 = Some (Inr r2, c2)"
    and c': "c' = c2\<lparr>autocommit := True, lobIDSeq := -1\<rparr>"
    using assms by (auto simp: ResetSession_def andThen_Inr split: if_splits)
  from exec_ok_usable[OF r2] c' show ?thesis by (simp add: IsValid_def)
qed

lemma plain_direct: "plain_request (newExecDirect c q)"
  "\<exists>w. EncodePayload fmt_v (newExecDirect c q) NewRowOutput = Some (None, w)"
  by (simp_all add: plain_request_def newExecDirect_def NewResult_def EncodePayload_def)

theorem ResetSession_ok_witness:
  "\<exists>c'. ResetSession (\<lambda>_. '''') count_server Background sample_conn = Some (Inr (), c') \<and>
    IsValid c' \<and> autocommit c' \<and> lobIDSeq c' = -1"
proof -
  obtain r1 c1 where 1: "execCtx (\<lambda>_. '''') count_server Background (newExecDirect sample_conn ''ROLLBACK'') sample_conn =
      Some (Inr r1, c1)" "in_sync (net c1)" "\<not> unusable c1"
    using count_server_answers[OF sample_conn_simps(1,2) plain_direct(1)] plain_direct(2) by blast
  obtain r2 c2 where 2: "execCtx (\<lambda>_. '''') count_server Background (newExecDirect sample_conn ''SET AUTOCOMMIT TRUE'') c1 =
      Some (Inr r2, c2)"
    using count_server_answers[OF 1(3,2) plain_direct(1)] plain_direct(2) by blast
  have "cfg c1 = cfg sample_conn" using evolves_execCtx[OF 1(1)] by (simp add: evolves_def)
  then have d: "newExecDirect c1 q = newExecDirect sample_conn q" for q by (simp add: newExecDirect_def)
  have r: "ResetSession (\<lambda>_. '''') count_server Background sample_conn = Some (Inr (), c2\<lparr>autocommit := True, lobIDSeq := -1\<rparr>)"
    by (simp add: ResetSession_def andThen_def 1(1) 2 d)
  from ResetSession_ok[OF r] r show ?thesis by blast
qed

text \<open>A server that answers a login with an update count.\<close>

definition greeted_conn :: "unit conn" where
  "greeted_conn = sample_conn\<lparr>net := (net sample_conn)\<lparr>peer := (), sent := sent (net sample_conn) @
     int32_bytes NetworkCompatibilityVersionInt, inp := inp (net sample_conn) @ transmission count_reply,
     inp_end := EOF\<rparr>\<rparr>"

lemma refused_exchange:
  obtains r c' where "exchange fmt_v count_server (connect_request (cfg sample_conn)) greeted_conn = Some (Inr r, c')"
    "Mode r = ModeUpdateCount"
proof -
  let ?c = greeted_conn
  let ?req = "connect_request (cfg sample_conn)"
  have p: "plain_request ?req" by (simp add: plain_request_def connect_request_def NewResult_def)
  obtain w where w: "EncodePayload fmt_v ?req NewRowOutput = Some (None, w)"
    by (simp add: EncodePayload_def connect_request_def NewResult_def)
  have nc: "pend (net ?c) = []" "werr (net ?c) = None" by (simp_all add: idle_net_def greeted_conn_def)
  have sv: "count_server (peer (net ?c)) (transmission [(Mode ?req, out_buf w)]) =
      ((), Inr (transmission count_reply, EOF))" by (simp add: count_server_def)
  note s = send_plain[where srv = count_server, OF p w nc sv]
  let ?c1 = "?c\<lparr>rowOut := w, net := (net ?c)\<lparr>peer := (), sent := sent (net ?c) @ transmission [(Mode ?req, out_buf w)],
    inp := inp (net ?c) @ transmission count_reply, inp_end := EOF\<rparr>\<rparr>"
  have i: "inp (net ?c1) = transmission ((ModeUpdateCount, [0, 0, 0, 1]) # []) @ transmission count_reply"
    by (simp add: idle_net_def count_reply_def greeted_conn_def)
  have d: "decodes ((ModeUpdateCount, [0, 0, 0, 1]) # []) ((NewResult ModeUpdateCount)\<lparr>UpdateCount := 1\<rparr> # [])"
    using count_reply_decodes by (simp add: count_reply_def)
  obtain r c' where "exchange fmt_v count_server ?req ?c = Some (Inr r, c')" "Mode r = ModeUpdateCount"
    using s receive_transmission[OF d i] by (auto simp: exchange_def message.extend_def NewResult_def)
  then show ?thesis by (rule that)
qed

theorem handshake_outcome_witness:
  "\<exists>c'. handshake (\<lambda>_. '''') count_server sample_conn =
    Some (Inl (Errorf ''hsql: unexpected handshake response mode''), c')"
proof -
  have n: "werr (net sample_conn) = None" "pend (net sample_conn) = []"
    "count_server (peer (net sample_conn)) (int32_bytes NetworkCompatibilityVersionInt) =
      ((), Inr (transmission count_reply, EOF))"
    by (simp_all add: idle_net_def count_server_def)
  obtain r c' where x: "exchange (\<lambda>_. '''') count_server (connect_request (cfg sample_conn)) greeted_conn = Some (Inr r, c')"
      "Mode r = ModeUpdateCount"
    by (rule refused_exchange)
  with handshake_outcome[where srv = count_server, OF n x(1)[unfolded greeted_conn_def]] show ?thesis by simp
qed

end
