(* ===== verification/Session.thy ===== *)
theory Session
  imports ConnProps
begin

unbundle bit_operations_syntax

text \<open>
  The session operations of a connection: transactions (\<^verbatim>\<open>tx.go\<close>), savepoints (\<^verbatim>\<open>savepoint.go\<close>), the first
  phase of a two-phase commit (\<^verbatim>\<open>twophase.go\<close>), session attributes (\<^verbatim>\<open>sessionattr.go\<close>) and the
  cancellation side channel (\<^verbatim>\<open>cancel.go\<close>).
\<close>

section \<open>Session attributes\<close>

definition setSessionAttrBool ::
    "(gval \<Rightarrow> string) \<Rightarrow> 'p server \<Rightarrow> ctx \<Rightarrow> i32 \<Rightarrow> bool \<Rightarrow> ('p, unit) conn_op" where
  "setSessionAttrBool fmt_v srv ctx attrID v =
     andThen (execCtx fmt_v srv ctx (NewSessionAttrRequest attrID None (Some v) None)) (\<lambda>_. ok ())"

definition setSessionAttrInt ::
    "(gval \<Rightarrow> string) \<Rightarrow> 'p server \<Rightarrow> ctx \<Rightarrow> i32 \<Rightarrow> i32 \<Rightarrow> ('p, unit) conn_op" where
  "setSessionAttrInt fmt_v srv ctx attrID v =
     andThen (execCtx fmt_v srv ctx (NewSessionAttrRequest attrID (Some v) None None)) (\<lambda>_. ok ())"

text \<open>The constants of \<^verbatim>\<open>sql.IsolationLevel\<close> that the driver knows.\<close>

abbreviation LevelDefault :: int where "LevelDefault \<equiv> 0"
abbreviation LevelReadUncommitted :: int where "LevelReadUncommitted \<equiv> 1"
abbreviation LevelReadCommitted :: int where "LevelReadCommitted \<equiv> 2"
abbreviation LevelRepeatableRead :: int where "LevelRepeatableRead \<equiv> 4"
abbreviation LevelSerializable :: int where "LevelSerializable \<equiv> 6"

definition isolationFromWire :: "i32 \<Rightarrow> int" where
  "isolationFromWire v =
     (if v = TxReadUncommitted then LevelReadUncommitted
      else if v = TxReadCommitted then LevelReadCommitted
      else if v = TxRepeatableRead then LevelRepeatableRead
      else if v = TxSerializable then LevelSerializable
      else LevelDefault)"

record session_info =
  infoIsolation :: int
  infoAutoCommit :: bool
  infoReadOnly :: bool
  infoCatalog :: string
  infoTimeZone :: string

abbreviation attrPosInteger :: nat where "attrPosInteger \<equiv> 1"
abbreviation attrPosBoolean :: nat where "attrPosBoolean \<equiv> 2"
abbreviation attrPosVarchar :: nat where "attrPosVarchar \<equiv> 3"

definition sessionAttrRow ::
    "(gval \<Rightarrow> string) \<Rightarrow> 'p server \<Rightarrow> ctx \<Rightarrow> i32 \<Rightarrow> ('p, gval list) conn_op" where
  "sessionAttrRow fmt_v srv ctx attrID c =
     (if conn_closed c \<or> broken c then Some (Inl ErrBadConn, c)
      else andThen (execCtx fmt_v srv ctx ((NewResult ModeGetSessionAttr)\<lparr>StatementReturnType := ucast attrID\<rparr>))
        (\<lambda>res c. case RowSet res of
            None \<Rightarrow> Some (Inl (Errorf ''hsql: malformed session attribute response''), c)
          | Some rs \<Rightarrow>
              (case Rows rs of
                 [] \<Rightarrow> Some (Inl (Errorf ''hsql: malformed session attribute response''), c)
               | row # _ \<Rightarrow>
                   if length row \<le> attrPosVarchar
                   then Some (Inl (Errorf ''hsql: malformed session attribute response''), c)
                   else Some (Inr row, c))) c)"

text \<open>\<^verbatim>\<open>v, _ := x.(bool)\<close> and its kin: a value of another type is the zero value.\<close>

definition bool_or_zero :: "gval \<Rightarrow> bool" where
  "bool_or_zero v = (case v of VBool b \<Rightarrow> b | _ \<Rightarrow> False)"

definition string_or_zero :: "gval \<Rightarrow> string" where
  "string_or_zero v = (case v of VString s \<Rightarrow> s | _ \<Rightarrow> [])"

definition SessionInfo :: "(gval \<Rightarrow> string) \<Rightarrow> 'p server \<Rightarrow> ctx \<Rightarrow> ('p, session_info) conn_op" where
  "SessionInfo fmt_v srv ctx =
     andThen (sessionAttrRow fmt_v srv ctx AttrIsolation) (\<lambda>iso.
     andThen (sessionAttrRow fmt_v srv ctx AttrAutocommit) (\<lambda>ac.
     andThen (sessionAttrRow fmt_v srv ctx AttrConnectionReadonly) (\<lambda>ro.
     andThen (sessionAttrRow fmt_v srv ctx AttrCatalog) (\<lambda>cat.
     andThen (sessionAttrRow fmt_v srv ctx AttrTimezone) (\<lambda>tz.
       ok \<lparr>infoIsolation = (case iso ! attrPosInteger of VInt64 v \<Rightarrow> isolationFromWire (ucast v) | _ \<Rightarrow> LevelDefault),
           infoAutoCommit = bool_or_zero (ac ! attrPosBoolean),
           infoReadOnly = bool_or_zero (ro ! attrPosBoolean),
           infoCatalog = string_or_zero (cat ! attrPosVarchar),
           infoTimeZone = string_or_zero (tz ! attrPosVarchar)\<rparr>)))))"

section \<open>Transactions\<close>

record tx_options =
  txIsolation :: int
  txReadOnly :: bool

definition isolationSQL :: "int \<Rightarrow> string go_result" where
  "isolationSQL lvl =
     (if lvl = LevelReadUncommitted then Inr ''READ UNCOMMITTED''
      else if lvl = LevelReadCommitted then Inr ''READ COMMITTED''
      else if lvl = LevelRepeatableRead then Inr ''REPEATABLE READ''
      else if lvl = LevelSerializable then Inr ''SERIALIZABLE''
      else Inl (Errorf ''hsql: unsupported isolation level''))"

text \<open>The two \<^verbatim>\<open>SET TRANSACTION\<close> steps of \<^verbatim>\<open>BeginTx\<close>, each of which marks the session as altered.\<close>

definition setIsolation :: "(gval \<Rightarrow> string) \<Rightarrow> 'p server \<Rightarrow> ctx \<Rightarrow> int \<Rightarrow> ('p, unit) conn_op" where
  "setIsolation fmt_v srv ctx lvl c =
     (if lvl = LevelDefault then Some (Inr (), c)
      else case isolationSQL lvl of
        Inl e \<Rightarrow> Some (Inl e, c)
      | Inr level \<Rightarrow>
          andThen (execCtx fmt_v srv ctx (newExecDirect c (''SET TRANSACTION ISOLATION LEVEL '' @ level)))
            (\<lambda>_ c. Some (Inr (), c\<lparr>txAlteredSession := True\<rparr>)) c)"

definition setReadOnly :: "(gval \<Rightarrow> string) \<Rightarrow> 'p server \<Rightarrow> ctx \<Rightarrow> bool \<Rightarrow> ('p, unit) conn_op" where
  "setReadOnly fmt_v srv ctx ro c =
     (if \<not> ro then Some (Inr (), c)
      else andThen (execCtx fmt_v srv ctx (newExecDirect c ''SET TRANSACTION READ ONLY''))
        (\<lambda>_ c. Some (Inr (), c\<lparr>txAlteredSession := True\<rparr>)) c)"

definition BeginTx :: "(gval \<Rightarrow> string) \<Rightarrow> 'p server \<Rightarrow> ctx \<Rightarrow> tx_options \<Rightarrow> ('p, unit) conn_op" where
  "BeginTx fmt_v srv ctx opts c =
     (if conn_closed c \<or> broken c then Some (Inl ErrBadConn, c)
      else if \<not> autocommit c then Some (Inl (Errorf ''hsql: nested transactions are not supported''), c)
      else
        andThen (setIsolation fmt_v srv ctx (txIsolation opts)) (\<lambda>_.
        andThen (setReadOnly fmt_v srv ctx (txReadOnly opts)) (\<lambda>_.
        andThen (setSessionAttrBool fmt_v srv ctx AttrAutocommit False) (\<lambda>_ c.
          Some (Inr (), c\<lparr>autocommit := False\<rparr>)))) c)"

definition Begin :: "(gval \<Rightarrow> string) \<Rightarrow> 'p server \<Rightarrow> ('p, unit) conn_op" where
  "Begin fmt_v srv = BeginTx fmt_v srv Background \<lparr>txIsolation = LevelDefault, txReadOnly = False\<rparr>"

definition endTran :: "(gval \<Rightarrow> string) \<Rightarrow> 'p server \<Rightarrow> i32 \<Rightarrow> ('p, unit) conn_op" where
  "endTran fmt_v srv txType =
     andThen (exec fmt_v srv ((NewResult ModeEndTran)\<lparr>TxType := txType\<rparr>)) (\<lambda>_. ok ())"

text \<open>
  The three requests are sent whatever the earlier ones returned: the Go code evaluates all the calls
  when it builds the slice of errors.
\<close>

definition resetSessionCharacteristics :: "(gval \<Rightarrow> string) \<Rightarrow> 'p server \<Rightarrow> 'p conn \<Rightarrow> 'p conn option" where
  "resetSessionCharacteristics fmt_v srv c =
     (if \<not> txAlteredSession c \<or> conn_closed c \<or> broken c then Some c
      else
        do { (e1, c) \<leftarrow> setSessionAttrInt fmt_v srv Background AttrIsolation TxSerializable
               (c\<lparr>txAlteredSession := False\<rparr>);
             (e2, c) \<leftarrow> setSessionAttrInt fmt_v srv Background AttrIsolation TxReadCommitted c;
             (e3, c) \<leftarrow> setSessionAttrBool fmt_v srv Background AttrConnectionReadonly False c;
             Some (if isl e1 \<or> isl e2 \<or> isl e3 then c\<lparr>broken := True\<rparr> else c) })"

definition finish :: "(gval \<Rightarrow> string) \<Rightarrow> 'p server \<Rightarrow> i32 \<Rightarrow> ('p, unit) conn_op" where
  "finish fmt_v srv txType c =
     (if conn_closed c \<or> broken c then Some (Inl ErrBadConn, c)
      else
        do { (res, c) \<leftarrow> endTran fmt_v srv txType c;
             case res of
               Inl e \<Rightarrow>
                 do { (_, c) \<leftarrow> setSessionAttrBool fmt_v srv Background AttrAutocommit True c;
                      c \<leftarrow> resetSessionCharacteristics fmt_v srv (c\<lparr>autocommit := True\<rparr>);
                      Some (Inl e, c) }
             | Inr _ \<Rightarrow>
                 do { (res, c) \<leftarrow> setSessionAttrBool fmt_v srv Background AttrAutocommit True c;
                      case res of
                        Inl e \<Rightarrow> Some (Inl e, c)
                      | Inr _ \<Rightarrow>
                          do { c \<leftarrow> resetSessionCharacteristics fmt_v srv (c\<lparr>autocommit := True\<rparr>);
                               Some (Inr (), c) } } })"

definition Commit :: "(gval \<Rightarrow> string) \<Rightarrow> 'p server \<Rightarrow> ('p, unit) conn_op" where
  "Commit fmt_v srv = finish fmt_v srv TxCommit"

definition Rollback :: "(gval \<Rightarrow> string) \<Rightarrow> 'p server \<Rightarrow> ('p, unit) conn_op" where
  "Rollback fmt_v srv = finish fmt_v srv TxRollback"

section \<open>Savepoints and prepared commits\<close>

definition Savepoint :: "(gval \<Rightarrow> string) \<Rightarrow> 'p server \<Rightarrow> ctx \<Rightarrow> string \<Rightarrow> ('p, unit) conn_op" where
  "Savepoint fmt_v srv ctx name c =
     (if name = [] then Some (Inl (Errorf ''hsql: savepoint name is empty''), c)
      else if conn_closed c \<or> broken c then Some (Inl ErrBadConn, c)
      else andThen (execCtx fmt_v srv ctx ((NewResult ModeSetConnectAttr)
             \<lparr>ConnectAttr := ConnectAttrSavepointName, SavepointName := name\<rparr>)) (\<lambda>_. ok ()) c)"

definition savepointEnd :: "(gval \<Rightarrow> string) \<Rightarrow> 'p server \<Rightarrow> ctx \<Rightarrow> i32 \<Rightarrow> string \<Rightarrow> ('p, unit) conn_op" where
  "savepointEnd fmt_v srv ctx txType name c =
     (if name = [] then Some (Inl (Errorf ''hsql: savepoint name is empty''), c)
      else if conn_closed c \<or> broken c then Some (Inl ErrBadConn, c)
      else andThen (execCtx fmt_v srv ctx ((NewResult ModeEndTran)
             \<lparr>TxType := txType, SavepointName := name\<rparr>)) (\<lambda>_. ok ()) c)"

definition RollbackToSavepoint :: "(gval \<Rightarrow> string) \<Rightarrow> 'p server \<Rightarrow> ctx \<Rightarrow> string \<Rightarrow> ('p, unit) conn_op" where
  "RollbackToSavepoint fmt_v srv ctx = savepointEnd fmt_v srv ctx TxSavepointNameRollback"

definition ReleaseSavepoint :: "(gval \<Rightarrow> string) \<Rightarrow> 'p server \<Rightarrow> ctx \<Rightarrow> string \<Rightarrow> ('p, unit) conn_op" where
  "ReleaseSavepoint fmt_v srv ctx = savepointEnd fmt_v srv ctx TxSavepointNameRelease"

definition PrepareCommit :: "(gval \<Rightarrow> string) \<Rightarrow> 'p server \<Rightarrow> ctx \<Rightarrow> ('p, unit) conn_op" where
  "PrepareCommit fmt_v srv ctx c =
     (if conn_closed c \<or> broken c then Some (Inl ErrBadConn, c)
      else andThen (execCtx fmt_v srv ctx ((NewResult ModeEndTran)\<lparr>TxType := TxPrepareCommit\<rparr>))
        (\<lambda>_. ok ()) c)"

section \<open>The cancellation side channel\<close>

definition cancel_request :: "'p conn \<Rightarrow> message" where
  "cancel_request c = (NewResult ModeSQLCancel)\<lparr>DatabaseID := databaseID c, SessionID := sessionID c,
     StatementID := 0, RandomID := randomID c\<rparr>"

text \<open>What goes over the fresh socket; every error just ends it, and the answer is drained.\<close>

definition cancel_exchange :: "(gval \<Rightarrow> string) \<Rightarrow> 'q server \<Rightarrow> message \<Rightarrow> 'q net \<Rightarrow> 'q net option" where
  "cancel_exchange fmt_v srv req n =
     (let (err, n) = bw_write (int32_bytes NetworkCompatibilityVersionInt) n in
      if err \<noteq> None then Some n
      else do { (err, out) \<leftarrow> EncodePayload fmt_v req NewRowOutput;
        if err \<noteq> None then Some n
        else
          let (err, n) = WriteFrame (Mode req) (Bytes out) n in
          if err \<noteq> None then Some n
          else
            let (err, n) = WriteTerminator n in
            if err \<noteq> None then Some n
            else
              let (err, n) = bw_flush srv n in
              if err \<noteq> None then Some n
              else Some (snd (ReadFrame n)) })"

text \<open>
  \<^verbatim>\<open>fireCancel\<close>: the final state of the second socket, if one was opened, which is closed on every path; the outer \<open>None\<close> is a panic.
\<close>

definition fireCancel :: "(gval \<Rightarrow> string) \<Rightarrow> 'q server \<Rightarrow> 'q dialer \<Rightarrow> 'p conn \<Rightarrow> 'q net option option" where
  "fireCancel fmt_v srv dial c =
     (if sessionID c = 0 then Some None
      else case dial (address (cfg c)) (tls_settings (cfg c)) of
          Inl _ \<Rightarrow> Some None
        | Inr n \<Rightarrow> map_option (\<lambda>n. Some (snd (net_close n))) (cancel_exchange fmt_v srv (cancel_request c) n))"

section \<open>What is reported about the server\<close>

text \<open>\<^verbatim>\<open>ServerProperties\<close> returns a copy of the map.\<close>

definition ServerProperties :: "'p conn \<Rightarrow> (string \<rightharpoonup> string)" where
  "ServerProperties c = serverProps c"

text \<open>The text of a server error.\<close>

definition ErrorText :: "string \<Rightarrow> string \<Rightarrow> i32 \<Rightarrow> string" where
  "ErrorText msg st code = ''hsql: '' @ msg @ '' (SQLState '' @ st @ '', code '' @ int_string (sint code) @ '')''"

end
