(* ===== verification/Dialogue.thy ===== *)
theory Dialogue
  imports ConnProps
begin

unbundle bit_operations_syntax

text \<open>
  The conversation of a connection with a server that is given by its answers to whole messages: what
  the operations above one exchange are stated over.
\<close>

section \<open>What an exchange leaves alone\<close>

definition same_session :: "'p conn \<Rightarrow> 'p conn \<Rightarrow> bool" where
  "same_session c c' \<longleftrightarrow> cfg c' = cfg c \<and> sessionID c' = sessionID c \<and> databaseID c' = databaseID c \<and>
     randomID c' = randomID c \<and> serverProps c' = serverProps c \<and> autocommit c' = autocommit c \<and>
     txAlteredSession c' = txAlteredSession c"

lemma same_session_refl [simp]: "same_session c c"
  by (simp add: same_session_def)

lemma same_session_trans: "same_session c c' \<Longrightarrow> same_session c' c'' \<Longrightarrow> same_session c c''"
  by (simp add: same_session_def)

lemma same_session_updates [simp]:
  "same_session c (c'\<lparr>net := n\<rparr>) = same_session c c'" "same_session c (c'\<lparr>broken := b\<rparr>) = same_session c c'"
  "same_session c (c'\<lparr>lobIDSeq := s\<rparr>) = same_session c c'" "same_session c (c'\<lparr>rowOut := w\<rparr>) = same_session c c'"
  by (simp_all add: same_session_def)

lemma same_session_lobs: "writeLobs lobs c = (e, c') \<Longrightarrow> same_session c c'"
proof (induction lobs arbitrary: c)
  case (Cons lob lobs)
  obtain err n where w: "writeLobCreate (databaseID c, sessionID c) lob (net c) = (err, n)" by fastforce
  have "same_session (c\<lparr>net := n\<rparr>) c' \<Longrightarrow> same_session c c'" by (simp add: same_session_def)
  then show ?case using Cons w by (cases err) auto
qed simp

lemma same_session_transmit:
  assumes "transmit srv mode lobs c = (e, c')"
  shows "same_session c c'"
proof -
  obtain e1 n1 where f: "WriteFrame mode (Bytes (rowOut c)) (net c) = (e1, n1)" by fastforce
  obtain e2 c2 where l: "writeLobs lobs (c\<lparr>net := n1\<rparr>) = (e2, c2)" by fastforce
  obtain e3 n3 where t: "WriteTerminator (net c2) = (e3, n3)" by fastforce
  obtain e4 n4 where u: "bw_flush srv n3 = (e4, n4)" by fastforce
  have "same_session c c2" using same_session_lobs[OF l] by (simp add: same_session_def)
  moreover have "c' \<in> {c\<lparr>net := n1\<rparr>, c2, c2\<lparr>net := n3\<rparr>, c2\<lparr>net := n4\<rparr>}"
    using assms f l t u by (auto simp: transmit_def Let_def split: if_splits)
  ultimately show ?thesis by auto
qed

lemma same_session_send: "send fmt_v srv req c = Some (e, c') \<Longrightarrow> same_session c c'"
  by (erule send_cases) (auto dest!: same_session_transmit simp: same_session_def)

lemma same_session_exchange: "exchange fmt_v srv req c = Some (res, c') \<Longrightarrow> same_session c c'"
  by (erule exchange_cases) (auto dest!: same_session_send receive_net)

lemma same_session_execCtx: "execCtx fmt_v srv ctx req c = Some (res, c') \<Longrightarrow> same_session c c'"
  by (auto simp: execCtx_def dest!: same_session_exchange split: if_splits option.splits bind_splits sum.splits)

lemma exec_failure:
  assumes "execCtx fmt_v srv ctx req c = Some (Inl e, c')" "\<not> unusable c" "in_time ctx"
  shows "unusable c' \<or> (\<exists>msg st code. e = ServerError msg st code)"
  using assms by (auto simp: execCtx_def unusable_def errorFromResult_def in_time_entry split: bind_splits sum.splits if_splits)

text \<open>A call whose result is dropped.\<close>

lemma unit_step: "andThen m (\<lambda>_. ok ()) c = Some (res, c') \<longleftrightarrow> (\<exists>r. m c = Some (r, c') \<and> res = map_sum id (\<lambda>_. ()) r)"
  by (auto simp: andThen_def ok_def split: bind_splits sum.splits)

lemma andThenE:
  assumes "andThen m f c = Some (res, c')"
  obtains (failed) e where "m c = Some (Inl e, c')" "res = Inl e"
    | (went) x c1 where "m c = Some (Inr x, c1)" "f x c1 = Some (res, c')"
  using assms by (auto simp: andThen_def split: bind_splits sum.splits)

section \<open>A server by its messages\<close>

text \<open>
  \<open>reply p f\<close>: the next state, the message and the chained messages with which a server in state \<open>p\<close>
  answers the request frame \<open>f\<close>.  \<open>speaks srv reply\<close>: the byte-level peer \<open>srv\<close> implements it, each answer
  being a transmission that decodes to the messages.
\<close>

type_synonym 'p reply = "'p \<Rightarrow> byte \<times> byte list \<Rightarrow> 'p \<times> message \<times> message list"

definition speaks :: "'p server \<Rightarrow> 'p reply \<Rightarrow> bool" where
  "speaks srv reply \<longleftrightarrow> (\<forall>p f. \<exists>f1 fs e. srv p (transmission [f]) =
     (fst (reply p f), Inr (transmission (f1 # fs), e)) \<and>
     decodes (f1 # fs) (fst (snd (reply p f)) # snd (snd (reply p f))))"

text \<open>A request that has no slots to prepare and a payload.\<close>

definition encodes :: "(gval \<Rightarrow> string) \<Rightarrow> message \<Rightarrow> byte list \<Rightarrow> bool" where
  "encodes fmt_v req payload \<longleftrightarrow> plain_request req \<and>
     (\<exists>w. EncodePayload fmt_v req NewRowOutput = Some (None, w) \<and> out_buf w = payload)"

definition encodable :: "(gval \<Rightarrow> string) \<Rightarrow> message \<Rightarrow> bool" where
  "encodable fmt_v req \<longleftrightarrow> (\<exists>payload. encodes fmt_v req payload)"

text \<open>The frame of a request, and the answer to it.\<close>

definition request_frame :: "(gval \<Rightarrow> string) \<Rightarrow> message \<Rightarrow> byte \<times> byte list" where
  "request_frame fmt_v req =
     (Mode req, case EncodePayload fmt_v req NewRowOutput of Some (None, w) \<Rightarrow> out_buf w | _ \<Rightarrow> [])"

definition live :: "'p conn \<Rightarrow> bool" where
  "live c \<longleftrightarrow> IsValid c \<and> in_sync (net c)"

text \<open>\<open>said fmt_v c reqs c'\<close>: from \<open>c\<close> to \<open>c'\<close> exactly the requests \<open>reqs\<close> went out, in that order.\<close>

definition said :: "(gval \<Rightarrow> string) \<Rightarrow> 'p conn \<Rightarrow> message list \<Rightarrow> 'p conn \<Rightarrow> bool" where
  "said fmt_v c reqs c' \<longleftrightarrow> live c' \<and> cfg c' = cfg c \<and>
     sent (net c') = sent (net c) @ concat (map (\<lambda>r. transmission [request_frame fmt_v r]) reqs)"

lemma said_refl: "live c \<Longrightarrow> said fmt_v c [] c"
  by (simp add: said_def)

lemma said_trans: "said fmt_v c xs c' \<Longrightarrow> said fmt_v c' ys c'' \<Longrightarrow> said fmt_v c (xs @ ys) c''"
  by (auto simp: said_def)

lemma said_live: "said fmt_v c xs c' \<Longrightarrow> live c'"
  by (simp add: said_def)

lemma live_flags [simp]:
  "live (c\<lparr>autocommit := a\<rparr>) = live c" "live (c\<lparr>txAlteredSession := b\<rparr>) = live c" "live (c\<lparr>lobIDSeq := s\<rparr>) = live c"
  by (simp_all add: live_def IsValid_def)

lemma said_flags [simp]:
  "said fmt_v c xs (c'\<lparr>autocommit := a\<rparr>) = said fmt_v c xs c'"
  "said fmt_v c xs (c'\<lparr>txAlteredSession := b\<rparr>) = said fmt_v c xs c'"
  "said fmt_v (c\<lparr>autocommit := a\<rparr>) xs c' = said fmt_v c xs c'"
  "said fmt_v (c\<lparr>txAlteredSession := b\<rparr>) xs c' = said fmt_v c xs c'"
  by (simp_all add: said_def)

lemma live_not_unusable: "live c \<Longrightarrow> \<not> unusable c \<and> \<not> conn_closed c \<and> \<not> broken c"
  by (simp add: live_def IsValid_def unusable_def)

lemma message_extend_simps [simp]:
  "Mode (message.extend r \<lparr>Chained = rs\<rparr>) = Mode r" "RowSet (message.extend r \<lparr>Chained = rs\<rparr>) = RowSet r"
  "Meta (message.extend r \<lparr>Chained = rs\<rparr>) = Meta r" "ParamMeta (message.extend r \<lparr>Chained = rs\<rparr>) = ParamMeta r"
  "StatementID (message.extend r \<lparr>Chained = rs\<rparr>) = StatementID r"
  "UpdateCount (message.extend r \<lparr>Chained = rs\<rparr>) = UpdateCount r"
  "RSProperties (message.extend r \<lparr>Chained = rs\<rparr>) = RSProperties r"
  "MessageText (message.extend r \<lparr>Chained = rs\<rparr>) = MessageText r"
  "SQLState (message.extend r \<lparr>Chained = rs\<rparr>) = SQLState r" "ErrorCode (message.extend r \<lparr>Chained = rs\<rparr>) = ErrorCode r"
  by (cases r, simp add: message.extend_def)+

text \<open>One call on a live connection, seen as one step of the message-level server.\<close>

lemma exec_speaks_at:
  assumes "speaks srv reply" "live c" "ctx_entry ctx (sent (net c)) = None" "encodable fmt_v req"
    and "reply (peer (net c)) (request_frame fmt_v req) = (p', r, rs)"
  shows "\<exists>c'. execCtx fmt_v srv ctx req c =
      Some (if Mode r = ModeError then Inl (ServerError (MessageText r) (SQLState r) (ErrorCode r))
            else Inr (message.extend r \<lparr>Chained = rs\<rparr>), c') \<and>
    said fmt_v c [req] c' \<and> peer (net c') = p' \<and> lobIDSeq c' = lobIDSeq c"
proof -
  obtain w where pl: "plain_request req" and en: "EncodePayload fmt_v req NewRowOutput = Some (None, w)"
    using assms(4) by (auto simp: encodable_def encodes_def)
  have fr: "request_frame fmt_v req = (Mode req, out_buf w)" by (simp add: request_frame_def en)
  obtain f1 fs e where sv: "srv (peer (net c)) (transmission [(Mode req, out_buf w)]) = (p', Inr (transmission (f1 # fs), e))"
    and de: "decodes (f1 # fs) (r # rs)"
    using assms(1,5) fr unfolding speaks_def by (metis fst_conv snd_conv)
  let ?n = "(net c)\<lparr>peer := p', sent := sent (net c) @ transmission [(Mode req, out_buf w)],
    inp := inp (net c) @ transmission (f1 # fs), inp_end := e\<rparr>"
  let ?c = "c\<lparr>rowOut := w, net := ?n\<rparr>"
  have sync: "in_sync (net c)" and ok: "\<not> unusable c" using assms(2) live_not_unusable by (auto simp: live_def)
  have s: "send fmt_v srv req c = Some (None, ?c)"
    using pl en sv sync by (intro send_plain) (simp_all add: in_sync_def)
  have "inp (net ?c) = transmission (f1 # fs) @ []" using sync by (simp add: in_sync_def)
  note rc = receive_transmission[OF de this]
  have x: "exchange fmt_v srv req c = Some (Inr (message.extend r \<lparr>Chained = rs\<rparr>), ?c\<lparr>net := ?n\<lparr>inp := []\<rparr>\<rparr>)"
    using s rc by (simp add: exchange_def)
  have "execCtx fmt_v srv ctx req c =
      Some (if Mode r = ModeError then Inl (ServerError (MessageText r) (SQLState r) (ErrorCode r))
            else Inr (message.extend r \<lparr>Chained = rs\<rparr>), ?c\<lparr>net := ?n\<lparr>inp := []\<rparr>\<rparr>)"
    using ok assms(3) x by (simp add: execCtx_def unusable_def errorFromResult_def)
  moreover have "said fmt_v c [req] (?c\<lparr>net := ?n\<lparr>inp := []\<rparr>\<rparr>)"
    using assms(2) sync fr by (simp add: said_def live_def IsValid_def in_sync_def)
  ultimately show ?thesis by fastforce
qed

lemmas exec_speaks = exec_speaks_at[OF _ _ in_time_entry]

text \<open>A server that refuses nothing.\<close>

definition accepting :: "'p reply \<Rightarrow> bool" where
  "accepting reply \<longleftrightarrow> (\<forall>p f. Mode (fst (snd (reply p f))) \<noteq> ModeError)"

lemma exec_accepted:
  assumes "speaks srv reply" "accepting reply" "live c" "in_time ctx" "encodable fmt_v req"
  shows "\<exists>r c'. execCtx fmt_v srv ctx req c = Some (Inr r, c') \<and> said fmt_v c [req] c' \<and> same_session c c'"
proof -
  obtain p' r rs where rp: "reply (peer (net c)) (request_frame fmt_v req) = (p', r, rs)" by (metis prod.collapse)
  have "Mode r \<noteq> ModeError" using assms(2) rp unfolding accepting_def by (metis fst_conv snd_conv)
  then show ?thesis
    using exec_speaks[OF assms(1,3,4,5) rp] same_session_execCtx by fastforce
qed

section \<open>Requests that can be encoded\<close>

lemma encodable_direct [simp]: "encodable fmt_v (newExecDirect c q)"
  using plain_direct by (auto simp: encodable_def encodes_def)

lemma encodable_endtran [simp]:
  "encodable fmt_v ((NewResult ModeEndTran)\<lparr>TxType := t\<rparr>)"
  "encodable fmt_v ((NewResult ModeEndTran)\<lparr>TxType := t, SavepointName := s\<rparr>)"
  by (simp_all add: encodable_def encodes_def plain_request_def EncodePayload_def NewResult_def Let_def)

lemma encodable_connect_attr [simp]:
  "encodable fmt_v ((NewResult ModeSetConnectAttr)\<lparr>ConnectAttr := a, SavepointName := s\<rparr>)"
  by (simp add: encodable_def encodes_def plain_request_def EncodePayload_def NewResult_def Let_def)

lemma encodable_get_attr [simp]:
  "encodable fmt_v ((NewResult ModeGetSessionAttr)\<lparr>StatementReturnType := a\<rparr>)"
  by (simp add: encodable_def encodes_def plain_request_def EncodePayload_def NewResult_def Let_def)

lemma encodable_session_attr [simp]:
  "encodable fmt_v (NewSessionAttrRequest a i b None)"
proof -
  let ?r = "NewSessionAttrRequest a i b None"
  have ok: "batch_ok fmt_v ?r SessionAttrMetadata" by (rule batch_ok_session_attr) simp
  have m: "Mode ?r = ModeSetSessionAttr" by (simp add: NewSessionAttrRequest_def NewResult_def)
  obtain w where "EncodePayload fmt_v ?r NewRowOutput = Some (None, w)"
    using batch_bytes[OF ok] m by blast
  then show ?thesis by (auto simp: encodable_def encodes_def plain_request_def m)
qed

end
