(* ===== verification/SessionProps.thy ===== *)
theory SessionProps
  imports Session Dialogue
begin

unbundle bit_operations_syntax

text \<open>
  Transactions as dialogues: the requests they send and in which order, what is left when the server
  refuses a step, and that the driver and the server agree about autocommit.
\<close>

section \<open>The contract of the session operations\<close>

lemma steady_guarded:
  "(\<And>c. unusable c \<Longrightarrow> op c = Some (Inl ErrBadConn, c)) \<Longrightarrow>
   (\<And>c res c'. \<not> unusable c \<Longrightarrow> op c = Some (res, c') \<Longrightarrow> evolves c c') \<Longrightarrow> conn_call op"
  by (metis conn_call.intro evolves_refl option.inject prod.inject)

lemma evolves_flags [simp]:
  "evolves c (c'\<lparr>autocommit := a\<rparr>) = evolves c c'" "evolves c (c'\<lparr>txAlteredSession := b\<rparr>) = evolves c c'"
  "evolves (c\<lparr>autocommit := a\<rparr>) c' = evolves c c'" "evolves (c\<lparr>txAlteredSession := b\<rparr>) c' = evolves c c'"
  by (simp_all add: evolves_def)

lemma evolves_broken: "evolves c c' \<Longrightarrow> evolves c (c'\<lparr>broken := True\<rparr>)"
  by (simp add: evolves_def)

lemma steady_attr [intro]:
  "steady (setSessionAttrBool fmt_v srv ctx a v)" "steady (setSessionAttrInt fmt_v srv ctx a i)"
  unfolding setSessionAttrBool_def setSessionAttrInt_def by (intro steady_andThen steady_execCtx steady_ok)+

lemma steady_endTran [intro]: "steady (endTran fmt_v srv t)"
  unfolding endTran_def exec_def by (intro steady_andThen steady_execCtx steady_ok)

lemma steady_flag_step:
  "steady (\<lambda>c. andThen (execCtx fmt_v srv ctx (f c)) (\<lambda>_ c. Some (Inr (), c\<lparr>txAlteredSession := True\<rparr>)) c)"
  by (rule steady_at[where f = "\<lambda>c0. andThen (execCtx fmt_v srv ctx (f c0))
      (\<lambda>_ c. Some (Inr (), c\<lparr>txAlteredSession := True\<rparr>))"], rule steady_andThen, rule steady_execCtx, rule steady_set) simp

lemma steady_cases: "steady f \<Longrightarrow> steady (\<lambda>c. case x of Inl e \<Rightarrow> Some (Inl e, c) | Inr y \<Rightarrow> f c)"
  by (cases x) (auto simp: steady_def)

lemma steady_settings [intro]: "steady (setIsolation fmt_v srv ctx lvl)" "steady (setReadOnly fmt_v srv ctx ro)"
  unfolding setIsolation_def[abs_def] setReadOnly_def[abs_def]
  by (rule steady_guard, cases "isolationSQL lvl", simp add: steady_def, simp, rule steady_flag_step)
    (rule steady_guard, rule steady_flag_step)

lemma steady_BeginTx [intro]: "steady (BeginTx fmt_v srv ctx opts)"
  unfolding BeginTx_def[abs_def]
  by (intro steady_guard steady_andThen steady_settings steady_attr steady_set) simp

interpretation begin_call: conn_call "BeginTx fmt_v srv ctx opts"
  by (rule conn_callI[OF _ steady_BeginTx]) (simp add: BeginTx_def unusable_def)

lemma reset_characteristics_cases:
  assumes "resetSessionCharacteristics fmt_v srv c = Some c'"
  obtains (none) "\<not> txAlteredSession c \<or> conn_closed c \<or> broken c" "c' = c"
    | (reset) e1 c1 e2 c2 e3 c3 where "txAlteredSession c"
        "setSessionAttrInt fmt_v srv Background AttrIsolation TxSerializable (c\<lparr>txAlteredSession := False\<rparr>) = Some (e1, c1)"
        "setSessionAttrInt fmt_v srv Background AttrIsolation TxReadCommitted c1 = Some (e2, c2)"
        "setSessionAttrBool fmt_v srv Background AttrConnectionReadonly False c2 = Some (e3, c3)"
        "c' = (if isl e1 \<or> isl e2 \<or> isl e3 then c3\<lparr>broken := True\<rparr> else c3)"
  using assms by (auto simp: resetSessionCharacteristics_def split: if_split_asm bind_splits)

lemma evolves_reset_characteristics:
  assumes "resetSessionCharacteristics fmt_v srv c = Some c'"
  shows "evolves c c'"
  using assms
proof (cases rule: reset_characteristics_cases)
  case (reset e1 c1 e2 c2 e3 c3)
  have "evolves c c1" "evolves c1 c2" "evolves c2 c3"
    using steadyD[OF steady_attr(2) reset(2)] steadyD[OF steady_attr(2) reset(3)] steadyD[OF steady_attr(1) reset(4)]
    by simp_all
  then have g: "evolves c c3" using evolves_trans by blast
  then show ?thesis using reset(5) evolves_broken[OF g] by simp
qed simp

lemma evolves_finish: "finish fmt_v srv t c = Some (res, c') \<Longrightarrow> evolves c c'"
  by (auto simp: finish_def split: if_splits bind_splits sum.splits
      dest!: steadyD[OF steady_attr(1)] steadyD[OF steady_endTran] evolves_reset_characteristics)
    (meson evolves_trans evolves_flags)+

interpretation finish_call: conn_call "finish fmt_v srv t"
  by (rule steady_guarded) (auto simp: finish_def unusable_def intro: evolves_finish)

interpretation prepare_call: conn_call "PrepareCommit fmt_v srv ctx"
  by (rule conn_callI) (auto simp: PrepareCommit_def[abs_def] unusable_def
      intro!: steady_guard steady_andThen steady_execCtx steady_ok)

interpretation attr_row_call: conn_call "sessionAttrRow fmt_v srv ctx a"
  by (rule steady_guarded) (auto simp: sessionAttrRow_def unusable_def andThen_def dest!: evolves_execCtx
      split: if_splits option.splits list.splits bind_splits sum.splits)

section \<open>The requests of a transaction\<close>

definition isolation_requests :: "'p conn \<Rightarrow> int \<Rightarrow> message list" where
  "isolation_requests c lvl = (case isolationSQL lvl of
      Inl _ \<Rightarrow> [] | Inr level \<Rightarrow> [newExecDirect c (''SET TRANSACTION ISOLATION LEVEL '' @ level)])"

definition begin_requests :: "'p conn \<Rightarrow> tx_options \<Rightarrow> message list" where
  "begin_requests c opts = (if txIsolation opts = LevelDefault then [] else isolation_requests c (txIsolation opts)) @
     (if txReadOnly opts then [newExecDirect c ''SET TRANSACTION READ ONLY''] else []) @
     [NewSessionAttrRequest AttrAutocommit None (Some False) None]"

definition alters :: "tx_options \<Rightarrow> bool" where
  "alters opts \<longleftrightarrow> txIsolation opts \<noteq> LevelDefault \<or> txReadOnly opts"

definition end_requests :: "i32 \<Rightarrow> bool \<Rightarrow> message list" where
  "end_requests t altered = [(NewResult ModeEndTran)\<lparr>TxType := t\<rparr>, NewSessionAttrRequest AttrAutocommit None (Some True) None] @
     (if altered then [NewSessionAttrRequest AttrIsolation (Some TxSerializable) None None,
        NewSessionAttrRequest AttrIsolation (Some TxReadCommitted) None None,
        NewSessionAttrRequest AttrConnectionReadonly None (Some False) None] else [])"

lemma newExecDirect_cfg: "cfg c' = cfg c \<Longrightarrow> newExecDirect c' = newExecDirect c"
  by (simp add: newExecDirect_def fun_eq_iff)

lemma step_said:
  assumes "speaks srv reply" "accepting reply" "live c" "in_time ctx" "encodable fmt_v req"
  shows "\<exists>c'. andThen (execCtx fmt_v srv ctx req) (\<lambda>_. ok ()) c = Some (Inr (), c') \<and> said fmt_v c [req] c' \<and>
    same_session c c'"
  using exec_accepted[OF assms] by (auto simp: andThen_def ok_def)

lemmas attr_said = step_said[where req = "NewSessionAttrRequest _ _ _ None", folded setSessionAttrBool_def setSessionAttrInt_def]

lemma flag_step_said:
  assumes "speaks srv reply" "accepting reply" "live c" "in_time ctx" "encodable fmt_v req"
  shows "\<exists>c'. andThen (execCtx fmt_v srv ctx req) (\<lambda>_ c. Some (Inr (), c\<lparr>txAlteredSession := True\<rparr>)) c = Some (Inr (), c') \<and>
    said fmt_v c [req] c' \<and> txAlteredSession c' \<and> autocommit c' = autocommit c"
  using exec_accepted[OF assms] by (force simp: andThen_def same_session_def)

lemma BeginTx_said:
  assumes s: "speaks srv reply" "accepting reply" and c: "live c" "autocommit c" and x: "in_time ctx"
    and i: "txIsolation opts = LevelDefault \<or> isolationSQL (txIsolation opts) = Inr level"
  shows "\<exists>c'. BeginTx fmt_v srv ctx opts c = Some (Inr (), c') \<and> said fmt_v c (begin_requests c opts) c' \<and>
    \<not> autocommit c' \<and> txAlteredSession c' = (txAlteredSession c \<or> alters opts)"
proof -
  obtain c1 where 1: "setIsolation fmt_v srv ctx (txIsolation opts) c = Some (Inr (), c1)"
      "said fmt_v c (if txIsolation opts = LevelDefault then [] else isolation_requests c (txIsolation opts)) c1"
      "txAlteredSession c1 = (txAlteredSession c \<or> txIsolation opts \<noteq> LevelDefault)"
    using flag_step_said[OF s c(1) x encodable_direct] i said_refl[OF c(1)]
    by (cases "txIsolation opts = LevelDefault") (force simp: setIsolation_def isolation_requests_def)+
  have d: "newExecDirect c1 = newExecDirect c" using 1(2) by (intro newExecDirect_cfg) (simp add: said_def)
  obtain c2 where 2: "setReadOnly fmt_v srv ctx (txReadOnly opts) c1 = Some (Inr (), c2)"
      "said fmt_v c1 (if txReadOnly opts then [newExecDirect c ''SET TRANSACTION READ ONLY''] else []) c2"
      "txAlteredSession c2 = (txAlteredSession c1 \<or> txReadOnly opts)"
    using flag_step_said[OF s said_live[OF 1(2)] x encodable_direct] said_refl[OF said_live[OF 1(2)]] d
    by (cases "txReadOnly opts") (force simp: setReadOnly_def)+
  obtain c3 where 3: "setSessionAttrBool fmt_v srv ctx AttrAutocommit False c2 = Some (Inr (), c3)"
      "said fmt_v c2 [NewSessionAttrRequest AttrAutocommit None (Some False) None] c3" "same_session c2 c3"
    using step_said[OF s said_live[OF 2(2)] x encodable_session_attr] unfolding setSessionAttrBool_def by blast
  have "BeginTx fmt_v srv ctx opts c = Some (Inr (), c3\<lparr>autocommit := False\<rparr>)"
    using c live_not_unusable[OF c(1)] 1(1) 2(1) 3(1) by (simp add: BeginTx_def andThen_def)
  moreover have "said fmt_v c (begin_requests c opts) c3"
    using said_trans[OF said_trans[OF 1(2) 2(2)] 3(2)] by (simp add: begin_requests_def)
  ultimately show ?thesis using 1(3) 2(3) 3(3) by (auto simp: same_session_def alters_def)
qed

lemma finish_said:
  assumes s: "speaks srv reply" "accepting reply" and c: "live c"
  shows "\<exists>c'. finish fmt_v srv t c = Some (Inr (), c') \<and> said fmt_v c (end_requests t (txAlteredSession c)) c' \<and>
    autocommit c' \<and> \<not> txAlteredSession c'"
proof -
  have x: "in_time Background" by simp
  note attr = step_said[OF s _ x encodable_session_attr]
  obtain c1 where 1: "endTran fmt_v srv t c = Some (Inr (), c1)"
      "said fmt_v c [(NewResult ModeEndTran)\<lparr>TxType := t\<rparr>] c1" "same_session c c1"
    using step_said[OF s c x encodable_endtran(1)] unfolding endTran_def exec_def by blast
  obtain c2 where 2: "setSessionAttrBool fmt_v srv Background AttrAutocommit True c1 = Some (Inr (), c2)"
      "said fmt_v c1 [NewSessionAttrRequest AttrAutocommit None (Some True) None] c2" "same_session c1 c2"
    using attr[OF said_live[OF 1(2)]] unfolding setSessionAttrBool_def by blast
  note f = live_not_unusable[OF c] live_not_unusable[OF said_live[OF 2(2)]]
  have a: "txAlteredSession c2 = txAlteredSession c" using 1(3) 2(3) by (simp add: same_session_def)
  show ?thesis
  proof (cases "txAlteredSession c")
    case False
    then have "finish fmt_v srv t c = Some (Inr (), c2\<lparr>autocommit := True\<rparr>)"
      using f 1(1) 2(1) a by (simp add: finish_def resetSessionCharacteristics_def)
    then show ?thesis using said_trans[OF 1(2) 2(2)] False a by (auto simp: end_requests_def)
  next
    case True
    let ?c2 = "c2\<lparr>autocommit := True, txAlteredSession := False\<rparr>"
    have l2: "live ?c2" using said_live[OF 2(2)] by simp
    obtain c3 where 3: "setSessionAttrInt fmt_v srv Background AttrIsolation TxSerializable ?c2 = Some (Inr (), c3)"
        "said fmt_v ?c2 [NewSessionAttrRequest AttrIsolation (Some TxSerializable) None None] c3" "same_session ?c2 c3"
      using attr[OF l2] unfolding setSessionAttrInt_def by blast
    obtain c4 where 4: "setSessionAttrInt fmt_v srv Background AttrIsolation TxReadCommitted c3 = Some (Inr (), c4)"
        "said fmt_v c3 [NewSessionAttrRequest AttrIsolation (Some TxReadCommitted) None None] c4" "same_session c3 c4"
      using attr[OF said_live[OF 3(2)]] unfolding setSessionAttrInt_def by blast
    obtain c5 where 5: "setSessionAttrBool fmt_v srv Background AttrConnectionReadonly False c4 = Some (Inr (), c5)"
        "said fmt_v c4 [NewSessionAttrRequest AttrConnectionReadonly None (Some False) None] c5" "same_session c4 c5"
      using attr[OF said_live[OF 4(2)]] unfolding setSessionAttrBool_def by blast
    have "finish fmt_v srv t c = Some (Inr (), c5)"
      using f 1(1) 2(1) a True 3(1) 4(1) 5(1) by (simp add: finish_def resetSessionCharacteristics_def)
    moreover have "said fmt_v c2 [NewSessionAttrRequest AttrIsolation (Some TxSerializable) None None] c3"
      using 3(2) by simp
    from said_trans[OF said_trans[OF said_trans[OF said_trans[OF 1(2) 2(2)] this] 4(2)] 5(2)]
    have "said fmt_v c (end_requests t True) c5" by (simp add: end_requests_def)
    moreover have "autocommit c5 \<and> \<not> txAlteredSession c5"
      using 3(3) 4(3) 5(3) by (simp add: same_session_def)
    ultimately show ?thesis using True by auto
  qed
qed

text \<open>C10: a transaction is one exact dialogue.  Beginning it sends the SET TRANSACTION statements that the
  options ask for and then turns autocommit off; ending it sends ENDTRAN, turns autocommit on and, if the
  session was altered, sets the isolation to SERIALIZABLE, to READ COMMITTED and the session to
  read-write.  Nothing else is sent, the connection is live after both halves, and it ends in
  autocommit mode with unaltered session characteristics.\<close>

theorem transaction_dialogue:
  assumes "speaks srv reply" "accepting reply" "live c" "autocommit c" "in_time ctx"
    and "txIsolation opts \<in> {LevelDefault, LevelReadUncommitted, LevelReadCommitted, LevelRepeatableRead, LevelSerializable}"
  shows "\<exists>c1 c2. BeginTx fmt_v srv ctx opts c = Some (Inr (), c1) \<and> said fmt_v c (begin_requests c opts) c1 \<and>
    \<not> autocommit c1 \<and> finish fmt_v srv t c1 = Some (Inr (), c2) \<and>
    said fmt_v c1 (end_requests t (txAlteredSession c \<or> alters opts)) c2 \<and> autocommit c2 \<and> \<not> txAlteredSession c2"
proof -
  obtain level where "txIsolation opts = LevelDefault \<or> isolationSQL (txIsolation opts) = Inr level"
    using assms(6) by (auto simp: isolationSQL_def)
  from BeginTx_said[OF assms(1-5) this] obtain c1 where 1: "BeginTx fmt_v srv ctx opts c = Some (Inr (), c1)"
      "said fmt_v c (begin_requests c opts) c1" "\<not> autocommit c1" "txAlteredSession c1 = (txAlteredSession c \<or> alters opts)"
    by blast
  from finish_said[OF assms(1,2) said_live[OF 1(2)]] obtain c2 where "finish fmt_v srv t c1 = Some (Inr (), c2)"
      "said fmt_v c1 (end_requests t (txAlteredSession c1)) c2" "autocommit c2" "\<not> txAlteredSession c2" by blast
  with 1 show ?thesis by (intro exI[of _ c1] exI[of _ c2]) simp
qed

text \<open>The peer that answers everything with an update count, by its messages.\<close>

definition count_reply_of :: "unit reply" where
  "count_reply_of p f = (p, (NewResult ModeUpdateCount)\<lparr>UpdateCount := 1\<rparr>, [])"

lemma speaks_count: "speaks count_server count_reply_of" "accepting count_reply_of"
  using count_reply_decodes
  by (auto simp: speaks_def count_server_def count_reply_of_def count_reply_def accepting_def NewResult_def)

lemma sample_conn_live [simp]: "live sample_conn" "autocommit sample_conn" "\<not> txAlteredSession sample_conn"
  by (simp_all add: live_def IsValid_def sample_conn_def new_conn_def in_sync_def idle_net_def)

theorem transaction_dialogue_witness:
  "\<exists>c1 c2. BeginTx (\<lambda>_. []) count_server Background \<lparr>txIsolation = LevelSerializable, txReadOnly = True\<rparr> sample_conn =
      Some (Inr (), c1) \<and> \<not> autocommit c1 \<and> finish (\<lambda>_. []) count_server TxCommit c1 = Some (Inr (), c2) \<and>
      IsValid c2 \<and> autocommit c2 \<and> \<not> txAlteredSession c2"
proof -
  have "in_time Background" by simp
  from transaction_dialogue[OF speaks_count sample_conn_live(1,2) this,
      where opts = "\<lparr>txIsolation = LevelSerializable, txReadOnly = True\<rparr>" and t = TxCommit and fmt_v = "\<lambda>_. []"]
  show ?thesis by (auto simp: said_def live_def)
qed

section \<open>When a step is refused\<close>

lemma attr_outcome:
  assumes "setSessionAttrBool fmt_v srv ctx a v c = Some (res, c')"
  shows "same_session c c'"
    and "\<not> unusable c \<Longrightarrow> in_time ctx \<Longrightarrow> res = Inl e \<Longrightarrow> unusable c' \<or> (\<exists>msg st code. e = ServerError msg st code)"
proof -
  obtain r where r: "execCtx fmt_v srv ctx (NewSessionAttrRequest a None (Some v) None) c = Some (r, c')"
      "res = map_sum id (\<lambda>_. ()) r"
    using assms by (auto simp: setSessionAttrBool_def unit_step)
  show "same_session c c'" by (rule same_session_execCtx[OF r(1)])
  assume "\<not> unusable c" "in_time ctx" "res = Inl e"
  with r show "unusable c' \<or> (\<exists>msg st code. e = ServerError msg st code)"
    using exec_failure[of fmt_v srv ctx _ c e c'] by (cases r) auto
qed

lemma attr_int_session: "setSessionAttrInt fmt_v srv ctx a i c = Some (res, c') \<Longrightarrow> same_session c c'"
  by (auto simp: setSessionAttrInt_def unit_step dest: same_session_execCtx)

lemma endTran_session: "endTran fmt_v srv t c = Some (res, c') \<Longrightarrow> same_session c c'"
  by (auto simp: endTran_def exec_def unit_step dest: same_session_execCtx)

lemma reset_characteristics_flags:
  assumes "resetSessionCharacteristics fmt_v srv c = Some c'"
  shows "autocommit c' = autocommit c" "unusable c' \<or> \<not> txAlteredSession c'"
  using assms
  by (cases rule: reset_characteristics_cases,
      auto simp: unusable_def same_session_def dest!: attr_int_session attr_outcome(1) split: if_splits)+

lemma finish_cases:
  assumes "finish fmt_v srv t c = Some (res, c')" "\<not> unusable c"
  obtains (refused) e c1 r2 c2 where "endTran fmt_v srv t c = Some (Inl e, c1)"
      "setSessionAttrBool fmt_v srv Background AttrAutocommit True c1 = Some (r2, c2)"
      "resetSessionCharacteristics fmt_v srv (c2\<lparr>autocommit := True\<rparr>) = Some c'" "res = Inl e"
    | (stuck) c1 e where "endTran fmt_v srv t c = Some (Inr (), c1)"
      "setSessionAttrBool fmt_v srv Background AttrAutocommit True c1 = Some (Inl e, c')" "res = Inl e"
    | (ended) c1 c2 where "endTran fmt_v srv t c = Some (Inr (), c1)"
      "setSessionAttrBool fmt_v srv Background AttrAutocommit True c1 = Some (Inr (), c2)"
      "resetSessionCharacteristics fmt_v srv (c2\<lparr>autocommit := True\<rparr>) = Some c'" "res = Inr ()"
  using assms by (auto simp: finish_def unusable_def split: bind_splits sum.splits)



text \<open>A server that answers the two statements of a reset without errors.\<close>

lemma ResetSession_accepted:
  assumes "speaks srv reply" "live c" "in_time ctx"
    and "\<And>p q. Mode (fst (snd (reply p (request_frame fmt_v (newExecDirect c q))))) \<noteq> ModeError"
  shows "\<exists>c'. ResetSession fmt_v srv ctx c = Some (Inr (), c')"
proof -
  have step: "\<exists>x d'. execCtx fmt_v srv ctx (newExecDirect c q) d = Some (Inr x, d') \<and> live d' \<and> cfg d' = cfg d"
    if "live d" for d q
  proof -
    obtain p' r rs where rp: "reply (peer (net d)) (request_frame fmt_v (newExecDirect c q)) = (p', r, rs)" by (metis prod.collapse)
    moreover have "Mode r \<noteq> ModeError" using assms(4)[of "peer (net d)" q] rp by simp
    ultimately show ?thesis using exec_speaks[OF assms(1) that assms(3) encodable_direct rp] by (auto simp: said_def)
  qed
  obtain x1 c1 where 1: "execCtx fmt_v srv ctx (newExecDirect c ''ROLLBACK'') c = Some (Inr x1, c1)" "live c1" "cfg c1 = cfg c"
    using step[OF assms(2)] by blast
  obtain x2 c2 where "execCtx fmt_v srv ctx (newExecDirect c ''SET AUTOCOMMIT TRUE'') c1 = Some (Inr x2, c2)"
    using step[OF 1(2)] by blast
  moreover have "newExecDirect c1 = newExecDirect c" by (rule newExecDirect_cfg[OF 1(3)])
  ultimately show ?thesis using 1(1) live_not_unusable[OF assms(2)] by (simp add: ResetSession_def andThen_def)
qed

text \<open>C32: when the server ends the transaction but refuses to turn autocommit on, Commit reports an error
  for a committed transaction, and the connection stays valid without a transaction and with
  autocommit off: every BeginTx, with whatever context and options, is refused as nested.  A
  ResetSession that succeeds, as the pool calls before it hands the connection out again, puts the flag
  right.\<close>

theorem refused_autocommit_sticks:
  assumes "speaks srv reply" "live c" "\<not> autocommit c"
    and "reply (peer (net c)) (request_frame fmt_v ((NewResult ModeEndTran)\<lparr>TxType := t\<rparr>)) = (p1, r1, rs1)"
    and "reply p1 (request_frame fmt_v (NewSessionAttrRequest AttrAutocommit None (Some True) None)) = (p2, r2, rs2)"
    and "Mode r1 \<noteq> ModeError" "Mode r2 = ModeError"
  shows "\<exists>c'. finish fmt_v srv t c = Some (Inl (ServerError (MessageText r2) (SQLState r2) (ErrorCode r2)), c') \<and>
    IsValid c' \<and> \<not> autocommit c' \<and>
    (\<forall>ctx opts. BeginTx fmt_v srv ctx opts c' = Some (Inl (Errorf ''hsql: nested transactions are not supported''), c')) \<and>
    (\<forall>ctx c''. ResetSession fmt_v srv ctx c' = Some (Inr (), c'') \<longrightarrow> IsValid c'' \<and> autocommit c'') \<and>
    live c'"
proof -
  have x: "in_time Background" by simp
  obtain c1 where 1: "endTran fmt_v srv t c = Some (Inr (), c1)"
      "said fmt_v c [(NewResult ModeEndTran)\<lparr>TxType := t\<rparr>] c1" "peer (net c1) = p1"
    using exec_speaks[OF assms(1,2) x encodable_endtran(1) assms(4)] assms(6)
    by (auto simp: endTran_def exec_def unit_step)
  obtain c2 where 2: "setSessionAttrBool fmt_v srv Background AttrAutocommit True c1 =
        Some (Inl (ServerError (MessageText r2) (SQLState r2) (ErrorCode r2)), c2)" "live c2"
    using exec_speaks[OF assms(1) said_live[OF 1(2)] x encodable_session_attr, unfolded 1(3), OF assms(5)] assms(7)
    by (auto simp: setSessionAttrBool_def unit_step said_def)
  have "\<not> autocommit c2"
    using assms(3) same_session_trans[OF endTran_session[OF 1(1)] attr_outcome(1)[OF 2(1)]] by (simp add: same_session_def)
  then show ?thesis
    using live_not_unusable[OF assms(2)] live_not_unusable[OF 2(2)] 1(1) 2
    by (auto simp: finish_def BeginTx_def live_def dest: ResetSession_ok)
qed

text \<open>A peer that refuses the requests of one mode with an ERROR and acknowledges the others.\<close>

definition refusing_reply :: "byte \<Rightarrow> unit reply" where
  "refusing_reply m p f =
     (p, if fst f = m then (NewResult ModeError)\<lparr>MessageText := ''no'', SQLState := ''0A'', ErrorCode := 7\<rparr>
         else (NewResult ModeUpdateCount)\<lparr>UpdateCount := 1\<rparr>, [])"

definition error_reply :: "(byte \<times> byte list) list" where
  "error_reply = [(ModeError, [0, 0, 0, 2, 110, 111, 0, 0, 0, 2, 48, 65, 0, 0, 0, 7])]"

definition refusing_server :: "byte \<Rightarrow> unit server" where
  "refusing_server m p bs = (p, Inr (transmission (if bs \<noteq> [] \<and> hd bs = m then error_reply else count_reply), EOF))"

lemma error_reply_decodes:
  "decodes error_reply [(NewResult ModeError)\<lparr>MessageText := ''no'', SQLState := ''0A'', ErrorCode := 7\<rparr>]"
proof -
  have "DecodeResult ModeError [0, 0, 0, 2, 110, 111, 0, 0, 0, 2, 48, 65, 0, 0, 0, 7] =
      Some (Inr ((NewResult ModeError)\<lparr>MessageText := ''no'', SQLState := ''0A'', ErrorCode := 7\<rparr>))"
    by code_simp
  then show ?thesis by (simp add: decodes_def error_reply_def)
qed

lemma transmission_hd: "transmission (f # fs) \<noteq> []" "hd (transmission (f # fs)) = fst f"
  by (simp_all add: transmission_def frame_bytes_def)

lemma speaks_refusing: "speaks (refusing_server m) (refusing_reply m)"
proof -
  let ?c = "(NewResult ModeUpdateCount)\<lparr>UpdateCount := 1\<rparr>"
    and ?e = "(NewResult ModeError)\<lparr>MessageText := ''no'', SQLState := ''0A'', ErrorCode := 7\<rparr>"
  have "\<exists>f1 fs e. refusing_server m p (transmission [f]) = (fst (refusing_reply m p f), Inr (transmission (f1 # fs), e)) \<and>
      decodes (f1 # fs) (fst (snd (refusing_reply m p f)) # snd (snd (refusing_reply m p f)))" for p and f :: "byte \<times> byte list"
    using count_reply_decodes error_reply_decodes
    by (cases "fst f = m") (auto simp: refusing_server_def refusing_reply_def transmission_hd count_reply_def error_reply_def)
  then show ?thesis by (simp add: speaks_def)
qed

theorem refused_autocommit_sticks_witness:
  "\<exists>c' c''. Commit (\<lambda>_. []) (refusing_server ModeSetSessionAttr) (sample_conn\<lparr>autocommit := False\<rparr>) =
      Some (Inl (ServerError ''no'' ''0A'' 7), c') \<and> IsValid c' \<and>
    Begin (\<lambda>_. []) (refusing_server ModeSetSessionAttr) c' =
      Some (Inl (Errorf ''hsql: nested transactions are not supported''), c') \<and>
    ResetSession (\<lambda>_. []) (refusing_server ModeSetSessionAttr) Background c' = Some (Inr (), c'') \<and> autocommit c''"
proof -
  let ?m = "ModeSetSessionAttr" and ?c = "sample_conn\<lparr>autocommit := False\<rparr>"
  have c: "live ?c" "\<not> autocommit ?c" by simp_all
  have m: "Mode ((NewResult ModeEndTran)\<lparr>TxType := t\<rparr>) = ModeEndTran" "Mode (NewSessionAttrRequest a i b s) = ?m"
    "Mode (newExecDirect d q) = ModeExecDirect" for t a i b s q and d :: "unit conn"
    by (simp_all add: NewResult_def NewSessionAttrRequest_def newExecDirect_def)
  have 1: "refusing_reply ?m p (request_frame f ((NewResult ModeEndTran)\<lparr>TxType := t\<rparr>)) =
      (p, (NewResult ModeUpdateCount)\<lparr>UpdateCount := 1\<rparr>, [])" for p f t
    by (simp add: refusing_reply_def request_frame_def m)
  have 2: "refusing_reply ?m p (request_frame f (NewSessionAttrRequest a i b s)) =
      (p, (NewResult ModeError)\<lparr>MessageText := ''no'', SQLState := ''0A'', ErrorCode := 7\<rparr>, [])" for p f a i b s
    by (simp add: refusing_reply_def request_frame_def m)
  have k: "Mode ((NewResult ModeUpdateCount)\<lparr>UpdateCount := 1\<rparr>) \<noteq> ModeError"
    "Mode ((NewResult ModeError)\<lparr>MessageText := ''no'', SQLState := ''0A'', ErrorCode := 7\<rparr>) = ModeError"
    by (simp_all add: NewResult_def)
  from refused_autocommit_sticks[OF speaks_refusing c 1 2 k, where t = TxCommit and fmt_v = "\<lambda>_. []"] obtain c' where
    c': "finish (\<lambda>_. []) (refusing_server ?m) TxCommit ?c = Some (Inl (ServerError ''no'' ''0A'' 7), c')" "IsValid c'" "live c'"
      "\<forall>ctx opts. BeginTx (\<lambda>_. []) (refusing_server ?m) ctx opts c' =
        Some (Inl (Errorf ''hsql: nested transactions are not supported''), c')"
      "\<forall>ctx c''. ResetSession (\<lambda>_. []) (refusing_server ?m) ctx c' = Some (Inr (), c'') \<longrightarrow> IsValid c'' \<and> autocommit c''"
    by auto
  have "Mode (fst (snd (refusing_reply ?m p (request_frame f (newExecDirect c' q))))) \<noteq> ModeError" for p f q
    using k(1) by (simp add: refusing_reply_def request_frame_def m)
  from ResetSession_accepted[OF speaks_refusing c'(3) background_in_time(1) this] obtain c'' where
    "ResetSession (\<lambda>_. []) (refusing_server ?m) Background c' = Some (Inr (), c'')" by blast
  then show ?thesis using c' by (auto simp: Commit_def Begin_def)
qed

text \<open>C33: when the server accepts SET TRANSACTION and then refuses to turn autocommit off, BeginTx fails and
  nothing is undone: no transaction is open, the session stays altered, and the connection is valid
  and still remembers only that it has to be reset after the next transaction.\<close>

theorem failed_begin_keeps_settings:
  assumes "speaks srv reply" "live c" "autocommit c" "in_time ctx"
    and "reply (peer (net c)) (request_frame fmt_v (newExecDirect c ''SET TRANSACTION READ ONLY'')) = (p1, r1, rs1)"
    and "reply p1 (request_frame fmt_v (NewSessionAttrRequest AttrAutocommit None (Some False) None)) = (p2, r2, rs2)"
    and "Mode r1 \<noteq> ModeError" "Mode r2 = ModeError"
  shows "\<exists>c'. BeginTx fmt_v srv ctx \<lparr>txIsolation = LevelDefault, txReadOnly = True\<rparr> c =
      Some (Inl (ServerError (MessageText r2) (SQLState r2) (ErrorCode r2)), c') \<and>
    IsValid c' \<and> autocommit c' \<and> txAlteredSession c' \<and> peer (net c') = p2 \<and>
    said fmt_v c [newExecDirect c ''SET TRANSACTION READ ONLY'', NewSessionAttrRequest AttrAutocommit None (Some False) None] c'"
proof -
  obtain x1 c1 where 1: "execCtx fmt_v srv ctx (newExecDirect c ''SET TRANSACTION READ ONLY'') c = Some (Inr x1, c1)"
      "said fmt_v c [newExecDirect c ''SET TRANSACTION READ ONLY''] c1" "peer (net c1) = p1"
    using exec_speaks[OF assms(1,2,4) encodable_direct assms(5)] assms(7) by auto
  let ?c1 = "c1\<lparr>txAlteredSession := True\<rparr>"
  have l: "live ?c1" "peer (net ?c1) = p1" using said_live[OF 1(2)] 1(3) by simp_all
  obtain c2 where 2: "setSessionAttrBool fmt_v srv ctx AttrAutocommit False ?c1 =
        Some (Inl (ServerError (MessageText r2) (SQLState r2) (ErrorCode r2)), c2)"
      "said fmt_v ?c1 [NewSessionAttrRequest AttrAutocommit None (Some False) None] c2" "peer (net c2) = p2"
    using exec_speaks[OF assms(1) l(1) assms(4) encodable_session_attr, unfolded l(2), OF assms(6)] assms(8)
    by (auto simp: setSessionAttrBool_def unit_step)
  have "same_session c c1" "same_session ?c1 c2" using same_session_execCtx[OF 1(1)] attr_outcome(1)[OF 2(1)] .
  moreover have n: "said fmt_v c1 [NewSessionAttrRequest AttrAutocommit None (Some False) None] c2" using 2(2) by simp
  have "said fmt_v c [newExecDirect c ''SET TRANSACTION READ ONLY'', NewSessionAttrRequest AttrAutocommit None (Some False) None] c2"
    using said_trans[OF 1(2) n] by simp
  moreover have "IsValid c2" using said_live[OF n] by (simp add: live_def)
  ultimately show ?thesis
    using live_not_unusable[OF assms(2)] assms(3) 1(1) 2(1,3)
    by (simp add: BeginTx_def setIsolation_def setReadOnly_def andThen_def same_session_def)
qed

theorem failed_begin_keeps_settings_witness:
  "\<exists>c'. BeginTx (\<lambda>_. []) (refusing_server ModeSetSessionAttr) Background
      \<lparr>txIsolation = LevelDefault, txReadOnly = True\<rparr> sample_conn = Some (Inl (ServerError ''no'' ''0A'' 7), c') \<and>
    IsValid c' \<and> autocommit c' \<and> txAlteredSession c'"
proof -
  let ?m = "ModeSetSessionAttr"
  have m: "Mode (newExecDirect sample_conn q) = ModeExecDirect" "Mode (NewSessionAttrRequest a i b s) = ?m" for q a i b s
    by (simp_all add: newExecDirect_def NewResult_def NewSessionAttrRequest_def)
  have 1: "refusing_reply ?m p (request_frame f (newExecDirect sample_conn q)) =
      (p, (NewResult ModeUpdateCount)\<lparr>UpdateCount := 1\<rparr>, [])" for p f q
    by (simp add: refusing_reply_def request_frame_def m)
  have 2: "refusing_reply ?m p (request_frame f (NewSessionAttrRequest a i b s)) =
      (p, (NewResult ModeError)\<lparr>MessageText := ''no'', SQLState := ''0A'', ErrorCode := 7\<rparr>, [])" for p f a i b s
    by (simp add: refusing_reply_def request_frame_def m)
  have k: "Mode ((NewResult ModeUpdateCount)\<lparr>UpdateCount := 1\<rparr>) \<noteq> ModeError"
    "Mode ((NewResult ModeError)\<lparr>MessageText := ''no'', SQLState := ''0A'', ErrorCode := 7\<rparr>) = ModeError"
    by (simp_all add: NewResult_def)
  have x: "in_time Background" by simp
  from failed_begin_keeps_settings[OF speaks_refusing sample_conn_live(1,2) x 1 2 k, where fmt_v = "\<lambda>_. []"]
  show ?thesis by auto
qed

end
