(* ===== verification/Autocommit.thy ===== *)
theory Autocommit
  imports SessionProps
begin

unbundle bit_operations_syntax

text \<open>
  The driver's \<^verbatim>\<open>autocommit\<close> flag refines the server's: in every state that the session operations can
  reach, a valid connection and its server agree.
\<close>

section \<open>What the server does with autocommit\<close>

abbreviation autocommit_request :: "bool \<Rightarrow> message" where
  "autocommit_request v \<equiv> NewSessionAttrRequest AttrAutocommit None (Some v) None"

text \<open>The requests of the session operations that have nothing to do with autocommit.\<close>

definition neutral_request :: "message \<Rightarrow> bool" where
  "neutral_request req \<longleftrightarrow> Mode req \<in> {ModeEndTran, ModeSetConnectAttr, ModeGetSessionAttr} \<or>
     (\<exists>v. req = NewSessionAttrRequest AttrIsolation (Some v) None None) \<or>
     (\<exists>v. req = NewSessionAttrRequest AttrConnectionReadonly None (Some v) None) \<or>
     (Mode req = ModeExecDirect \<and> SQL req \<in> {''ROLLBACK'', ''SET TRANSACTION READ ONLY''} \<union>
       (\<lambda>l. ''SET TRANSACTION ISOLATION LEVEL '' @ l) ` {''READ UNCOMMITTED'', ''READ COMMITTED'', ''REPEATABLE READ'', ''SERIALIZABLE''})"

text \<open>
  The documented behaviour of the server, whose autocommit mode is \<open>auto\<close>: the attribute request is
  obeyed, the SQL statement is obeyed or refused, and the neutral requests leave the mode alone.
\<close>

definition tracks :: "(gval \<Rightarrow> string) \<Rightarrow> ('p \<Rightarrow> bool) \<Rightarrow> 'p reply \<Rightarrow> bool" where
  "tracks fmt_v auto reply \<longleftrightarrow>
     (\<forall>p v. let (p', r, _) = reply p (request_frame fmt_v (autocommit_request v)) in Mode r \<noteq> ModeError \<and> auto p' = v) \<and>
     (\<forall>p req. Mode req = ModeExecDirect \<and> SQL req = ''SET AUTOCOMMIT TRUE'' \<longrightarrow>
        (let (p', r, _) = reply p (request_frame fmt_v req) in auto p' = (Mode r \<noteq> ModeError \<or> auto p))) \<and>
     (\<forall>p req. neutral_request req \<longrightarrow> auto (fst (reply p (request_frame fmt_v req))) = auto p)"

section \<open>The operations as steps\<close>

inductive session_step :: "(gval \<Rightarrow> string) \<Rightarrow> 'p server \<Rightarrow> 'p conn \<Rightarrow> 'p conn \<Rightarrow> bool" for fmt_v srv where
  begin_tx: "BeginTx fmt_v srv ctx opts c = Some (res, c') \<Longrightarrow> session_step fmt_v srv c c'"
| finish_tx: "finish fmt_v srv t c = Some (res, c') \<Longrightarrow> session_step fmt_v srv c c'"
| savepoint: "Savepoint fmt_v srv ctx name c = Some (res, c') \<Longrightarrow> session_step fmt_v srv c c'"
| savepoint_end: "savepointEnd fmt_v srv ctx t name c = Some (res, c') \<Longrightarrow> session_step fmt_v srv c c'"
| prepare_commit: "PrepareCommit fmt_v srv ctx c = Some (res, c') \<Longrightarrow> session_step fmt_v srv c c'"
| attr_row: "sessionAttrRow fmt_v srv ctx a c = Some (row, c') \<Longrightarrow> session_step fmt_v srv c c'"
| reset_session: "ResetSession fmt_v srv ctx c = Some (res, c') \<Longrightarrow> session_step fmt_v srv c c'"

inductive session_reach :: "(gval \<Rightarrow> string) \<Rightarrow> 'p server \<Rightarrow> 'p conn \<Rightarrow> 'p conn \<Rightarrow> bool" for fmt_v srv c0 where
  start: "session_reach fmt_v srv c0 c0"
| step: "session_reach fmt_v srv c0 c \<Longrightarrow> session_step fmt_v srv c c' \<Longrightarrow> session_reach fmt_v srv c0 c'"

definition agrees :: "('p \<Rightarrow> bool) \<Rightarrow> 'p conn \<Rightarrow> bool" where
  "agrees auto c \<longleftrightarrow> (IsValid c \<longrightarrow> live c \<and> autocommit c = auto (peer (net c)))"

definition quiet :: "('p \<Rightarrow> bool) \<Rightarrow> 'p conn \<Rightarrow> 'p conn \<Rightarrow> bool" where
  "quiet auto c c' \<longleftrightarrow> live c' \<and> autocommit c' = autocommit c \<and> auto (peer (net c')) = auto (peer (net c))"

lemma quiet_refl: "live c \<Longrightarrow> quiet auto c c"
  by (simp add: quiet_def)

lemma quiet_trans: "quiet auto c c' \<Longrightarrow> quiet auto c' c'' \<Longrightarrow> quiet auto c c''"
  by (simp add: quiet_def)

lemma quiet_altered [simp]:
  "quiet auto c (c'\<lparr>txAlteredSession := b\<rparr>) = quiet auto c c'" "quiet auto (c\<lparr>txAlteredSession := b\<rparr>) c' = quiet auto c c'"
  by (simp_all add: quiet_def)

lemma quiet_agrees: "quiet auto c c' \<Longrightarrow> live c \<Longrightarrow> agrees auto c \<Longrightarrow> agrees auto c'"
  by (simp add: quiet_def agrees_def live_def)

section \<open>One request\<close>

lemma exec_tracked:
  assumes s: "speaks srv reply" and c: "live c" and en: "encodable fmt_v req"
    and e: "execCtx fmt_v srv ctx req c = Some (res, c')"
  obtains (entry) "isl res" "c' = c"
    | (answer) p' r rs where "reply (peer (net c)) (request_frame fmt_v req) = (p', r, rs)" "peer (net c') = p'"
        "live c'" "same_session c c'" "isl res = (Mode r = ModeError)"
proof (cases "ctx_entry ctx (sent (net c))")
  case (Some err)
  then show ?thesis using e entry live_not_unusable[OF c] by (auto simp: execCtx_def)
next
  case None
  obtain p' r rs where rp: "reply (peer (net c)) (request_frame fmt_v req) = (p', r, rs)" by (metis prod.collapse)
  from exec_speaks_at[OF s c None en rp] e have "peer (net c') = p'" "live c'" "isl res = (Mode r = ModeError)"
    by (auto simp: said_def)
  then show ?thesis using answer[OF rp] same_session_execCtx[OF e] by blast
qed

lemma exec_quiet:
  assumes "speaks srv reply" "tracks fmt_v auto reply" "live c" "encodable fmt_v req" "neutral_request req"
    and "execCtx fmt_v srv ctx req c = Some (res, c')"
  shows "quiet auto c c'"
  using assms(1,3,4,6)
proof (cases rule: exec_tracked)
  case entry
  then show ?thesis using assms(3) by (simp add: quiet_refl)
next
  case (answer p' r rs)
  moreover have "auto p' = auto (peer (net c))"
    using assms(2,5) answer(1) unfolding tracks_def by (metis fst_conv)
  ultimately show ?thesis by (simp add: quiet_def same_session_def)
qed

lemma unit_quiet:
  assumes "speaks srv reply" "tracks fmt_v auto reply" "live c" "encodable fmt_v req" "neutral_request req"
    and "andThen (execCtx fmt_v srv ctx req) (\<lambda>_. ok ()) c = Some (res, c')"
  shows "quiet auto c c'"
  using assms(6) exec_quiet[OF assms(1-5)] by (auto simp: unit_step)

lemma autocommit_step:
  assumes "speaks srv reply" "tracks fmt_v auto reply" "live c"
    and "setSessionAttrBool fmt_v srv ctx AttrAutocommit v c = Some (res, c')"
  shows "live c'" "autocommit c' = autocommit c"
    and "res = Inr () \<and> auto (peer (net c')) = v \<or> isl res \<and> c' = c \<and> ctx_entry ctx (sent (net c)) \<noteq> None"
proof -
  obtain r0 where e: "execCtx fmt_v srv ctx (autocommit_request v) c = Some (r0, c')" and r0: "res = map_sum id (\<lambda>_. ()) r0"
    using assms(4) by (auto simp: setSessionAttrBool_def unit_step)
  have "live c' \<and> autocommit c' = autocommit c \<and>
      (res = Inr () \<and> auto (peer (net c')) = v \<or> isl res \<and> c' = c \<and> ctx_entry ctx (sent (net c)) \<noteq> None)"
  proof (cases "ctx_entry ctx (sent (net c))")
    case (Some err)
    then show ?thesis using e r0 assms(3) live_not_unusable[OF assms(3)] by (auto simp: execCtx_def)
  next
    case None
    obtain p' r rs where rp: "reply (peer (net c)) (request_frame fmt_v (autocommit_request v)) = (p', r, rs)"
      by (metis prod.collapse)
    moreover have "\<forall>p v. let (p', r, _) = reply p (request_frame fmt_v (autocommit_request v)) in Mode r \<noteq> ModeError \<and> auto p' = v"
      using assms(2) by (simp add: tracks_def)
    ultimately have m: "Mode r \<noteq> ModeError" "auto p' = v"
      by (metis (mono_tags, lifting) case_prod_conv)+
    from exec_speaks_at[OF assms(1,3) None encodable_session_attr rp] e m r0
    have "live c'" "peer (net c') = p'" "res = Inr ()" by (auto simp: said_def)
    then show ?thesis using m same_session_execCtx[OF e] by (simp add: same_session_def)
  qed
  then show "live c'" "autocommit c' = autocommit c"
    "res = Inr () \<and> auto (peer (net c')) = v \<or> isl res \<and> c' = c \<and> ctx_entry ctx (sent (net c)) \<noteq> None" by auto
qed

section \<open>Every operation\<close>

lemma neutral_requests [simp]:
  "neutral_request ((NewResult ModeEndTran)\<lparr>TxType := t\<rparr>)"
  "neutral_request ((NewResult ModeEndTran)\<lparr>TxType := t, SavepointName := s\<rparr>)"
  "neutral_request ((NewResult ModeSetConnectAttr)\<lparr>ConnectAttr := a, SavepointName := s\<rparr>)"
  "neutral_request ((NewResult ModeGetSessionAttr)\<lparr>StatementReturnType := b\<rparr>)"
  "neutral_request (NewSessionAttrRequest AttrIsolation (Some v) None None)"
  "neutral_request (NewSessionAttrRequest AttrConnectionReadonly None (Some w) None)"
  "neutral_request (newExecDirect c ''ROLLBACK'')" "neutral_request (newExecDirect c ''SET TRANSACTION READ ONLY'')"
  by (auto simp: neutral_request_def NewResult_def newExecDirect_def)

lemma neutral_isolation: "isolationSQL lvl = Inr level \<Longrightarrow> neutral_request (newExecDirect c (''SET TRANSACTION ISOLATION LEVEL '' @ level))"
  by (auto simp: isolationSQL_def neutral_request_def NewResult_def newExecDirect_def split: if_splits)

lemma flag_quiet:
  assumes "speaks srv reply" "tracks fmt_v auto reply" "live c" "neutral_request (newExecDirect c q)"
    and "andThen (execCtx fmt_v srv ctx (newExecDirect c q)) (\<lambda>_ c. Some (Inr (), c\<lparr>txAlteredSession := True\<rparr>)) c = Some (res, c')"
  shows "quiet auto c c'"
  using assms(5) exec_quiet[OF assms(1-3) encodable_direct assms(4)]
  by (auto simp: andThen_def split: bind_splits sum.splits)

lemma isolation_quiet:
  assumes "speaks srv reply" "tracks fmt_v auto reply" "live c" "setIsolation fmt_v srv ctx lvl c = Some (res, c')"
  shows "quiet auto c c'"
proof (cases "lvl = LevelDefault \<or> isl (isolationSQL lvl)")
  case True
  then show ?thesis using assms quiet_refl[OF assms(3)] by (auto simp: setIsolation_def split: if_splits sum.splits)
next
  case False
  then obtain level where l: "isolationSQL lvl = Inr level" "lvl \<noteq> LevelDefault" by (cases "isolationSQL lvl") auto
  then show ?thesis
    using flag_quiet[OF assms(1-3) neutral_isolation[OF l(1)]] assms(4) unfolding setIsolation_def by (metis sum.case(2))
qed

lemma readonly_quiet:
  assumes "speaks srv reply" "tracks fmt_v auto reply" "live c" "setReadOnly fmt_v srv ctx ro c = Some (res, c')"
  shows "quiet auto c c'"
proof (cases ro)
  case True
  then have "andThen (execCtx fmt_v srv ctx (newExecDirect c ''SET TRANSACTION READ ONLY''))
      (\<lambda>_ c. Some (Inr (), c\<lparr>txAlteredSession := True\<rparr>)) c = Some (res, c')"
    using assms(4) by (simp only: setReadOnly_def simp_thms if_False)
  then show ?thesis by (rule flag_quiet[OF assms(1-3) neutral_requests(8)])
next
  case False
  then show ?thesis using assms(4) quiet_refl[OF assms(3)] by (simp add: setReadOnly_def)
qed

lemma BeginTx_agrees:
  assumes s: "speaks srv reply" "tracks fmt_v auto reply" and c: "live c" "agrees auto c"
    and b: "BeginTx fmt_v srv ctx opts c = Some (res, c')"
  shows "agrees auto c'"
proof -
  show ?thesis
  proof (cases "autocommit c")
    case False
    then show ?thesis using b c live_not_unusable[OF c(1)] by (simp add: BeginTx_def)
  next
    case True
    then have "andThen (setIsolation fmt_v srv ctx (txIsolation opts)) (\<lambda>_.
        andThen (setReadOnly fmt_v srv ctx (txReadOnly opts)) (\<lambda>_.
        andThen (setSessionAttrBool fmt_v srv ctx AttrAutocommit False) (\<lambda>_ c.
          Some (Inr (), c\<lparr>autocommit := False\<rparr>)))) c = Some (res, c')"
      using b live_not_unusable[OF c(1)] by (simp add: BeginTx_def)
    then show ?thesis
    proof (cases rule: andThenE)
      case failed
      then show ?thesis using isolation_quiet[OF s c(1)] quiet_agrees c by blast
    next
      case (went x1 c1)
      note q1 = isolation_quiet[OF s c(1) went(1)]
      then have l1: "live c1" by (simp add: quiet_def)
      from went(2) show ?thesis
      proof (cases rule: andThenE)
        case failed
        from quiet_trans[OF q1 readonly_quiet[OF s l1 failed(1)]] show ?thesis using quiet_agrees c by blast
      next
        case (went x2 c2)
        note q2 = quiet_trans[OF q1 readonly_quiet[OF s l1 went(1)]]
        then have l2: "live c2" by (simp add: quiet_def)
        have a2: "agrees auto c2" by (rule quiet_agrees[OF q2 c])
        from went(2) show ?thesis
        proof (cases rule: andThenE)
          case failed
          then show ?thesis using autocommit_step(3)[OF s l2 failed(1)] a2 by simp
        next
          case (went x3 c3)
          then show ?thesis using autocommit_step[OF s l2 went(1)] by (auto simp: agrees_def)
        qed
      qed
    qed
  qed
qed

lemma reset_characteristics_agrees:
  assumes s: "speaks srv reply" "tracks fmt_v auto reply" and c: "live c" "agrees auto c"
    and r: "resetSessionCharacteristics fmt_v srv c = Some c'"
  shows "agrees auto c'"
  using r
proof (cases rule: reset_characteristics_cases)
  case (reset e1 c1 e2 c2 e3 c3)
  have step: "quiet auto d d'" if "live d" "neutral_request (NewSessionAttrRequest a i b None)"
    "andThen (execCtx fmt_v srv Background (NewSessionAttrRequest a i b None)) (\<lambda>_. ok ()) d = Some (x, d')" for d d' a i b x
    using unit_quiet[OF s that(1) encodable_session_attr that(2,3)] .
  have "live (c\<lparr>txAlteredSession := False\<rparr>)" using c(1) by simp
  then have 1: "quiet auto (c\<lparr>txAlteredSession := False\<rparr>) c1"
    by (rule step[OF _ _ reset(2)[unfolded setSessionAttrInt_def]]) simp
  then have 2: "quiet auto c1 c2"
    by (intro step[OF _ _ reset(3)[unfolded setSessionAttrInt_def]]) (simp_all add: quiet_def)
  then have 3: "quiet auto c2 c3"
    by (intro step[OF _ _ reset(4)[unfolded setSessionAttrBool_def]]) (simp_all add: quiet_def)
  have "quiet auto c c3" using quiet_trans[OF quiet_trans[OF _ 2] 3, of c] 1 by simp
  then have "agrees auto c3" using quiet_agrees c by blast
  then show ?thesis using reset(5) by (simp add: agrees_def IsValid_def)
qed (simp add: c)

lemma finish_agrees:
  assumes s: "speaks srv reply" "tracks fmt_v auto reply" and c: "live c" "agrees auto c"
    and f: "finish fmt_v srv t c = Some (res, c')"
  shows "agrees auto c'"
proof -
  have e: "in_time Background" by simp
  have on: "live c2 \<and> agrees auto (c2\<lparr>autocommit := True\<rparr>) \<and> \<not> isl r2"
    if "endTran fmt_v srv t c = Some (r1, c1)" "setSessionAttrBool fmt_v srv Background AttrAutocommit True c1 = Some (r2, c2)"
    for r1 c1 r2 c2
  proof -
    have "quiet auto c c1"
      using unit_quiet[OF s c(1) encodable_endtran(1) neutral_requests(1)] that(1) by (simp add: endTran_def exec_def)
    then have "live c1" by (simp add: quiet_def)
    from autocommit_step[OF s this that(2)] e show ?thesis by (auto simp: agrees_def)
  qed
  have "\<not> unusable c" using live_not_unusable[OF c(1)] by blast
  with f show ?thesis
  proof (cases rule: finish_cases)
    case (refused e c1 r2 c2)
    then show ?thesis using on[OF refused(1,2)] by (intro reset_characteristics_agrees[OF s _ _ refused(3)]) simp_all
  next
    case (stuck c1 e)
    then show ?thesis using on[OF stuck(1,2)] by simp
  next
    case (ended c1 c2)
    then show ?thesis using on[OF ended(1,2)] by (intro reset_characteristics_agrees[OF s _ _ ended(3)]) simp_all
  qed
qed

lemma direct_autocommit_agrees:
  assumes s: "speaks srv reply" "tracks fmt_v auto reply" and c: "live c" "agrees auto c"
    and e: "execCtx fmt_v srv ctx (newExecDirect c ''SET AUTOCOMMIT TRUE'') c = Some (res, c')"
  shows "live c' \<and> (if isl res then agrees auto c' else auto (peer (net c')))"
  using s(1) c(1) encodable_direct e
proof (cases rule: exec_tracked)
  case entry
  then show ?thesis using c by simp
next
  case (answer p' r rs)
  let ?req = "newExecDirect c ''SET AUTOCOMMIT TRUE''"
  have m: "Mode ?req = ModeExecDirect" "SQL ?req = ''SET AUTOCOMMIT TRUE''" by (simp_all add: newExecDirect_def NewResult_def)
  from s(2) have "\<forall>p req. Mode req = ModeExecDirect \<and> SQL req = ''SET AUTOCOMMIT TRUE'' \<longrightarrow>
        (let (p', r, _) = reply p (request_frame fmt_v req) in auto p' = (Mode r \<noteq> ModeError \<or> auto p))"
    unfolding tracks_def by (elim conjE)
  from this[THEN spec, THEN spec, THEN mp, OF conjI[OF m], of "peer (net c)"]
  have "auto p' = (Mode r \<noteq> ModeError \<or> auto (peer (net c)))" by (simp add: answer(1))
  then show ?thesis using answer c live_not_unusable[OF c(1)] by (simp add: agrees_def same_session_def live_def)
qed

lemma ResetSession_agrees:
  assumes s: "speaks srv reply" "tracks fmt_v auto reply" and c: "live c" "agrees auto c"
    and f: "ResetSession fmt_v srv ctx c = Some (res, c')"
  shows "agrees auto c'"
proof -
  have n: "\<not> (conn_closed c \<or> broken c)" using live_not_unusable[OF c(1)] by simp
  have "andThen (execCtx fmt_v srv ctx (newExecDirect c ''ROLLBACK''))
      (\<lambda>_ c. andThen (execCtx fmt_v srv ctx (newExecDirect c ''SET AUTOCOMMIT TRUE''))
        (\<lambda>_ c. Some (Inr (), c\<lparr>autocommit := True, lobIDSeq := -1\<rparr>)) c) c = Some (res, c')"
    using f n by (simp only: ResetSession_def if_False)
  then show ?thesis
  proof (cases rule: andThenE)
    case failed
    then show ?thesis
      using exec_quiet[OF s c(1) encodable_direct neutral_requests(7) failed(1)] quiet_agrees c by blast
  next
    case (went x1 c1)
    have q: "quiet auto c c1" by (rule exec_quiet[OF s c(1) encodable_direct neutral_requests(7) went(1)])
    then have l: "live c1" by (simp add: quiet_def)
    have a: "agrees auto c1" by (rule quiet_agrees[OF q c])
    from went(2) show ?thesis
    proof (cases rule: andThenE)
      case failed
      then show ?thesis using direct_autocommit_agrees[OF s l a failed(1)] by simp
    next
      case (went x2 c2)
      then show ?thesis using direct_autocommit_agrees[OF s l a went(1)] by (auto simp: agrees_def)
    qed
  qed
qed

lemma unit_agrees:
  assumes "speaks srv reply" "tracks fmt_v auto reply" "live c" "agrees auto c" "encodable fmt_v req" "neutral_request req"
    and "andThen (execCtx fmt_v srv ctx req) (\<lambda>_. ok ()) c = Some (res, c')"
  shows "agrees auto c'"
  by (rule quiet_agrees[OF unit_quiet[OF assms(1-3,5-7)] assms(3,4)])

lemma attr_row_agrees:
  assumes "speaks srv reply" "tracks fmt_v auto reply" "live c" "agrees auto c"
    and "sessionAttrRow fmt_v srv ctx a c = Some (res, c')"
  shows "agrees auto c'"
proof -
  obtain r where "execCtx fmt_v srv ctx ((NewResult ModeGetSessionAttr)\<lparr>StatementReturnType := ucast a\<rparr>) c = Some (r, c')"
    using assms(5) live_not_unusable[OF assms(3)]
    by (auto simp: sessionAttrRow_def split: if_splits option.splits list.splits elim!: andThenE)
  from exec_quiet[OF assms(1-3) encodable_get_attr neutral_requests(4) this] show ?thesis
    using quiet_agrees assms(3,4) by blast
qed

lemma session_step_agrees:
  assumes s: "speaks srv reply" "tracks fmt_v auto reply" and st: "session_step fmt_v srv c c'" and a: "agrees auto c"
  shows "agrees auto c'"
proof (cases "IsValid c")
  case False
  then have u: "unusable c" by (simp add: IsValid_def unusable_def)
  from st have "c' = c"
    using begin_call.guard[OF u] finish_call.guard[OF u] prepare_call.guard[OF u] attr_row_call.guard[OF u] reset_call.guard[OF u] u
    by cases (auto simp: Savepoint_def savepointEnd_def unusable_def split: if_splits)
  then show ?thesis using a by simp
next
  case True
  then have c: "live c" using a by (simp add: agrees_def)
  note n = live_not_unusable[OF c]
  note unit = unit_agrees[OF s c a]
  from st show ?thesis
  proof cases
    case begin_tx
    then show ?thesis by (rule BeginTx_agrees[OF s c a])
  next
    case finish_tx
    then show ?thesis by (rule finish_agrees[OF s c a])
  next
    case savepoint
    then show ?thesis using n a unit[OF encodable_connect_attr neutral_requests(3)] by (simp add: Savepoint_def split: if_splits)
  next
    case savepoint_end
    then show ?thesis using n a unit[OF encodable_endtran(2) neutral_requests(2)] by (simp add: savepointEnd_def split: if_splits)
  next
    case prepare_commit
    then show ?thesis using n a unit[OF encodable_endtran(1) neutral_requests(1)] by (simp add: PrepareCommit_def)
  next
    case attr_row
    then show ?thesis by (rule attr_row_agrees[OF s c a])
  next
    case reset_session
    then show ?thesis by (rule ResetSession_agrees[OF s c a])
  qed
qed

section \<open>The invariant\<close>

text \<open>C11: if the server obeys requests to set autocommit, then in every state that any sequence of
  transactions, savepoints, prepared commits, attribute queries and pool resets can reach, whatever the
  server answers to the other requests and whichever contexts are cancelled, a valid connection is
  in sync and its autocommit flag is the server's.\<close>

theorem autocommit_refines:
  assumes "speaks srv reply" "tracks fmt_v auto reply" "live c0" "autocommit c0 = auto (peer (net c0))"
    and "session_reach fmt_v srv c0 c" "IsValid c"
  shows "in_sync (net c) \<and> autocommit c = auto (peer (net c))"
proof -
  from assms(5) have "agrees auto c"
  proof (induction rule: session_reach.induct)
    case start
    show ?case using assms(3,4) by (simp add: agrees_def)
  next
    case (step c c')
    then show ?case using session_step_agrees[OF assms(1,2)] by blast
  qed
  then show ?thesis using assms(6) by (simp add: agrees_def live_def)
qed

text \<open>A peer that acknowledges every request with an update count and updates its state by the frame.\<close>

definition ack_server :: "('p \<Rightarrow> byte \<times> byte list \<Rightarrow> 'p) \<Rightarrow> 'p server" where
  "ack_server upd p bs = (upd p (hd bs, butlast (drop 5 bs)), Inr (transmission count_reply, EOF))"

definition ack_reply :: "('p \<Rightarrow> byte \<times> byte list \<Rightarrow> 'p) \<Rightarrow> 'p reply" where
  "ack_reply upd p f = (upd p f, (NewResult ModeUpdateCount)\<lparr>UpdateCount := 1\<rparr>, [])"

lemma speaks_ack: "speaks (ack_server upd) (ack_reply upd)"
proof -
  have t: "(hd (transmission [f]), butlast (drop 5 (transmission [f]))) = f" for f
    by (cases f) (simp add: transmission_def frame_bytes_def int32_bytes_def)
  show ?thesis
    unfolding speaks_def ack_server_def ack_reply_def t using count_reply_decodes by (auto simp: count_reply_def)
qed

text \<open>A server that keeps its autocommit mode and recognises the requests that set it.\<close>

definition sql_field :: "string \<Rightarrow> byte list" where
  "sql_field q = written (WriteString q)"

definition track :: "bool \<Rightarrow> byte \<times> byte list \<Rightarrow> bool" where
  "track p f =
     (if f = request_frame (\<lambda>_. []) (autocommit_request True) then True
      else if f = request_frame (\<lambda>_. []) (autocommit_request False) then False
      else if fst f = ModeExecDirect \<and> take 23 (drop 9 (snd f)) = sql_field ''SET AUTOCOMMIT TRUE'' then True
      else p)"

text \<open>The rows of an attribute request can be read off its frame.\<close>

definition frame_rows :: "byte \<times> byte list \<Rightarrow> gval list list option" where
  "frame_rows f = do { (r, _) \<leftarrow> read_batch (NewResult ModeSetSessionAttr) (reading [] (snd f)); map_option Rows (RowSet r) }"

lemma attr_frame_rows: "frame_rows (request_frame fmt_v (NewSessionAttrRequest a i b None)) = Some [attr_row a i b None]"
proof -
  let ?r = "NewSessionAttrRequest a i b None"
  have ok: "batch_ok fmt_v ?r SessionAttrMetadata" by (rule batch_ok_session_attr) simp
  have m: "Mode ?r = ModeSetSessionAttr" by (simp add: NewSessionAttrRequest_row)
  obtain mw where mw: "writeMetadata (Some SessionAttrMetadata) NewRowOutput = Some mw"
    and e: "EncodePayload fmt_v ?r NewRowOutput = Some (None, \<lparr>out_buf =
      written (WriteInt (UpdateCount ?r)) @ written (WriteInt (FetchSize ?r)) @ written (WriteLong (StatementID ?r)) @
      written (WriteShort (QueryTimeout ?r)) @ out_buf mw @
      written (WriteInt (word_of_nat (length (BatchRows ?r)))) @ rows_bytes fmt_v (Types SessionAttrMetadata) (BatchRows ?r)\<rparr>)"
    using batch_bytes[OF ok] m by metis
  have rows: "rows_norm fmt_v (Types SessionAttrMetadata) (BatchRows ?r) = [attr_row a i b None]"
    using attr_cells(2)[of None fmt_v a i b]
    by (simp add: rows_norm_def NewSessionAttrRequest_row Types_session_attr row_cells_all attr_row_def)
  show ?thesis
    using read_batch_bytes[OF ok mw, of "NewResult ModeSetSessionAttr" "[]"]
    by (simp add: frame_rows_def request_frame_def e rows)
qed

lemma attr_frames_differ:
  "attr_row a i b None \<noteq> attr_row a' i' b' None \<Longrightarrow>
   request_frame fmt_v (NewSessionAttrRequest a i b None) \<noteq> request_frame fmt_v (NewSessionAttrRequest a' i' b' None)"
  using attr_frame_rows by (metis list.inject option.inject)

lemma fst_request_frame [simp]: "fst (request_frame fmt_v req) = Mode req"
  by (simp add: request_frame_def)

lemma direct_frame:
  assumes "Mode req = ModeExecDirect"
  shows "\<exists>t. drop 9 (snd (request_frame fmt_v req)) = sql_field (SQL req) @ t"
proof -
  have w: "length (written (WriteInt (UpdateCount req)) @ written (WriteInt (FetchSize req)) @ written (WriteU8 (StatementReturnType req))) = 9"
    by (simp add: written_Int written_U8)
  have "snd (request_frame fmt_v req) = (written (WriteInt (UpdateCount req)) @ written (WriteInt (FetchSize req)) @
      written (WriteU8 (StatementReturnType req))) @ sql_field (SQL req) @ written (WriteU8 (RSProperties req)) @
      written (WriteShort (QueryTimeout req)) @ written (WriteU8 (GenerateKeys req))"
    using assms by (simp add: request_frame_def EncodePayload_def sql_field_def writes)
  then show ?thesis using w by simp
qed

lemma sql_fields:
  "length (sql_field ''SET AUTOCOMMIT TRUE'') = 23"
  "take 23 (sql_field ''ROLLBACK'' @ t) \<noteq> sql_field ''SET AUTOCOMMIT TRUE''"
  "take 23 (sql_field ''SET TRANSACTION READ ONLY'' @ t) \<noteq> sql_field ''SET AUTOCOMMIT TRUE''"
  "take 23 (sql_field ''SET TRANSACTION ISOLATION LEVEL READ UNCOMMITTED'' @ t) \<noteq> sql_field ''SET AUTOCOMMIT TRUE''"
  "take 23 (sql_field ''SET TRANSACTION ISOLATION LEVEL READ COMMITTED'' @ t) \<noteq> sql_field ''SET AUTOCOMMIT TRUE''"
  "take 23 (sql_field ''SET TRANSACTION ISOLATION LEVEL REPEATABLE READ'' @ t) \<noteq> sql_field ''SET AUTOCOMMIT TRUE''"
  "take 23 (sql_field ''SET TRANSACTION ISOLATION LEVEL SERIALIZABLE'' @ t) \<noteq> sql_field ''SET AUTOCOMMIT TRUE''"
proof -
  have f: "take 4 (sql_field ''SET AUTOCOMMIT TRUE'') = [0, 0, 0, 19]" "length (sql_field ''SET AUTOCOMMIT TRUE'') = 23"
    "take 4 (sql_field ''ROLLBACK'') = [0, 0, 0, 8]" "take 4 (sql_field ''SET TRANSACTION READ ONLY'') = [0, 0, 0, 25]"
    "take 4 (sql_field ''SET TRANSACTION ISOLATION LEVEL READ UNCOMMITTED'') = [0, 0, 0, 48]"
    "take 4 (sql_field ''SET TRANSACTION ISOLATION LEVEL READ COMMITTED'') = [0, 0, 0, 46]"
    "take 4 (sql_field ''SET TRANSACTION ISOLATION LEVEL REPEATABLE READ'') = [0, 0, 0, 47]"
    "take 4 (sql_field ''SET TRANSACTION ISOLATION LEVEL SERIALIZABLE'') = [0, 0, 0, 44]"
    by code_simp+
  have differ: "take 23 (sql_field q @ t) \<noteq> sql_field ''SET AUTOCOMMIT TRUE''" if "take 4 (sql_field q) = [0, 0, 0, x]" "x \<noteq> 19" for q x
  proof
    assume e: "take 23 (sql_field q @ t) = sql_field ''SET AUTOCOMMIT TRUE''"
    have "length (take 4 (sql_field q)) = 4" using that(1) by simp
    then have "4 \<le> length (sql_field q)" by (simp add: min_def split: if_splits)
    then have "take 4 (sql_field q @ t) = [0, 0, 0, x]" using that(1) by simp
    moreover have "take 4 (take 23 (sql_field q @ t)) = take 4 (sql_field q @ t)" by (simp only: take_take) simp
    ultimately have "take 4 (sql_field ''SET AUTOCOMMIT TRUE'') = [0, 0, 0, x]" by (simp only: e)
    then show False using f(1) that(2) by simp
  qed
  show "length (sql_field ''SET AUTOCOMMIT TRUE'') = 23" by (rule f)
  show "take 23 (sql_field ''ROLLBACK'' @ t) \<noteq> sql_field ''SET AUTOCOMMIT TRUE''" by (rule differ[OF f(3)]) simp
  show "take 23 (sql_field ''SET TRANSACTION READ ONLY'' @ t) \<noteq> sql_field ''SET AUTOCOMMIT TRUE''" by (rule differ[OF f(4)]) simp
  show "take 23 (sql_field ''SET TRANSACTION ISOLATION LEVEL READ UNCOMMITTED'' @ t) \<noteq> sql_field ''SET AUTOCOMMIT TRUE''"
    by (rule differ[OF f(5)]) simp
  show "take 23 (sql_field ''SET TRANSACTION ISOLATION LEVEL READ COMMITTED'' @ t) \<noteq> sql_field ''SET AUTOCOMMIT TRUE''"
    by (rule differ[OF f(6)]) simp
  show "take 23 (sql_field ''SET TRANSACTION ISOLATION LEVEL REPEATABLE READ'' @ t) \<noteq> sql_field ''SET AUTOCOMMIT TRUE''"
    by (rule differ[OF f(7)]) simp
  show "take 23 (sql_field ''SET TRANSACTION ISOLATION LEVEL SERIALIZABLE'' @ t) \<noteq> sql_field ''SET AUTOCOMMIT TRUE''"
    by (rule differ[OF f(8)]) simp
qed

lemma track_tracks: "tracks (\<lambda>_. []) (\<lambda>p. p) (ack_reply track)"
proof -
  let ?F = "request_frame (\<lambda>_. [])"
  have tf: "?F (autocommit_request False) \<noteq> ?F (autocommit_request True)"
    by (rule attr_frames_differ) (simp add: attr_row_def)
  have mode: "fst (?F (autocommit_request v)) = ModeSetSessionAttr" for v by (simp add: NewSessionAttrRequest_row)
  have other: "f \<noteq> ?F (autocommit_request v)" if "fst f \<noteq> ModeSetSessionAttr" for f v
    using that mode by metis
  have set: "track p (?F (autocommit_request v)) = v" for p v
    by (cases v) (simp_all add: track_def tf)
  have direct: "track p (?F req)" if r: "Mode req = ModeExecDirect" "SQL req = ''SET AUTOCOMMIT TRUE''" for p req
  proof -
    obtain t where "drop 9 (snd (?F req)) = sql_field ''SET AUTOCOMMIT TRUE'' @ t" using direct_frame[OF r(1)] r(2) by metis
    then have "take 23 (drop 9 (snd (?F req))) = sql_field ''SET AUTOCOMMIT TRUE''" using sql_fields(1) by simp
    then show ?thesis using other[of "?F req"] r(1) by (simp add: track_def)
  qed
  have neutral: "track p (?F req) = p" if n: "neutral_request req" for p req
  proof -
    consider (mode) "Mode req \<in> {ModeEndTran, ModeSetConnectAttr, ModeGetSessionAttr}"
      | (iso_attr) v where "req = NewSessionAttrRequest AttrIsolation (Some v) None None"
      | (ro_attr) v where "req = NewSessionAttrRequest AttrConnectionReadonly None (Some v) None"
      | (sql) "Mode req = ModeExecDirect" "SQL req \<in> {''ROLLBACK'', ''SET TRANSACTION READ ONLY''} \<union>
          (\<lambda>l. ''SET TRANSACTION ISOLATION LEVEL '' @ l) ` {''READ UNCOMMITTED'', ''READ COMMITTED'', ''REPEATABLE READ'', ''SERIALIZABLE''}"
      using n unfolding neutral_request_def by blast
    then show ?thesis
    proof cases
      case mode
      then have "Mode req \<noteq> ModeSetSessionAttr" "Mode req \<noteq> ModeExecDirect" by auto
      moreover from this(1) have "?F req \<noteq> ?F (autocommit_request w)" for w by (intro other) simp
      ultimately show ?thesis by (simp add: track_def)
    next
      case iso_attr
      have "?F req \<noteq> ?F (autocommit_request w)" for w
        unfolding iso_attr by (rule attr_frames_differ) (simp add: attr_row_def)
      then show ?thesis using iso_attr by (simp add: track_def NewSessionAttrRequest_row)
    next
      case ro_attr
      have "?F req \<noteq> ?F (autocommit_request w)" for w
        unfolding ro_attr by (rule attr_frames_differ) (simp add: attr_row_def)
      then show ?thesis using ro_attr by (simp add: track_def NewSessionAttrRequest_row)
    next
      case sql
      obtain t where "drop 9 (snd (?F req)) = sql_field (SQL req) @ t" using direct_frame[OF sql(1)] by metis
      moreover have "take 23 (sql_field (SQL req) @ t) \<noteq> sql_field ''SET AUTOCOMMIT TRUE''"
        using sql(2) sql_fields(2-7)[of t] by (auto simp only: Un_iff insert_iff empty_iff image_iff append.simps)
      ultimately show ?thesis using other[of "?F req"] sql(1) by (simp add: track_def)
    qed
  qed
  have m: "Mode ((NewResult ModeUpdateCount)\<lparr>UpdateCount := 1\<rparr>) \<noteq> ModeError" by (simp add: NewResult_def)
  show ?thesis
    unfolding tracks_def ack_reply_def using set direct neutral m by simp
qed

definition tracked_conn :: "bool conn" where
  "tracked_conn = new_conn sample_config (idle_net True)"

theorem autocommit_refines_witness:
  "\<exists>c c'. BeginTx (\<lambda>_. []) (ack_server track) Background \<lparr>txIsolation = LevelSerializable, txReadOnly = False\<rparr> tracked_conn =
      Some (Inr (), c) \<and> session_reach (\<lambda>_. []) (ack_server track) tracked_conn c \<and> \<not> peer (net c) \<and>
    Commit (\<lambda>_. []) (ack_server track) c = Some (Inr (), c') \<and>
    session_reach (\<lambda>_. []) (ack_server track) tracked_conn c' \<and> peer (net c')"
proof -
  have x: "in_time Background" by simp
  have c0: "live tracked_conn" "autocommit tracked_conn" "autocommit tracked_conn = peer (net tracked_conn)"
    by (simp_all add: tracked_conn_def new_conn_def live_def IsValid_def in_sync_def idle_net_def)
  have acc: "accepting (ack_reply track)" by (simp add: accepting_def ack_reply_def NewResult_def)
  have iso: "txIsolation \<lparr>txIsolation = LevelSerializable, txReadOnly = False\<rparr> = LevelDefault \<or>
      isolationSQL (txIsolation \<lparr>txIsolation = LevelSerializable, txReadOnly = False\<rparr>) = Inr ''SERIALIZABLE''"
    by (simp add: isolationSQL_def)
  obtain c where c: "BeginTx (\<lambda>_. []) (ack_server track) Background \<lparr>txIsolation = LevelSerializable, txReadOnly = False\<rparr>
      tracked_conn = Some (Inr (), c)" "live c" "\<not> autocommit c"
    using BeginTx_said[OF speaks_ack acc c0(1,2) x iso] said_live by blast
  obtain c' where c': "Commit (\<lambda>_. []) (ack_server track) c = Some (Inr (), c')" "live c'" "autocommit c'"
    using finish_said[OF speaks_ack acc c(2)] said_live unfolding Commit_def by blast
  have r: "session_reach (\<lambda>_. []) (ack_server track) tracked_conn c"
    by (rule session_reach.step[OF session_reach.start session_step.begin_tx[OF c(1)]])
  have r': "session_reach (\<lambda>_. []) (ack_server track) tracked_conn c'"
    by (rule session_reach.step[OF r session_step.finish_tx[OF c'(1)[unfolded Commit_def]]])
  note inv = autocommit_refines[OF speaks_ack track_tracks c0(1,3)]
  have "\<not> peer (net c)" "peer (net c')"
    using inv[OF r] inv[OF r'] c(2,3) c'(2,3) by (simp_all add: live_def)
  then show ?thesis using c(1) c'(1) r r' by blast
qed

end
