(* ===== verification/LobFetch.thy ===== *)
theory LobFetch
  imports Dialogue
begin

unbundle bit_operations_syntax

text \<open>
  Reading LOBs (\<^verbatim>\<open>lob.go\<close>): the LOB response frame, the exchange, and the chunked fetch of a whole BLOB
  or CLOB.
\<close>

section \<open>The response frame\<close>

abbreviation LobRespGetBytes :: i32 where "LobRespGetBytes \<equiv> 21"
abbreviation LobRespSet :: i32 where "LobRespSet \<equiv> 22"
abbreviation LobRespGetChars :: i32 where "LobRespGetChars \<equiv> 23"
abbreviation LobRespCreateBytes :: i32 where "LobRespCreateBytes \<equiv> 27"
abbreviation LobRespCreateChars :: i32 where "LobRespCreateChars \<equiv> 28"
abbreviation LobRespTruncate :: i32 where "LobRespTruncate \<equiv> 29"

record lob_response =
  subType :: i32
  blockOffset :: i64
  blockLength :: i64
  byteBlock :: "byte list"
  charBlock :: "u16 list"

definition zero_lob_response :: lob_response where
  "zero_lob_response = \<lparr>subType = 0, blockOffset = 0, blockLength = 0, byteBlock = [], charBlock = []\<rparr>"

text \<open>
  \<^verbatim>\<open>readI32\<close> and \<^verbatim>\<open>readI64\<close> drop the error of \<^verbatim>\<open>io.ReadFull\<close>: the bytes that did not arrive are zero.
\<close>

definition read_full_zero :: "nat \<Rightarrow> 'p net \<Rightarrow> byte list \<times> 'p net" where
  "read_full_zero k n = (take k (inp n @ replicate k 0), n\<lparr>inp := drop k (inp n)\<rparr>)"

definition be32 :: "byte list \<Rightarrow> i32" where
  "be32 b = push_bit 24 (ucast (b ! 0)) OR (push_bit 16 (ucast (b ! 1)) OR
     (push_bit 8 (ucast (b ! 2)) OR ucast (b ! 3)))"

definition be64 :: "byte list \<Rightarrow> i64" where
  "be64 b = push_bit 56 (ucast (b ! 0)) OR (push_bit 48 (ucast (b ! 1)) OR (push_bit 40 (ucast (b ! 2)) OR
     (push_bit 32 (ucast (b ! 3)) OR (push_bit 24 (ucast (b ! 4)) OR (push_bit 16 (ucast (b ! 5)) OR
     (push_bit 8 (ucast (b ! 6)) OR ucast (b ! 7)))))))"

definition be16 :: "byte \<Rightarrow> byte \<Rightarrow> u16" where
  "be16 h l = push_bit 8 (ucast h) OR ucast l"

definition readI32 :: "'p net \<Rightarrow> i32 \<times> 'p net" where
  "readI32 n = (let (b, n) = read_full_zero 4 n in (be32 b, n))"

definition readI64 :: "'p net \<Rightarrow> i64 \<times> 'p net" where
  "readI64 n = (let (b, n) = read_full_zero 8 n in (be64 b, n))"

fun units_of_bytes :: "byte list \<Rightarrow> u16 list" where
  "units_of_bytes (h # l # bs) = be16 h l # units_of_bytes bs"
| "units_of_bytes _ = []"

text \<open>
  \<open>None\<close> is the panic of \<^verbatim>\<open>make([]byte, n)\<close> for a negative \<open>n\<close> (and of \<^verbatim>\<open>make([]uint16, n)\<close> for one whose
  double is no length).  The length of an ERROR frame is read
  unsigned; that of a block is signed.
\<close>

definition readLobError :: "'p net \<Rightarrow> (lob_response go_result \<times> 'p net) option" where
  "readLobError n =
     (let (lenBuf, n) = read_full 4 n in
      case lenBuf of
        Inl e \<Rightarrow> Some (Inl e, n)
      | Inr b \<Rightarrow>
          let len = uint (be32 b) - 4 in
          if len < 0 then None
          else
            let (payload, n) = read_full (nat len) n in
            case payload of
              Inl e \<Rightarrow> Some (Inl e, n)
            | Inr payload \<Rightarrow>
                let n = snd (br_byte n) in
                do { res \<leftarrow> DecodeResult ModeError payload;
                     Some (case res of
                         Inl derr \<Rightarrow> (Inl derr, n)
                       | Inr r \<Rightarrow> (Inl (ServerError (MessageText r) (SQLState r) (ErrorCode r)), n)) })"

text \<open>The switch over the sub-type, and the terminator, whose read is not checked.\<close>

definition readLobBody :: "i32 \<Rightarrow> 'p net \<Rightarrow> (lob_response go_result \<times> 'p net) option" where
  "readLobBody st n =
     (let resp = zero_lob_response\<lparr>subType := st\<rparr> in
      if st \<in> {LobRespSet, LobRespCreateBytes, LobRespCreateChars, LobRespTruncate} then
        let (len, n) = readI64 n
        in Some (Inr (resp\<lparr>blockLength := len\<rparr>), snd (br_byte n))
      else if st = LobRespGetBytes then
        let (off, n) = readI64 n; (len, n) = readI64 n in
        if sint len < 0 then None
        else
          let (block, n) = read_full (nat (sint len)) n in
          case block of
            Inl e \<Rightarrow> Some (Inl e, n)
          | Inr b \<Rightarrow> Some (Inr (resp\<lparr>blockOffset := off, blockLength := len, byteBlock := b\<rparr>), snd (br_byte n))
      else if st = LobRespGetChars then
        let (off, n) = readI64 n; (len, n) = readI64 n in
        if sint len < 0 \<or> 2 ^ 62 \<le> sint len then None
        else
          let (raw, n) = read_full (2 * nat (sint len)) n in
          case raw of
            Inl e \<Rightarrow> Some (Inl e, n)
          | Inr raw \<Rightarrow> Some (Inr (resp\<lparr>blockOffset := off, blockLength := len,
              charBlock := units_of_bytes raw\<rparr>), snd (br_byte n))
      else Some (Inl (Errorf ''hsql: unsupported LOB response sub-type''), n))"

definition readLobResponse :: "'p net \<Rightarrow> (lob_response go_result \<times> 'p net) option" where
  "readLobResponse n =
     (let (mode, n) = br_byte n in
      case mode of
        Inl e \<Rightarrow> Some (Inl e, n)
      | Inr mode \<Rightarrow>
          if mode = ModeError then readLobError n
          else if mode \<noteq> ModeLargeObjectOp then Some (Inl (Errorf ''hsql: unexpected LOB response mode''), n)
          else
            let (_, n) = readI32 n; (_, n) = readI64 n; (_, n) = readI64 n; (st, n) = readI32 n
            in readLobBody st n)"

section \<open>The exchange\<close>

definition lobExchange :: "'p server \<Rightarrow> ('p conn \<Rightarrow> 'p net) \<Rightarrow> ('p, lob_response) conn_op" where
  "lobExchange srv writeReq c =
     (if conn_closed c \<or> broken c then Some (Inl (Errorf ''hsql: connection closed''), c)
      else
        let (err, n) = WriteTerminator (writeReq c) in
        case err of
          Some e \<Rightarrow> Some (Inl e, c\<lparr>net := n, broken := True\<rparr>)
        | None \<Rightarrow>
            let (err, n) = bw_flush srv n in
            case err of
              Some e \<Rightarrow> Some (Inl e, c\<lparr>net := n, broken := True\<rparr>)
            | None \<Rightarrow>
                do { (resp, n) \<leftarrow> readLobResponse n;
                     Some (case resp of
                         Inl e \<Rightarrow> (Inl e, c\<lparr>net := n, broken := True\<rparr>)
                       | Inr r \<Rightarrow> (Inr r, c\<lparr>net := n\<rparr>)) })"

text \<open>The requests: the header, the offset and, for a block, the length.\<close>

definition lobLengthRequest :: "i64 \<Rightarrow> 'p conn \<Rightarrow> 'p net" where
  "lobLengthRequest i c = writeI64 0 (writeLobHeader (databaseID c, sessionID c) LobReqGetLength i (net c))"

definition lobBlockRequest :: "i32 \<Rightarrow> i64 \<Rightarrow> i64 \<Rightarrow> i64 \<Rightarrow> 'p conn \<Rightarrow> 'p net" where
  "lobBlockRequest req i off len c =
     writeI64 len (writeI64 off (writeLobHeader (databaseID c, sessionID c) req i (net c)))"

definition lobLength :: "'p server \<Rightarrow> i64 \<Rightarrow> ('p, i64) conn_op" where
  "lobLength srv i = andThen (lobExchange srv (lobLengthRequest i)) (\<lambda>resp. ok (blockLength resp))"

section \<open>Fetching in chunks\<close>

text \<open>
  The loops of \<^verbatim>\<open>lobGetBytes\<close> and \<^verbatim>\<open>lobGetChars\<close>.  \<open>off\<close> is the length of what has been fetched; a machine
  holds less than \<open>2 ^ 63\<close> bytes, so \<^verbatim>\<open>off += int64(len(block))\<close> does not wrap.
\<close>

definition chunk_len :: "i64 \<Rightarrow> nat \<Rightarrow> i64" where
  "chunk_len len off =
     (let n = len - word_of_nat off in if word_of_nat maxLobChunk <s n then word_of_nat maxLobChunk else n)"

function lobBytesLoop :: "'p server \<Rightarrow> i64 \<Rightarrow> i64 \<Rightarrow> byte list \<Rightarrow> ('p, byte list) conn_op" where
  "lobBytesLoop srv i len out c =
     (if sint len \<le> int (length out) then Some (Inr out, c)
      else
        do { (resp, c) \<leftarrow> lobExchange srv
               (lobBlockRequest LobReqGetBytes i (word_of_nat (length out)) (chunk_len len (length out))) c;
             case resp of
               Inl e \<Rightarrow> Some (Inl e, c)
             | Inr r \<Rightarrow>
                 if byteBlock r = [] then Some (Inr out, c)
                 else lobBytesLoop srv i len (out @ byteBlock r) c })"
  by pat_completeness auto
termination
  by (relation "measure (\<lambda>(srv, i, len, out, c). nat (sint len - int (length out)))")
    (auto simp: nat_less_iff length_greater_0_conv[symmetric] simp del: length_greater_0_conv)

declare lobBytesLoop.simps [simp del]

function lobCharsLoop :: "'p server \<Rightarrow> i64 \<Rightarrow> i64 \<Rightarrow> u16 list \<Rightarrow> ('p, u16 list) conn_op" where
  "lobCharsLoop srv i len out c =
     (if sint len \<le> int (length out) then Some (Inr out, c)
      else
        do { (resp, c) \<leftarrow> lobExchange srv
               (lobBlockRequest LobReqGetChars i (word_of_nat (length out)) (chunk_len len (length out))) c;
             case resp of
               Inl e \<Rightarrow> Some (Inl e, c)
             | Inr r \<Rightarrow>
                 if charBlock r = [] then Some (Inr out, c)
                 else lobCharsLoop srv i len (out @ charBlock r) c })"
  by pat_completeness auto
termination
  by (relation "measure (\<lambda>(srv, i, len, out, c). nat (sint len - int (length out)))")
    (auto simp: nat_less_iff length_greater_0_conv[symmetric] simp del: length_greater_0_conv)

declare lobCharsLoop.simps [simp del]

text \<open>
  \<^verbatim>\<open>make([]byte, 0, length)\<close> panics for a negative length.  Memory is not modelled: \<^verbatim>\<open>make\<close> also panics, or the
  process ends, for a length beyond what the platform can allocate, which is a limit of the machine and not of
  the program.
\<close>

definition lobGetBytes :: "'p server \<Rightarrow> i64 \<Rightarrow> i64 \<Rightarrow> ('p, byte list) conn_op" where
  "lobGetBytes srv i len c = (if sint len < 0 then None else lobBytesLoop srv i len [] c)"

definition lobGetChars :: "'p server \<Rightarrow> i64 \<Rightarrow> i64 \<Rightarrow> ('p, string) conn_op" where
  "lobGetChars srv i len c =
     (if sint len < 0 then None
      else andThen (lobCharsLoop srv i len []) (\<lambda>us. ok (string_of_runes (utf16_decode us))) c)"

definition fetchLob :: "'p server \<Rightarrow> i64 \<Rightarrow> bool \<Rightarrow> ('p, gval) conn_op" where
  "fetchLob srv i isClob =
     andThen (lobLength srv i) (\<lambda>len.
       if isClob then andThen (lobGetChars srv i len) (\<lambda>s. ok (VString s))
       else andThen (lobGetBytes srv i len) (\<lambda>b. ok (VBytes b)))"

end
