(* ===== verification/Utf16.thy ===== *)
theory Utf16
  imports TextCodec
begin

unbundle bit_operations_syntax

text \<open>\<^verbatim>\<open>utf16.Decode\<close> undoes \<^verbatim>\<open>utf16.Encode\<close> on the runes of a string.\<close>

lemma unat_ucast_mod: "unat (ucast (w :: 'a::len word) :: 'b::len word) = unat w mod 2 ^ LENGTH('b)"
  by (simp only: unsigned_ucast_eq unsigned_take_bit_eq) (simp only: take_bit_eq_mod)

lemma utf16_bmp:
  fixes r :: rune
  assumes "unat r < 0x10000"
  shows "unat (ucast r :: u16) = unat r" "ucast (ucast r :: u16) = r"
proof -
  show u: "unat (ucast r :: u16) = unat r" using assms by (simp add: unat_ucast_mod)
  have "unat (ucast (ucast r :: u16) :: rune) = unat r" using u assms by (simp add: unat_ucast_mod)
  then show "ucast (ucast r :: u16) = r" by (simp only: word_unat_eq_iff)
qed

lemma utf16_pair:
  fixes r :: rune
  assumes "0x10000 \<le> unat r" "unat r < 0x110000"
  defines "h \<equiv> 0xD800 + ucast (drop_bit 10 (r - 0x10000) AND 0x3FF) :: u16" and "l \<equiv> 0xDC00 + ucast ((r - 0x10000) AND 0x3FF) :: u16"
  shows "unat h = 0xD800 + (unat r - 0x10000) div 1024" "unat l = 0xDC00 + (unat r - 0x10000) mod 1024"
    "(push_bit 10 (ucast h - 0xD800) OR (ucast l - 0xDC00)) + 0x10000 = r"
proof -
  define m where "m = unat r - 0x10000"
  have m: "unat (r - 0x10000) = m" "m < 0x100000"
    using assms(1,2) by (simp_all add: m_def unat_sub_if' word_le_nat_alt)
  have md: "m div 1024 < 1024" using m(2) by simp
  have q: "unat (drop_bit 10 (r - 0x10000) AND 0x3FF) = m div 1024" "unat ((r - 0x10000) AND 0x3FF) = m mod 1024"
    using m(2) by (simp_all only: unat_and_low unat_drop_bit_div m) (use md in simp_all)
  have u: "unat (ucast (drop_bit 10 (r - 0x10000) AND 0x3FF) :: u16) = m div 1024" "unat (ucast ((r - 0x10000) AND 0x3FF) :: u16) = m mod 1024"
    using m(2) by (simp_all only: unat_ucast_mod q) (use md in simp_all)
  show h: "unat h = 0xD800 + (unat r - 0x10000) div 1024" using u md by (simp add: h_def unat_plus_if' m_def[symmetric])
  show l: "unat l = 0xDC00 + (unat r - 0x10000) mod 1024" using u by (simp add: l_def unat_plus_if' m_def[symmetric])
  have w: "unat (ucast h :: rune) = 0xD800 + m div 1024" "unat (ucast l :: rune) = 0xDC00 + m mod 1024"
    using h l md by (simp_all add: unat_ucast_mod m_def[symmetric])
  have s: "unat (ucast h - 0xD800 :: rune) = m div 1024" "unat (ucast l - 0xDC00 :: rune) = m mod 1024"
    using w by (simp_all add: unat_sub_if' )
  have "unat (push_bit 10 (ucast h - 0xD800 :: rune)) = m div 1024 * 1024"
    using md by (simp only: unsigned_push_bit_eq s) (simp add: push_bit_eq_mult take_bit_eq_mod)
  then have "unat (push_bit 10 (ucast h - 0xD800) OR (ucast l - 0xDC00) :: rune) = m div 1024 * 1024 + m mod 1024"
    using s md by (simp add: unat_push_or)
  then have "unat (push_bit 10 (ucast h - 0xD800) OR (ucast l - 0xDC00) :: rune) = m" by simp
  then have "unat ((push_bit 10 (ucast h - 0xD800) OR (ucast l - 0xDC00)) + 0x10000 :: rune) = unat r"
    using m assms(1) by (simp add: unat_plus_if' m_def)
  then show "(push_bit 10 (ucast h - 0xD800) OR (ucast l - 0xDC00)) + 0x10000 = r" by (simp only: word_unat_eq_iff)
qed

lemma utf16_decode_encode: "\<forall>r\<in>set rs. scalar r \<Longrightarrow> utf16_decode (utf16_encode rs) = rs"
proof (induction rs)
  case (Cons r rs)
  then have sc: "scalar r" and ih: "utf16_decode (utf16_encode rs) = rs" by simp_all
  show ?case
  proof (cases "unat r < 0x10000")
    case True
    then have "r < 0xD800 \<or> (0xE000 \<le> r \<and> r < 0x10000)" using sc by (auto simp: scalar_def word_less_nat_alt word_le_nat_alt)
    moreover have "(ucast r :: u16) < 0xD800 \<or> 0xE000 \<le> (ucast r :: u16)"
      using utf16_bmp(1)[OF True] sc True by (auto simp: scalar_def word_less_nat_alt word_le_nat_alt)
    ultimately show ?thesis using utf16_bmp(2)[OF True] ih by (simp add: utf16_decode.simps(2))
  next
    case False
    then have r: "0x10000 \<le> unat r" "unat r < 0x110000" using sc by (auto simp: scalar_def)
    let ?h = "0xD800 + ucast (drop_bit 10 (r - 0x10000) AND 0x3FF) :: u16" and ?l = "0xDC00 + ucast ((r - 0x10000) AND 0x3FF) :: u16"
    note p = utf16_pair[OF r]
    have e: "utf16_encode (r # rs) = ?h # ?l # utf16_encode rs"
      using r by (simp add: word_less_nat_alt word_le_nat_alt)
    have "\<not> ?h < 0xD800" "\<not> 0xE000 \<le> ?h" "?h < 0xDC00" "0xDC00 \<le> ?l" "?l < 0xE000"
      using p(1,2) r by (simp_all only: word_less_nat_alt word_le_nat_alt) simp_all
    then show ?thesis unfolding e using p(3) ih by (simp add: utf16_decode.simps(2))
  qed
qed simp
end
