(* ===== verification/LobProps.thy ===== *)
theory LobProps
  imports LobFetch Utf16
begin

unbundle bit_operations_syntax

text \<open>
  Fetching a LOB from a server that stores it returns its whole content, whatever the sizes of the
  blocks the server answers with; and what is made of answers that are cut off or are errors.
\<close>

section \<open>Reading the fields\<close>

lemma length_int64_bytes [simp]: "length (int64_bytes v) = 8"
  by (simp add: int64_bytes_def)

lemma be64_int64_bytes [simp]: "be64 (int64_bytes v) = v"
  using join64[of v] by (simp add: be64_def int64_bytes_def)

lemma be32_int32_bytes [simp]: "be32 (int32_bytes v) = v"
  using join32[of v] unfolding be32_def by (simp add: int32_bytes_written written_Int)

lemma be16_bytes: "be16 (ucast (drop_bit 8 c)) (ucast (c :: u16)) = c"
  unfolding be16_def
  by (rule bit_word_eqI) (auto simp: bit_or_iff bit_push_bit_iff bit_unsigned_iff bit_drop_bit_eq)

lemma units_of_utf16_bytes [simp]: "units_of_bytes (utf16_bytes cs) = cs"
  by (induction cs) (simp_all add: utf16_bytes_def be16_bytes)

lemma length_utf16_bytes [simp]: "length (utf16_bytes cs) = 2 * length cs"
  by (induction cs) (simp_all add: utf16_bytes_def)

lemma read_full_zero_append:
  "length a = k \<Longrightarrow> read_full_zero k (n\<lparr>inp := a @ s\<rparr>) = (a, n\<lparr>inp := s\<rparr>)"
  by (simp add: read_full_zero_def)

lemma readI64_bytes: "readI64 (n\<lparr>inp := int64_bytes v @ s\<rparr>) = (v, n\<lparr>inp := s\<rparr>)"
  by (simp add: readI64_def read_full_zero_append)

lemma readI32_bytes: "readI32 (n\<lparr>inp := int32_bytes v @ s\<rparr>) = (v, n\<lparr>inp := s\<rparr>)"
  by (simp add: readI32_def read_full_zero_append)

lemma skip_fields: "snd (readI32 n) = n\<lparr>inp := drop 4 (inp n)\<rparr>" "snd (readI64 n) = n\<lparr>inp := drop 8 (inp n)\<rparr>"
  by (simp_all add: readI32_def readI64_def read_full_zero_def Let_def)

text \<open>Reading an answer only consumes input.\<close>

lemma consumes_zero: "read_full_zero k n = (b, n') \<Longrightarrow> consumes n n'"
  by (auto simp: read_full_zero_def consumes_def)

lemma consumes_ints: "readI32 n = (x, n') \<Longrightarrow> consumes n n'" "readI64 n = (y, n') \<Longrightarrow> consumes n n'"
  by (auto simp: readI32_def readI64_def Let_def case_prod_beta intro: consumes_zero[OF prod.collapse[symmetric]])

lemma consumes_snd_byte: "consumes n m \<Longrightarrow> consumes n (snd (br_byte m))"
  using consumes_byte[of m] consumes_trans by (metis prod.collapse)

lemmas consumes_reads = consumes_byte consumes_full consumes_ints

lemma consumes_lob_error: "readLobError n = Some (r, n') \<Longrightarrow> consumes n n'"
  by (auto simp: readLobError_def Let_def dest!: consumes_reads split: prod.splits sum.splits if_splits bind_splits
      intro: consumes_trans consumes_snd_byte)

lemma consumes_lob_body: "readLobBody st n = Some (r, n') \<Longrightarrow> consumes n n'"
  by (auto simp: readLobBody_def Let_def dest!: consumes_reads split: prod.splits sum.splits if_splits
      intro: consumes_refl consumes_trans consumes_snd_byte)

lemma consumes_lob_response: "readLobResponse n = Some (r, n') \<Longrightarrow> consumes n n'"
  by (auto simp: readLobResponse_def Let_def dest!: consumes_reads consumes_lob_error consumes_lob_body
      split: prod.splits sum.splits if_splits) (blast intro: consumes_trans)+

section \<open>Frames\<close>

definition lob_frame :: "lob_session \<Rightarrow> i32 \<Rightarrow> i64 \<Rightarrow> i64 list \<Rightarrow> byte list" where
  "lob_frame s req i vs = ModeLargeObjectOp # int32_bytes (fst s) @ int64_bytes (snd s) @ int64_bytes i @
     int32_bytes req @ concat (map int64_bytes vs) @ [ModeNone]"

text \<open>An answer: 20 bytes of ids that the driver skips, the sub-type, the fields, the block, the terminator.\<close>

definition lob_answer :: "byte list \<Rightarrow> i32 \<Rightarrow> i64 list \<Rightarrow> byte list \<Rightarrow> byte list" where
  "lob_answer h sub vs body = ModeLargeObjectOp # h @ int32_bytes sub @ concat (map int64_bytes vs) @ body @ [ModeNone]"

lemma response_header:
  assumes "length h = 20"
  shows "readLobResponse (n\<lparr>inp := ModeLargeObjectOp # h @ int32_bytes sub @ rest\<rparr>) = readLobBody sub (n\<lparr>inp := rest\<rparr>)"
proof -
  let ?n = "\<lambda>bs. n\<lparr>inp := bs\<rparr>"
  have b: "br_byte (?n (ModeLargeObjectOp # h @ int32_bytes sub @ rest)) = (Inr ModeLargeObjectOp, ?n (h @ int32_bytes sub @ rest))"
    by (simp add: br_byte_def)
  obtain x1 x2 x3 where s: "readI32 (?n (h @ int32_bytes sub @ rest)) = (x1, ?n (drop 4 h @ int32_bytes sub @ rest))"
      "readI64 (?n (drop 4 h @ int32_bytes sub @ rest)) = (x2, ?n (drop 12 h @ int32_bytes sub @ rest))"
      "readI64 (?n (drop 12 h @ int32_bytes sub @ rest)) = (x3, ?n (int32_bytes sub @ rest))"
    using assms by (auto simp: readI32_def readI64_def read_full_zero_def Let_def)
  show ?thesis
    unfolding readLobResponse_def b using s readI32_bytes[where n = n and v = sub and s = rest] by simp
qed

lemma block_length:
  assumes "length us < 2 ^ 62"
  shows "sint (word_of_nat (length us) :: i64) = int (length us)"
  using assms by (intro sint_of_nat_small) simp

lemma read_length_answer:
  assumes "length h = 20"
  shows "readLobResponse (n\<lparr>inp := lob_answer h LobRespSet [len] [] @ s\<rparr>) =
    Some (Inr (zero_lob_response\<lparr>subType := LobRespSet, blockLength := len\<rparr>), n\<lparr>inp := s\<rparr>)"
  using response_header[OF assms, where n = n and sub = LobRespSet and
      rest = "int64_bytes len @ ModeNone # s"]
  by (simp add: lob_answer_def readLobBody_def readI64_bytes br_byte_def)

lemma read_bytes_answer:
  assumes "length h = 20" "length b < 2 ^ 62"
  shows "readLobResponse (n\<lparr>inp := lob_answer h LobRespGetBytes [off, word_of_nat (length b)] b @ s\<rparr>) =
    Some (Inr (zero_lob_response\<lparr>subType := LobRespGetBytes, blockOffset := off, blockLength := word_of_nat (length b),
      byteBlock := b\<rparr>), n\<lparr>inp := s\<rparr>)"
  using response_header[OF assms(1), where n = n and sub = LobRespGetBytes and
      rest = "int64_bytes off @ int64_bytes (word_of_nat (length b)) @ b @ ModeNone # s"] block_length[OF assms(2)]
  by (simp add: lob_answer_def readLobBody_def readI64_bytes br_byte_def read_full_append)

lemma read_chars_answer:
  assumes "length h = 20" "length cs < 2 ^ 62"
  shows "readLobResponse (n\<lparr>inp := lob_answer h LobRespGetChars [off, word_of_nat (length cs)] (utf16_bytes cs) @ s\<rparr>) =
    Some (Inr (zero_lob_response\<lparr>subType := LobRespGetChars, blockOffset := off, blockLength := word_of_nat (length cs),
      charBlock := cs\<rparr>), n\<lparr>inp := s\<rparr>)"
  using response_header[OF assms(1), where n = n and sub = LobRespGetChars and
      rest = "int64_bytes off @ int64_bytes (word_of_nat (length cs)) @ utf16_bytes cs @ ModeNone # s"]
    block_length[OF assms(2)] assms(2)
  by (simp add: lob_answer_def readLobBody_def readI64_bytes br_byte_def read_full_append)

section \<open>Exchanges\<close>

lemma lobExchange_served:
  fixes srv :: "'p server"
  assumes "live c" "writeReq c = (net c)\<lparr>pend := q\<rparr>" "srv (peer (net c)) (q @ [ModeNone]) = (p', Inr (bs, e))"
    and "\<forall>n :: 'p net. readLobResponse (n\<lparr>inp := bs\<rparr>) = Some (Inr r, n\<lparr>inp := []\<rparr>)"
  shows "\<exists>c'. lobExchange srv writeReq c = Some (Inr r, c') \<and> live c' \<and> same_session c c' \<and> peer (net c') = p'"
proof -
  let ?n = "(net c)\<lparr>peer := p', sent := sent (net c) @ q @ [ModeNone], pend := [], inp_end := e\<rparr>"
  have w: "werr (net c) = None" "inp (net c) = []" "\<not> conn_closed c" "\<not> broken c"
    using assms(1) live_not_unusable by (auto simp: live_def in_sync_def)
  have "readLobResponse (?n\<lparr>inp := bs\<rparr>) = Some (Inr r, ?n\<lparr>inp := []\<rparr>)" using assms(4) by blast
  then have "lobExchange srv writeReq c = Some (Inr r, c\<lparr>net := ?n\<lparr>inp := []\<rparr>\<rparr>)"
    using w assms(2,3) by (cases "net c") (simp add: lobExchange_def WriteTerminator_def bw_write_def bw_flush_def)
  then show ?thesis
    using assms(1) w by (auto simp: live_def IsValid_def in_sync_def)
qed

lemma request_bytes:
  assumes "live c"
  shows "lobLengthRequest i c = (net c)\<lparr>pend := butlast (lob_frame (databaseID c, sessionID c) LobReqGetLength i [0])\<rparr>"
    and "lobBlockRequest req i off len c = (net c)\<lparr>pend := butlast (lob_frame (databaseID c, sessionID c) req i [off, len])\<rparr>"
  using assms
  by (auto simp: live_def in_sync_def lobLengthRequest_def lobBlockRequest_def writeI64_def writeI32_def writeLobHeader_def
      bw_write_def lob_frame_def butlast_append)

lemma lob_frame_end: "butlast (lob_frame s req i vs) @ [ModeNone] = lob_frame s req i vs"
  by (simp add: lob_frame_def butlast_append)

lemma length_served:
  fixes srv :: "'p server"
  assumes "live c" "srv (peer (net c)) (lob_frame (databaseID c, sessionID c) LobReqGetLength i [0]) = (p', Inr (bs, e))"
    and "\<forall>n :: 'p net. readLobResponse (n\<lparr>inp := bs\<rparr>) = Some (Inr r, n\<lparr>inp := []\<rparr>)"
  shows "\<exists>c'. lobExchange srv (lobLengthRequest i) c = Some (Inr r, c') \<and> live c' \<and> same_session c c'"
  using lobExchange_served[where writeReq = "lobLengthRequest i" and srv = srv, OF assms(1) request_bytes(1)[OF assms(1)], unfolded lob_frame_end, OF assms(2,3)]
  by blast

lemma block_served:
  fixes srv :: "'p server"
  assumes "live c" "srv (peer (net c)) (lob_frame (databaseID c, sessionID c) req i [off, len]) = (p', Inr (bs, e))"
    and "\<forall>n :: 'p net. readLobResponse (n\<lparr>inp := bs\<rparr>) = Some (Inr r, n\<lparr>inp := []\<rparr>)"
  shows "\<exists>c'. lobExchange srv (lobBlockRequest req i off len) c = Some (Inr r, c') \<and> live c' \<and> same_session c c'"
  using lobExchange_served[where writeReq = "lobBlockRequest req i off len" and srv = srv, OF assms(1) request_bytes(2)[OF assms(1)], unfolded lob_frame_end, OF assms(2,3)]
  by blast

text \<open>
  A server that stores a LOB of units: it knows the length, and answers a request for a block with some
  non-empty part of it.
\<close>

definition stores_units ::
    "i32 \<Rightarrow> i32 \<Rightarrow> ('u list \<Rightarrow> byte list) \<Rightarrow> 'p server \<Rightarrow> lob_session \<Rightarrow> i64 \<Rightarrow> 'u list \<Rightarrow> bool" where
  "stores_units req resp enc srv s i content \<longleftrightarrow> length content < 2 ^ 62 \<and>
     (\<forall>p. \<exists>p' h e. length h = 20 \<and> srv p (lob_frame s LobReqGetLength i [0]) =
       (p', Inr (lob_answer h LobRespSet [word_of_nat (length content)] [], e))) \<and>
     (\<forall>p off n. off < length content \<and> 0 < n \<and> n \<le> maxLobChunk \<longrightarrow>
       (\<exists>p' h e us x. length h = 20 \<and> us \<noteq> [] \<and> length us \<le> n \<and> us = take (length us) (drop off content) \<and>
         srv p (lob_frame s req i [word_of_nat off, word_of_nat n]) =
           (p', Inr (lob_answer h resp [x, word_of_nat (length us)] (enc us), e))))"

lemma lobLength_served:
  fixes srv :: "'p server"
  assumes "stores_units req resp enc srv (databaseID c, sessionID c) i content" "live c"
  shows "\<exists>c'. lobLength srv i c = Some (Inr (word_of_nat (length content)), c') \<and> live c' \<and> same_session c c'"
proof -
  obtain p' h e where h: "length h = 20" and sv: "srv (peer (net c)) (lob_frame (databaseID c, sessionID c) LobReqGetLength i [0]) =
      (p', Inr (lob_answer h LobRespSet [word_of_nat (length content)] [], e))"
    using assms(1) unfolding stores_units_def by meson
  have "\<forall>n :: 'p net. readLobResponse (n\<lparr>inp := lob_answer h LobRespSet [word_of_nat (length content)] []\<rparr>) =
      Some (Inr (zero_lob_response\<lparr>subType := LobRespSet, blockLength := word_of_nat (length content)\<rparr>), n\<lparr>inp := []\<rparr>)"
    by (simp add: read_length_answer[OF h, where s = "[]", simplified])
  from length_served[where srv = srv and c = c and bs = "lob_answer h LobRespSet [word_of_nat (length content)] []", OF assms(2) sv this] show ?thesis by (auto simp: lobLength_def andThen_def ok_def)
qed

section \<open>The chunked fetch\<close>

lemma chunk_len_min:
  assumes "off < length content" "length content < 2 ^ 62"
  shows "chunk_len (word_of_nat (length content)) off = word_of_nat (min maxLobChunk (length content - off))"
proof -
  have d: "(word_of_nat (length content) - word_of_nat off :: i64) = word_of_nat (length content - off)"
    using assms(1) by (simp add: of_nat_diff)
  have "sint (word_of_nat (length content - off) :: i64) = int (length content - off)"
    "sint (word_of_nat maxLobChunk :: i64) = int maxLobChunk"
    using assms by (intro sint_of_nat_small; simp add: maxLobChunk_def)+
  then show ?thesis by (simp add: chunk_len_def d word_sless_alt min_def)
qed

text \<open>What the two fetch loops have in common: the step, and that a block answer is read as its units.\<close>

locale chunked =
  fixes loop :: "'p server \<Rightarrow> i64 \<Rightarrow> i64 \<Rightarrow> 'u list \<Rightarrow> ('p, 'u list) conn_op"
    and block :: "lob_response \<Rightarrow> 'u list"
    and req :: i32 and resp :: i32
    and enc :: "'u list \<Rightarrow> byte list"
  assumes loop_step: "loop srv i len out c =
      (if sint len \<le> int (length out) then Some (Inr out, c)
       else do { (res, c) \<leftarrow> lobExchange srv
               (lobBlockRequest req i (word_of_nat (length out)) (chunk_len len (length out))) c;
             case res of
               Inl e \<Rightarrow> Some (Inl e, c)
             | Inr r \<Rightarrow> if block r = [] then Some (Inr out, c) else loop srv i len (out @ block r) c })"
    and block_answer: "length h = 20 \<Longrightarrow> length us < 2 ^ 62 \<Longrightarrow>
      \<exists>r. (\<forall>n :: 'p net. readLobResponse (n\<lparr>inp := lob_answer h resp [x, word_of_nat (length us)] (enc us)\<rparr>) =
        Some (Inr r, n\<lparr>inp := []\<rparr>)) \<and> block r = us"
begin

lemma fetch_rest:
  assumes "stores_units req resp enc srv s i content" "k \<le> length content" "live c" "s = (databaseID c, sessionID c)"
  shows "\<exists>c'. loop srv i (word_of_nat (length content)) (take k content) c = Some (Inr content, c') \<and> live c' \<and>
    same_session c c'"
  using assms
proof (induction "length content - k" arbitrary: k c rule: less_induct)
  case less
  have n: "length content < 2 ^ 62" using less.prems(1) by (simp add: stores_units_def)
  note len = block_length[OF n]
  show ?case
  proof (cases "k = length content")
    case True
    then show ?thesis using len less.prems(3) by (simp add: loop_step)
  next
    case False
    then have k: "k < length content" using less.prems(2) by simp
    let ?n = "min maxLobChunk (length content - k)"
    have "0 < ?n \<and> ?n \<le> maxLobChunk" using k by (simp add: maxLobChunk_def)
    then obtain p' h e us x where h: "length h = 20" and us: "us \<noteq> []" "length us \<le> ?n" "us = take (length us) (drop k content)"
      and sv: "srv (peer (net c)) (lob_frame s req i [word_of_nat k, word_of_nat ?n]) =
        (p', Inr (lob_answer h resp [x, word_of_nat (length us)] (enc us), e))"
      using less.prems(1) k unfolding stores_units_def by meson
    have ul: "length us < 2 ^ 62" using us(2) n by linarith
    obtain r where r: "\<forall>n :: 'p net. readLobResponse (n\<lparr>inp := lob_answer h resp [x, word_of_nat (length us)] (enc us)\<rparr>) =
        Some (Inr r, n\<lparr>inp := []\<rparr>)" and b: "block r = us"
      using block_answer[OF h ul] by blast
    have cl: "chunk_len (word_of_nat (length content)) k = word_of_nat ?n" by (rule chunk_len_min[OF k n])
    have tk: "length (take k content) = k" using k by simp
    obtain c1 where c1: "lobExchange srv (lobBlockRequest req i (word_of_nat k) (word_of_nat ?n)) c = Some (Inr r, c1)"
        "live c1" "same_session c c1"
      using block_served[where srv = srv and c = c and req = req and i = i and off = "word_of_nat k" and len = "word_of_nat ?n" and
          p' = p' and bs = "lob_answer h resp [x, word_of_nat (length us)] (enc us)" and e = e and r = r]
        less.prems(3) sv[unfolded less.prems(4)] r by blast
    have app: "take k content @ us = take (k + length us) content"
      using us(3) by (metis take_add)
    have le: "k + length us \<le> length content" using us(2) k by linarith
    have s1: "s = (databaseID c1, sessionID c1)" using less.prems(4) c1(3) by (simp add: same_session_def)
    have "loop srv i (word_of_nat (length content)) (take k content) c =
        loop srv i (word_of_nat (length content)) (take (k + length us) content) c1"
      using k len tk c1(1) us(1) by (simp add: loop_step[of srv i _ "take k content"] cl b app)
    moreover have "length content - (k + length us) < length content - k" using us(1) k by (simp add: diff_less_mono2)
    ultimately show ?thesis
      using less.hyps[OF _ less.prems(1) le c1(2) s1] same_session_trans[OF c1(3)] by metis
  qed
qed

lemma fetch_all:
  assumes "stores_units req resp enc srv (databaseID c, sessionID c) i content" "live c"
  shows "\<exists>c'. loop srv i (word_of_nat (length content)) [] c = Some (Inr content, c') \<and> live c' \<and> same_session c c'"
  using fetch_rest[OF assms(1) _ assms(2), of 0] by simp

end

interpretation blob_fetch: chunked lobBytesLoop byteBlock LobReqGetBytes LobRespGetBytes "\<lambda>b. b"
proof unfold_locales
  show "\<exists>r. (\<forall>n :: 'a net. readLobResponse (n\<lparr>inp := lob_answer h LobRespGetBytes [x, word_of_nat (length us)] us\<rparr>) =
      Some (Inr r, n\<lparr>inp := []\<rparr>)) \<and> byteBlock r = us" if "length h = 20" "length us < 2 ^ 62" for h us x
    by (simp add: read_bytes_answer[OF that, where s = "[]" and off = x, simplified])
qed (rule lobBytesLoop.simps)

interpretation clob_fetch: chunked lobCharsLoop charBlock LobReqGetChars LobRespGetChars utf16_bytes
proof unfold_locales
  show "\<exists>r. (\<forall>n :: 'a net. readLobResponse (n\<lparr>inp := lob_answer h LobRespGetChars [x, word_of_nat (length us)] (utf16_bytes us)\<rparr>) =
      Some (Inr r, n\<lparr>inp := []\<rparr>)) \<and> charBlock r = us" if "length h = 20" "length us < 2 ^ 62" for h us x
    by (simp add: read_chars_answer[OF that, where s = "[]" and off = x, simplified])
qed (rule lobCharsLoop.simps)

text \<open>A server that stores the value of a BLOB or, in UTF-16 units, of a CLOB under the id \<open>i\<close>.\<close>

definition stores_lob :: "'p server \<Rightarrow> lob_session \<Rightarrow> i64 \<Rightarrow> gval \<Rightarrow> bool" where
  "stores_lob srv s i v = (case v of
      VBytes b \<Rightarrow> stores_units LobReqGetBytes LobRespGetBytes (\<lambda>b. b) srv s i b
    | VString t \<Rightarrow> stores_units LobReqGetChars LobRespGetChars utf16_bytes srv s i (utf16_encode (range_runes t))
    | _ \<Rightarrow> False)"

lemma fetch_content:
  assumes "stores_lob srv (databaseID c, sessionID c) i v" "live c"
    and "isClob = (case v of VString _ \<Rightarrow> True | _ \<Rightarrow> False)"
  shows "\<exists>c'. fetchLob srv i isClob c = Some (Inr (case v of VString t \<Rightarrow> VString (to_valid t) | _ \<Rightarrow> v), c') \<and>
    live c' \<and> same_session c c'"
proof -
  consider (blob) b where "v = VBytes b" | (clob) t where "v = VString t"
    using assms(1) by (auto simp: stores_lob_def split: gval.splits)
  then show ?thesis
  proof cases
    case blob
    have st: "stores_units LobReqGetBytes LobRespGetBytes (\<lambda>b. b) srv (databaseID c, sessionID c) i b"
      using assms(1) by (simp add: stores_lob_def blob)
    obtain c1 where c1: "lobLength srv i c = Some (Inr (word_of_nat (length b)), c1)" "live c1" "same_session c c1"
      using lobLength_served[OF st assms(2)] by blast
    have "stores_units LobReqGetBytes LobRespGetBytes (\<lambda>b. b) srv (databaseID c1, sessionID c1) i b"
      using st c1(3) by (simp add: same_session_def)
    from blob_fetch.fetch_all[OF this c1(2)] obtain c2 where c2: "lobBytesLoop srv i (word_of_nat (length b)) [] c1 = Some (Inr b, c2)"
        "live c2" "same_session c1 c2" by blast
    have "\<not> sint (word_of_nat (length b) :: i64) < 0" using st block_length[of b] by (simp add: stores_units_def)
    then have "fetchLob srv i isClob c = Some (Inr (VBytes b), c2)"
      using c1(1) c2(1) assms(3) by (simp add: fetchLob_def andThen_def lobGetBytes_def ok_def blob)
    then show ?thesis using c2(2) same_session_trans[OF c1(3) c2(3)] blob by auto
  next
    case clob
    let ?us = "utf16_encode (range_runes t)"
    have st: "stores_units LobReqGetChars LobRespGetChars utf16_bytes srv (databaseID c, sessionID c) i ?us"
      using assms(1) by (simp add: stores_lob_def clob)
    obtain c1 where c1: "lobLength srv i c = Some (Inr (word_of_nat (length ?us)), c1)" "live c1" "same_session c c1"
      using lobLength_served[OF st assms(2)] by blast
    have "stores_units LobReqGetChars LobRespGetChars utf16_bytes srv (databaseID c1, sessionID c1) i ?us"
      using st c1(3) by (simp add: same_session_def)
    from clob_fetch.fetch_all[OF this c1(2)] obtain c2 where c2: "lobCharsLoop srv i (word_of_nat (length ?us)) [] c1 = Some (Inr ?us, c2)"
        "live c2" "same_session c1 c2" by blast
    have "\<not> sint (word_of_nat (length ?us) :: i64) < 0" using st block_length[of ?us] by (simp add: stores_units_def)
    moreover have "utf16_decode ?us = range_runes t" using range_runes_scalar by (intro utf16_decode_encode) blast
    ultimately have "fetchLob srv i isClob c = Some (Inr (VString (to_valid t)), c2)"
      using c1(1) c2(1) assms(3) by (simp add: fetchLob_def andThen_def lobGetChars_def ok_def clob to_valid_def)
    then show ?thesis using c2(2) same_session_trans[OF c1(3) c2(3)] clob by auto
  qed
qed

text \<open>C12: fetching a LOB returns its whole content, a BLOB as its bytes and a CLOB as its text, whatever
  the sizes of the blocks in which the server hands it out, and leaves the connection live.\<close>

theorem fetchLob_content:
  assumes "stores_lob srv (databaseID c, sessionID c) i v" "live c"
    and "isClob = (case v of VString _ \<Rightarrow> True | _ \<Rightarrow> False)"
  shows "\<exists>c'. fetchLob srv i isClob c = Some (Inr (case v of VString t \<Rightarrow> VString (to_valid t) | _ \<Rightarrow> v), c') \<and>
    live c' \<and> same_session c c'"
  using assms by (rule fetch_content)

text \<open>A peer that stores one BLOB and hands it out byte by byte.\<close>

definition byte_server :: "byte list \<Rightarrow> unit server" where
  "byte_server content p bs =
     (p, Inr (let sub = be32 (take 4 (drop 21 bs)); off = unat (be64 (take 8 (drop 25 bs))) in
        if sub = LobReqGetLength then lob_answer (replicate 20 0) LobRespSet [word_of_nat (length content)] []
        else lob_answer (replicate 20 0) LobRespGetBytes [0, 1] (take 1 (drop off content)), EOF))"

lemma byte_server_stores:
  assumes "length content < 2 ^ 62"
  shows "stores_lob (byte_server content) s i (VBytes content)"
proof -
  have f: "take 4 (drop 21 (lob_frame s req i vs)) = int32_bytes req" for req vs by (simp add: lob_frame_def)
  have g: "take 8 (drop 25 (lob_frame s req i (v # vs))) = int64_bytes v" for req v vs by (simp add: lob_frame_def)
  have "\<exists>p' h e us x. length h = 20 \<and> us \<noteq> [] \<and> length us \<le> n \<and> us = take (length us) (drop off content) \<and>
      byte_server content p (lob_frame s LobReqGetBytes i [word_of_nat off, word_of_nat n]) =
        (p', Inr (lob_answer h LobRespGetBytes [x, word_of_nat (length us)] us, e))" if o: "off < length content" "0 < n" for p off n
  proof -
    let ?us = "take 1 (drop off content)"
    have u: "unat (word_of_nat off :: i64) = off" using o(1) assms by (simp add: unat_of_nat)
    have l: "length ?us = 1" using o(1) by simp
    have "byte_server content p (lob_frame s LobReqGetBytes i [word_of_nat off, word_of_nat n]) =
        (p, Inr (lob_answer (replicate 20 0) LobRespGetBytes [0, word_of_nat (length ?us)] ?us, EOF))"
      unfolding l by (simp add: byte_server_def f g u)
    moreover have "?us \<noteq> []" "length ?us \<le> n" "?us = take (length ?us) (drop off content)" using o l by simp_all
    ultimately show ?thesis by (metis length_replicate)
  qed
  moreover have "\<exists>p' h e. length h = 20 \<and> byte_server content p (lob_frame s LobReqGetLength i [0]) =
      (p', Inr (lob_answer h LobRespSet [word_of_nat (length content)] [], e))" for p
    by (simp add: byte_server_def f) (metis length_replicate)
  ultimately show ?thesis using assms by (simp add: stores_lob_def stores_units_def)
qed

theorem fetchLob_content_witness:
  "\<exists>c'. fetchLob (byte_server [7, 8, 9]) 5 False sample_conn = Some (Inr (VBytes [7, 8, 9]), c') \<and> live c'"
proof -
  have s: "stores_lob (byte_server [7, 8, 9]) (databaseID sample_conn, sessionID sample_conn) 5 (VBytes [7, 8, 9])"
    by (rule byte_server_stores) simp
  have l: "live sample_conn" by (simp add: sample_conn_def new_conn_def live_def IsValid_def in_sync_def idle_net_def)
  show ?thesis using fetchLob_content[OF s l, of False] by auto
qed

section \<open>Answers that are cut off, and errors\<close>

text \<open>If the connection breaks off right after the sub-type of a length answer, the missing length is
  read as 0: the fetch reports an empty LOB, no error, and a valid connection.\<close>

theorem truncated_length_is_empty:
  assumes "live c" "length h = 20"
    and "srv (peer (net c)) (lob_frame (databaseID c, sessionID c) LobReqGetLength i [0]) =
      (p', Inr (ModeLargeObjectOp # h @ int32_bytes LobRespSet, EOF))"
  shows "\<exists>c'. fetchLob srv i isClob c = Some (Inr (if isClob then VString [] else VBytes []), c') \<and> live c'"
proof -
  have r: "readLobResponse (n\<lparr>inp := ModeLargeObjectOp # h @ int32_bytes LobRespSet\<rparr>) =
      Some (Inr (zero_lob_response\<lparr>subType := LobRespSet, blockLength := 0\<rparr>), n\<lparr>inp := []\<rparr>)" for n :: "'a net"
    using response_header[OF assms(2), where n = n and sub = LobRespSet and rest = "[]"]
    by (simp add: readLobBody_def readI64_def read_full_zero_def be64_def br_byte_def)
  obtain c1 where c1: "lobExchange srv (lobLengthRequest i) c =
      Some (Inr (zero_lob_response\<lparr>subType := LobRespSet, blockLength := 0\<rparr>), c1)" "live c1"
    using length_served[where srv = srv and c = c and i = i and bs = "ModeLargeObjectOp # h @ int32_bytes LobRespSet", OF assms(1,3)] r
    by blast
  have "fetchLob srv i isClob c = Some (Inr (if isClob then VString [] else VBytes []), c1)"
    by (simp add: fetchLob_def lobLength_def andThen_def ok_def c1(1) lobGetBytes_def lobGetChars_def lobBytesLoop.simps
        lobCharsLoop.simps string_of_runes_def string_of_bytes_def)
  then show ?thesis using c1(2) by blast
qed

definition cut_server :: "unit server" where
  "cut_server p bs = (p, Inr (ModeLargeObjectOp # replicate 20 0 @ int32_bytes LobRespSet, EOF))"

theorem truncated_length_is_empty_witness:
  "\<exists>c'. fetchLob cut_server 5 True sample_conn = Some (Inr (VString []), c') \<and> live c'"
proof -
  have l: "live sample_conn" by (simp add: sample_conn_def new_conn_def live_def IsValid_def in_sync_def idle_net_def)
  have sv: "cut_server (peer (net sample_conn)) (lob_frame (databaseID sample_conn, sessionID sample_conn) LobReqGetLength 5 [0]) =
      ((), Inr (ModeLargeObjectOp # replicate 20 0 @ int32_bytes LobRespSet, EOF))" by (simp add: cut_server_def)
  have h: "length (replicate 20 0 :: byte list) = 20" by simp
  show ?thesis
    using truncated_length_is_empty[where srv = cut_server and i = 5 and isClob = True and c = sample_conn, OF l h sv] by simp
qed

end
