(* ===== verification/LobBounds.thy ===== *)
theory LobBounds
  imports LobProps
begin

unbundle bit_operations_syntax

text \<open>
  How long a fetch can take: against any peer, honest or not, the loops of \<^verbatim>\<open>lob.go\<close> send at most one
  request for each unit of the announced length.
\<close>

section \<open>What is written\<close>

text \<open>The bytes sent and those still in the writer's buffer.\<close>

definition traffic :: "'p net \<Rightarrow> nat" where
  "traffic n = length (sent n) + length (pend n)"

lemma traffic_bw_write: "traffic (snd (bw_write bs n)) \<le> traffic n + length bs"
  by (auto simp: bw_write_def traffic_def split: option.split)

lemma traffic_bw_flush: "traffic (snd (bw_flush srv n)) \<le> traffic n"
  by (auto simp: bw_flush_def traffic_def split: option.split prod.split sum.split)

lemma traffic_write:
  "traffic (writeI32 v n) \<le> traffic n + 4" "traffic (writeI64 w n) \<le> traffic n + 8"
  using traffic_bw_write[of "int32_bytes v" n] traffic_bw_write[of "int64_bytes w" n]
  by (simp_all add: writeI32_def writeI64_def)

lemma traffic_header: "traffic (writeLobHeader s req i n) \<le> traffic n + 25"
  using traffic_write(1)[of req "writeI64 i (writeI64 (snd s) (writeI32 (fst s) (snd (bw_write [ModeLargeObjectOp] n))))"]
    traffic_write(2)[of i "writeI64 (snd s) (writeI32 (fst s) (snd (bw_write [ModeLargeObjectOp] n)))"]
    traffic_write(2)[of "snd s" "writeI32 (fst s) (snd (bw_write [ModeLargeObjectOp] n))"]
    traffic_write(1)[of "fst s" "snd (bw_write [ModeLargeObjectOp] n)"]
    traffic_bw_write[of "[ModeLargeObjectOp]" n]
  by (simp add: writeLobHeader_def)

lemma traffic_requests:
  "traffic (lobLengthRequest i c) \<le> traffic (net c) + 33"
  "traffic (lobBlockRequest req i off len c) \<le> traffic (net c) + 41"
  using traffic_write(2)[of 0 "writeLobHeader (databaseID c, sessionID c) LobReqGetLength i (net c)"]
    traffic_header[of "(databaseID c, sessionID c)" LobReqGetLength i "net c"]
    traffic_write(2)[of off "writeLobHeader (databaseID c, sessionID c) req i (net c)"]
    traffic_write(2)[of len "writeI64 off (writeLobHeader (databaseID c, sessionID c) req i (net c))"]
    traffic_header[of "(databaseID c, sessionID c)" req i "net c"]
  by (simp_all add: lobLengthRequest_def lobBlockRequest_def)

lemma traffic_response: "readLobResponse n = Some (r, n') \<Longrightarrow> traffic n' = traffic n"
  by (drule consumes_lob_response) (cases n; cases n'; simp add: consumes_def traffic_def)

lemma traffic_exchange:
  assumes "lobExchange srv writeReq c = Some (res, c')" "traffic (writeReq c) \<le> traffic (net c) + k"
  shows "traffic (net c') \<le> traffic (net c) + Suc k"
proof (cases "conn_closed c \<or> broken c")
  case False
  obtain e1 n1 where w: "WriteTerminator (writeReq c) = (e1, n1)" by fastforce
  obtain e2 n2 where f: "bw_flush srv n1 = (e2, n2)" by fastforce
  have 1: "traffic n1 \<le> traffic (net c) + Suc k"
    using traffic_bw_write[of "[ModeNone]" "writeReq c"] w assms(2) by (simp add: WriteTerminator_def)
  have 2: "traffic n2 \<le> traffic n1" using traffic_bw_flush[of srv n1] f by simp
  have "traffic (net c') = traffic n1 \<or> traffic (net c') = traffic n2"
    using assms(1) False w f
    by (auto simp: lobExchange_def dest!: traffic_response split: option.splits bind_splits sum.splits)
  then show ?thesis using 1 2 by auto
qed (use assms(1) in \<open>auto simp: lobExchange_def\<close>)

section \<open>The loops\<close>

context chunked
begin

lemma loop_traffic:
  "loop srv i len out c = Some (res, c') \<Longrightarrow>
    traffic (net c') \<le> traffic (net c) + 42 * nat (sint len - int (length out))"
proof (induction "nat (sint len - int (length out))" arbitrary: out c rule: less_induct)
  case less
  show ?case
  proof (cases "sint len \<le> int (length out)")
    case True
    then show ?thesis using less.prems by (simp add: loop_step)
  next
    case False
    then have pos: "1 \<le> nat (sint len - int (length out))" by linarith
    obtain r c1 where x: "lobExchange srv (lobBlockRequest req i (word_of_nat (length out)) (chunk_len len (length out))) c = Some (r, c1)"
      and k: "(case r of Inl e \<Rightarrow> Some (Inl e, c1)
             | Inr r \<Rightarrow> if block r = [] then Some (Inr out, c1) else loop srv i len (out @ block r) c1) = Some (res, c')"
      using less.prems False by (subst (asm) loop_step) (auto split: bind_splits)
    have t: "traffic (net c1) \<le> traffic (net c) + 42" using traffic_exchange[OF x traffic_requests(2)] by simp
    show ?thesis
    proof (cases "\<exists>b. r = Inr b \<and> block b \<noteq> []")
      case True
      then obtain b where b: "r = Inr b" "block b \<noteq> []" by blast
      have l: "nat (sint len - int (length (out @ block b))) < nat (sint len - int (length out))"
        using b(2) False by (auto simp: nat_less_iff length_greater_0_conv[symmetric] simp del: length_greater_0_conv)
      have "traffic (net c') \<le> traffic (net c1) + 42 * nat (sint len - int (length (out @ block b)))"
        using k b by (intro less.hyps[OF l]) simp
      then show ?thesis using t l by linarith
    next
      case False
      then have "c' = c1" using k by (auto split: sum.splits if_splits)
      then have "traffic (net c') \<le> traffic (net c) + 42 * 1" using t by simp
      also have "\<dots> \<le> traffic (net c) + 42 * nat (sint len - int (length out))" using pos by simp
      finally show ?thesis .
    qed
  qed
qed

end

text \<open>C21: a fetch ends.  Against any peer, whatever it answers and in blocks of whatever size, once the
  length \<open>len\<close> has been announced the fetch returns after at most \<open>len\<close> block requests, which with the
  length request are at most \<open>34 + 42 * len\<close> bytes: an answer without content ends the loop and every
  other one shortens what is left.\<close>

theorem fetch_bounded:
  assumes "lobLength srv i c = Some (Inr len, c1)" "fetchLob srv i isClob c = Some (res, c')"
  shows "length (sent (net c')) \<le> length (sent (net c)) + length (pend (net c)) + 34 + 42 * nat (sint len)"
proof -
  have 1: "traffic (net c1) \<le> traffic (net c) + 34"
    using assms(1) by (auto simp: lobLength_def unit_step andThen_def ok_def dest!: traffic_exchange[OF _ traffic_requests(1)]
        split: bind_splits sum.splits)
  have 2: "traffic (net c') \<le> traffic (net c1) + 42 * nat (sint len)"
  proof (cases isClob)
    case True
    obtain r where "lobCharsLoop srv i len [] c1 = Some (r, c')"
      using assms True
      by (auto simp: fetchLob_def andThen_def lobGetChars_def ok_def split: bind_splits sum.splits if_splits)
    then show ?thesis using clob_fetch.loop_traffic[of srv i len "[]" c1 r c'] by simp
  next
    case False
    obtain r where "lobBytesLoop srv i len [] c1 = Some (r, c')"
      using assms False
      by (auto simp: fetchLob_def andThen_def lobGetBytes_def ok_def split: bind_splits sum.splits if_splits)
    then show ?thesis using blob_fetch.loop_traffic[of srv i len "[]" c1 r c'] by simp
  qed
  show ?thesis using 1 2 by (simp add: traffic_def)
qed

theorem fetch_bounded_witness:
  "\<exists>c'. fetchLob (byte_server [7, 8, 9]) 5 False sample_conn = Some (Inr (VBytes [7, 8, 9]), c') \<and>
    length (sent (net c')) \<le> 160"
proof -
  have s: "stores_lob (byte_server [7, 8, 9]) (databaseID sample_conn, sessionID sample_conn) 5 (VBytes [7, 8, 9])"
    by (rule byte_server_stores) simp
  have l: "live sample_conn" by (simp add: sample_conn_def new_conn_def live_def IsValid_def in_sync_def idle_net_def)
  have "stores_units LobReqGetBytes LobRespGetBytes (\<lambda>b. b) (byte_server [7, 8, 9])
      (databaseID sample_conn, sessionID sample_conn) 5 [7, 8, 9]"
    using s by (simp add: stores_lob_def)
  from lobLength_served[OF this l]
  obtain c1 where 1: "lobLength (byte_server [7, 8, 9]) 5 sample_conn = Some (Inr 3, c1)" by auto
  obtain c' where 2: "fetchLob (byte_server [7, 8, 9]) 5 False sample_conn = Some (Inr (VBytes [7, 8, 9]), c')"
    using fetch_content[OF s l, of False] by auto
  have "sent (net sample_conn) = []" "pend (net sample_conn) = []"
    by (simp_all add: sample_conn_def new_conn_def idle_net_def)
  then show ?thesis using fetch_bounded[OF 1 2] 2 by simp
qed

end
