(* ===== verification/LobCreate.thy ===== *)
theory LobCreate
  imports LobProps
begin

unbundle bit_operations_syntax

text \<open>
  Sending LOBs (\<^verbatim>\<open>lob.go\<close>): the temporary ids are fresh and the parameters refer to them, and the
  frames that go out rebuild, at the other end, exactly the bound content.
\<close>

section \<open>Temporary ids\<close>

lemma blobParam_kind: "blobParam v = Inr lob \<Longrightarrow> \<not> lob_isClob lob"
  by (auto simp: blobParam_def zero_lob_def split: gval.splits option.splits)

lemma clobParam_kind: "clobParam v = Inr lob \<Longrightarrow> lob_isClob lob"
  by (auto simp: clobParam_def zero_lob_def split: gval.splits option.splits)

definition replaced :: "gval list \<Rightarrow> gval list \<Rightarrow> gval list" where
  "replaced vs vs' = concat (map2 (\<lambda>v v'. if v' = v then [] else [v']) vs vs')"

lemma lob_params_ids:
  assumes "lob_params types vs seq = (Inr (vs', lobs), seq')"
  shows "map lob_id lobs = map (\<lambda>k. seq - word_of_nat k) [0..<length lobs] \<and> seq' = seq - word_of_nat (length lobs) \<and>
    (length types \<le> length vs \<longrightarrow> length vs' = length vs \<and>
      replaced vs vs' = map (\<lambda>l. VLobRef (lob_id l) (lob_isClob l)) lobs)"
  using assms
proof (induction types vs seq arbitrary: vs' lobs seq' rule: lob_params.induct)
  case (1 vs seq)
  then show ?case by (auto simp: replaced_def zip_same_conv_map comp_def)
next
  case (2 t ts seq)
  then show ?case by (simp add: replaced_def)
next
  case (3 t ts v vs seq)
  show ?case
  proof (cases "v = VNil \<or> (Code t \<noteq> SQLBlob \<and> Code t \<noteq> SQLClob) \<or> is_lob_ref v")
    case True
    obtain ws where w: "lob_params ts vs seq = (Inr (ws, lobs), seq')" and vs': "vs' = v # ws"
      using 3(3) True by (auto split: prod.splits sum.splits)
    from 3(1)[OF True w] show ?thesis by (auto simp: vs' replaced_def)
  next
    case False
    define r where "r = (if Code t = SQLBlob then blobParam v else clobParam v)"
    obtain lob where lob: "r = Inr lob" using 3(3) False by (cases r) (auto simp: r_def)
    obtain ws ls where w: "lob_params ts vs (seq - 1) = (Inr (ws, ls), seq')"
      and vs': "vs' = VLobRef seq (Code t = SQLClob) # ws" and ls: "lobs = lob\<lparr>lob_id := seq\<rparr> # ls"
      using 3(3) False lob by (auto simp: r_def nextLobID_def split: prod.splits sum.splits)
    have kind: "lob_isClob lob = (Code t = SQLClob)"
      using lob False blobParam_kind[of v lob] clobParam_kind[of v lob] by (auto simp: r_def split: if_splits)
    have nv: "VLobRef seq (Code t = SQLClob) \<noteq> v" using False by (auto simp: is_lob_ref_def)
    from lob have lob': "(if Code t = SQLBlob then blobParam v else clobParam v) = Inr lob" by (simp add: r_def)
    have ih: "map lob_id ls = map (\<lambda>k. (seq - 1) - word_of_nat k) [0..<length ls] \<and> seq' = (seq - 1) - word_of_nat (length ls) \<and>
        (length ts \<le> length vs \<longrightarrow> length ws = length vs \<and> replaced vs ws = map (\<lambda>l. VLobRef (lob_id l) (lob_isClob l)) ls)"
      using 3(2)[OF False lob' _ _ w] by (simp add: nextLobID_def)
    have shift: "map (\<lambda>k. seq - word_of_nat k) [0..<Suc n] = seq # map (\<lambda>k. (seq - 1) - word_of_nat k) [0..<n]" for n
      by (simp add: upt_conv_Cons map_Suc_upt[symmetric] comp_def algebra_simps del: upt_Suc map_Suc_upt)
    show ?thesis using ih shift[of "length ls"] kind nv
      by (simp add: vs' ls replaced_def algebra_simps del: upt_Suc)
  qed
qed

text \<open>The LOB parameters of one request get consecutive ids, counted downwards from the
  connection's sequence; the bound values become references to exactly these ids, in order, every other
  value is passed on, and the sequence ends below the last id.\<close>

theorem lob_ids_fresh:
  assumes "lob_params types vs seq = (Inr (vs', lobs), seq')" "length types \<le> length vs"
  shows "map lob_id lobs = map (\<lambda>k. seq - word_of_nat k) [0..<length lobs] \<and> seq' = seq - word_of_nat (length lobs) \<and>
    length vs' = length vs \<and> replaced vs vs' = map (\<lambda>l. VLobRef (lob_id l) (lob_isClob l)) lobs"
  using lob_params_ids[OF assms(1)] assms(2) by blast

theorem lob_ids_fresh_witness:
  "map lob_id (snd (projr (fst (lob_params (map type_of_code [SQLBlob, SQLInteger, SQLClob])
     [VBytes [1], VInt64 2, VString ''a''] (-1))))) = [-1, -2]"
proof -
  let ?l1 = "zero_lob\<lparr>lob_bytes := [1], lob_id := -1\<rparr>" and ?l2 = "zero_lob\<lparr>lob_isClob := True, lob_chars := utf16_encode (range_runes ''a''), lob_id := -2\<rparr>"
  have e: "lob_params (map type_of_code [SQLBlob, SQLInteger, SQLClob]) [VBytes [1], VInt64 2, VString ''a''] (-1) =
      (Inr ([VLobRef (-1) False, VInt64 2, VLobRef (-2) True], [?l1, ?l2]), -3)"
    by (simp add: type_of_code_def is_lob_ref_def blobParam_def clobParam_def nextLobID_def)
  have "map lob_id [?l1, ?l2] = [-1, -2]" using lob_ids_fresh[OF e] by simp
  then show ?thesis unfolding e by simp
qed

section \<open>The content frames\<close>

text \<open>A content frame: its sub-type, the offset and the units it carries; and its bytes.\<close>

type_synonym 'u content_frame = "i32 \<times> i64 \<times> 'u list"

definition content_bytes :: "('u list \<Rightarrow> byte list) \<Rightarrow> lob_session \<Rightarrow> i64 \<Rightarrow> 'u content_frame \<Rightarrow> byte list" where
  "content_bytes enc s i f = (case f of (sub, off, us) \<Rightarrow>
     ModeLargeObjectOp # int32_bytes (fst s) @ int64_bytes (snd s) @ int64_bytes i @ int32_bytes sub @
     int64_bytes off @ int64_bytes (word_of_nat (length us)) @ enc us)"

text \<open>What a server makes of them: the first creates the LOB, each later one continues it at its end.\<close>

fun continue :: "i32 \<Rightarrow> 'u list \<Rightarrow> 'u content_frame list \<Rightarrow> 'u list option" where
  "continue st content [] = Some content"
| "continue st content ((sub, off, us) # fs) =
     (if sub = st \<and> off = word_of_nat (length content) then continue st (content @ us) fs else None)"

fun rebuild :: "i32 \<Rightarrow> i32 \<Rightarrow> 'u content_frame list \<Rightarrow> 'u list option" where
  "rebuild cr st ((sub, off, us) # fs) = (if sub = cr \<and> off = 0 then continue st us fs else None)"
| "rebuild cr st [] = None"

text \<open>\<open>carries\<close>: the writer has been given frames from which the content can be rebuilt.\<close>

definition carries :: "i32 \<Rightarrow> i32 \<Rightarrow> ('u list \<Rightarrow> byte list) \<Rightarrow> lob_session \<Rightarrow> i64 \<Rightarrow> 'p net \<Rightarrow> 'p net \<Rightarrow> 'u list \<Rightarrow> bool" where
  "carries cr st enc s i n n' content \<longleftrightarrow>
     (\<exists>fs. n' = n\<lparr>pend := pend n @ concat (map (content_bytes enc s i) fs)\<rparr> \<and> rebuild cr st fs = Some content)"

lemma continue_snoc: "continue st content fs = Some c \<Longrightarrow> continue st content (fs @ [(st, word_of_nat (length c), us)]) = Some (c @ us)"
  by (induction st content fs rule: continue.induct) (auto split: if_splits)

lemma rebuild_snoc:
  "rebuild cr st fs = Some c \<Longrightarrow> rebuild cr st (fs @ [(st, word_of_nat (length c), us)]) = Some (c @ us)"
  by (cases fs) (auto intro: continue_snoc split: if_splits)

lemma bytes_frame_ok: "werr n = None \<Longrightarrow>
    writeLobBytesFrame s sub i off b n = (None, n\<lparr>pend := pend n @ content_bytes (\<lambda>b. b) s i (sub, off, b)\<rparr>)"
  by (simp add: writeLobBytesFrame_def writeLobHeader_def writeI64_def writeI32_def bw_write_def content_bytes_def)

lemma chars_frame_ok: "werr n = None \<Longrightarrow>
    writeLobCharsFrame s sub i off cs n = (None, n\<lparr>pend := pend n @ content_bytes utf16_bytes s i (sub, off, cs)\<rparr>)"
  by (simp add: writeLobCharsFrame_def writeUTF16_def writeLobHeader_def writeI64_def writeI32_def bw_write_def content_bytes_def)

section \<open>BLOBs\<close>

lemma blob_chunks_carry:
  assumes "blob_chunks s i rd off first n = (None, first', n')" "werr n0 = None"
    and "n = n0\<lparr>pend := pend n0 @ concat (map (content_bytes (\<lambda>b. b) s i) fs)\<rparr>" "off = word_of_nat (length content)"
    and "if first then fs = [] \<and> content = [] else rebuild LobReqCreateBytes LobReqSetBytes fs = Some content"
  shows "snd (reader_all rd) = EOF \<and> (\<exists>fs'. n' = n0\<lparr>pend := pend n0 @ concat (map (content_bytes (\<lambda>b. b) s i) fs')\<rparr> \<and>
    (if first' then fs' = [] \<and> content @ fst (reader_all rd) = []
     else rebuild LobReqCreateBytes LobReqSetBytes fs' = Some (content @ fst (reader_all rd))))"
  using assms
proof (induction rd arbitrary: off first n fs content)
  case Nil
  then show ?case by auto
next
  case (Cons be rd)
  obtain b e where be: "be = (b, e)" by fastforce
  let ?sub = "if first then LobReqCreateBytes else LobReqSetBytes"
  define n1 where "n1 = (if b = [] then n else n\<lparr>pend := pend n @ content_bytes (\<lambda>b. b) s i (?sub, off, b)\<rparr>)"
  define fs1 where "fs1 = (if b = [] then fs else fs @ [(?sub, off, b)])"
  define first1 where "first1 = (first \<and> b = [])"
  have n1: "n1 = n0\<lparr>pend := pend n0 @ concat (map (content_bytes (\<lambda>b. b) s i) fs1)\<rparr>"
    using Cons.prems(3) by (simp add: n1_def fs1_def)
  have rb: "if first1 then fs1 = [] \<and> content @ b = [] else rebuild LobReqCreateBytes LobReqSetBytes fs1 = Some (content @ b)"
  proof (cases first)
    case True
    then show ?thesis using Cons.prems(4,5) by (auto simp: first1_def fs1_def)
  next
    case False
    then show ?thesis using Cons.prems(4,5) rebuild_snoc[of LobReqCreateBytes LobReqSetBytes fs content b]
      by (auto simp: first1_def fs1_def)
  qed
  have w: "werr n = None" using Cons.prems(2,3) by simp
  have st: "blob_chunks s i (be # rd) off first n = (case e of
      None \<Rightarrow> blob_chunks s i rd (off + word_of_nat (length b)) first1 n1
    | Some e \<Rightarrow> (if e = EOF then (None, first1, n1) else (Some e, first1, n1)))"
    using w by (cases "b = []"; cases e) (auto simp: be bytes_frame_ok[OF w] n1_def first1_def Let_def)
  show ?case
  proof (cases e)
    case None
    have "off + word_of_nat (length b) = word_of_nat (length (content @ b))" using Cons.prems(4) by simp
    from Cons.IH[OF _ Cons.prems(2) n1 this rb] Cons.prems(1) st None
    show ?thesis by (auto simp: be case_prod_beta split: if_splits)
  next
    case (Some x)
    then have "x = EOF" "first' = first1" "n' = n1" using Cons.prems(1) st by (auto split: if_splits)
    then show ?thesis using n1 rb Some by (auto simp: be)
  qed
qed

lemma copyN_ok: "copyN k rd = (bs, None) \<Longrightarrow> length bs = k \<and> bs = take k (fst (reader_all rd))"
proof (induction k rd arbitrary: bs rule: copyN.induct)
  case (1 k)
  then show ?case by (simp split: if_splits)
next
  case (2 k b e rd)
  consider "k = 0" | "k \<noteq> 0" "k \<le> length b" | "k \<noteq> 0" "\<not> k \<le> length b" by blast
  then show ?case
  proof cases
    case 3
    then have e: "e = None" using 2(2) by (cases e) auto
    obtain cs e' where c: "copyN (k - length b) rd = (cs, e')" by fastforce
    then have "e' = None" "bs = b @ cs" using 2(2) 3 e by auto
    then have i: "length cs = k - length b" "cs = take (k - length b) (fst (reader_all rd))" using 2(1)[OF 3 e] c by auto
    have "length bs = k" using i(1) 3 \<open>bs = b @ cs\<close> by simp
    then show ?thesis using i(2) 3 e \<open>bs = b @ cs\<close> by (simp add: case_prod_beta del: length_take)
  qed (use 2(2) in \<open>auto simp: case_prod_beta split: option.splits\<close>)
qed

text \<open>The content that a parameter stands for.\<close>

definition blob_content :: "pending_lob \<Rightarrow> byte list option" where
  "blob_content lob = (case lob_blobReader lob of
      None \<Rightarrow> Some (lob_bytes lob)
    | Some rd \<Rightarrow> (let (all, e) = reader_all rd in
        if 0 \<le>s lob_length lob then
          (let k = nat (sint (lob_length lob)) in if k \<le> length all then Some (take k all) else None)
        else if e = EOF then Some all else None))"

lemma blob_carried:
  assumes "writeLobCreate s lob n = (None, n')" "\<not> lob_isClob lob" "werr n = None"
  shows "\<exists>content. blob_content lob = Some content \<and>
    carries LobReqCreateBytes LobReqSetBytes (\<lambda>b. b) s (lob_id lob) n n' content"
proof (cases "lob_blobReader lob")
  case None
  then show ?thesis
    using assms(1,2) bytes_frame_ok[OF assms(3)]
    by (auto simp: writeLobCreate_def carries_def blob_content_def intro!: exI[of _ "[(LobReqCreateBytes, 0, lob_bytes lob)]"])
next
  case (Some rd)
  have w: "writeLobCreateBytesFromReader s lob rd n = (None, n')"
    using assms(1,2) Some by (simp add: writeLobCreate_def)
  show ?thesis
  proof (cases "0 \<le>s lob_length lob")
    case True
    obtain bs e where c: "copyN (nat (sint (lob_length lob))) rd = (bs, e)" by fastforce
    have "lob_length lob = 0 \<or> e = None" and n': "n' = n\<lparr>pend := pend n @ ModeLargeObjectOp # int32_bytes (fst s) @
        int64_bytes (snd s) @ int64_bytes (lob_id lob) @ int32_bytes LobReqCreateBytes @ int64_bytes 0 @
        int64_bytes (lob_length lob) @ bs\<rparr>"
      using w True c assms(3)
      by (auto simp: writeLobCreateBytesFromReader_def writeLobHeader_def writeI64_def writeI32_def bw_write_def Let_def split: if_splits)
    have b: "length bs = nat (sint (lob_length lob)) \<and> bs = take (nat (sint (lob_length lob))) (fst (reader_all rd))"
    proof (cases "lob_length lob = 0")
      case True
      then show ?thesis using c by (cases rd) auto
    next
      case False
      then show ?thesis using \<open>lob_length lob = 0 \<or> e = None\<close> c copyN_ok by blast
    qed
    have "word_of_nat (length bs) = (word_of_int (sint (lob_length lob)) :: i64)"
      using True by (simp only: b[THEN conjunct1]) (simp add: word_sle_eq)
    then have "word_of_nat (length bs) = lob_length lob" by simp
    then have "n' = n\<lparr>pend := pend n @ concat (map (content_bytes (\<lambda>b. b) s (lob_id lob)) [(LobReqCreateBytes, 0, bs)])\<rparr>"
      using n' by (simp add: content_bytes_def)
    moreover have "nat (sint (lob_length lob)) \<le> length (fst (reader_all rd))" using b by (metis length_take min.cobounded1)
    ultimately show ?thesis using b True Some by (auto simp: carries_def blob_content_def case_prod_beta Let_def intro!: exI[of _ "[(LobReqCreateBytes, 0, bs)]"])
  next
    case False
    obtain err first n1 where l: "blob_chunks s (lob_id lob) rd 0 True n = (err, first, n1)" by (metis prod_cases3)
    have err: "err = None" using w False l by (auto simp: writeLobCreateBytesFromReader_def split: if_splits)
    have "n = n\<lparr>pend := pend n @ concat (map (content_bytes (\<lambda>b. b) s (lob_id lob)) [])\<rparr>" by simp
    from blob_chunks_carry[OF l[unfolded err] assms(3) this, of "[]"] have sent: "snd (reader_all rd) = EOF \<and>
      (\<exists>fs. n1 = n\<lparr>pend := pend n @ concat (map (content_bytes (\<lambda>b. b) s (lob_id lob)) fs)\<rparr> \<and>
        (if first then fs = [] \<and> fst (reader_all rd) = [] else rebuild LobReqCreateBytes LobReqSetBytes fs = Some (fst (reader_all rd))))"
      unfolding append_Nil by simp
    then have eof: "snd (reader_all rd) = EOF" by blast
    from sent obtain fs where fs: "n1 = n\<lparr>pend := pend n @ concat (map (content_bytes (\<lambda>b. b) s (lob_id lob)) fs)\<rparr>"
      "if first then fs = [] \<and> fst (reader_all rd) = [] else rebuild LobReqCreateBytes LobReqSetBytes fs = Some (fst (reader_all rd))"
      by blast
    show ?thesis
    proof (cases first)
      case True
      then have "n' = n\<lparr>pend := pend n @ content_bytes (\<lambda>b. b) s (lob_id lob) (LobReqCreateBytes, 0, [])\<rparr>"
        using w False l err fs bytes_frame_ok[OF assms(3)] by (auto simp: writeLobCreateBytesFromReader_def)
      then show ?thesis using fs True False Some eof
        by (auto simp: carries_def blob_content_def case_prod_beta intro!: exI[of _ "[(LobReqCreateBytes, 0, [])]"])
    next
      case f: False
      then have "n' = n1" using w False l err by (auto simp: writeLobCreateBytesFromReader_def)
      then show ?thesis using fs f False Some eof by (auto simp: carries_def blob_content_def case_prod_beta)
    qed
  qed
qed

section \<open>CLOBs\<close>

lemma utf16_encode_append: "utf16_encode (a @ b) = utf16_encode a @ utf16_encode b"
  by (induction a) (simp_all add: Let_def)

lemma take_units_out: "take_units room rs = (a, True, rest) \<Longrightarrow> rest = [] \<and> rs = a"
  by (induction room rs arbitrary: a rest rule: take_units.induct)
    (subst (asm) take_units.simps, auto split: if_splits list.splits prod.splits)

lemma chunk_taken: "readUTF16Chunk rs e m = (cs, None, rest) \<Longrightarrow> utf16_encode rs = cs @ utf16_encode rest"
  by (auto simp: readUTF16Chunk_def utf16_encode_append dest: take_units_split dest!: take_units_out split: prod.splits if_splits)

lemma chunk_failed: "readUTF16Chunk rs e m = (cs, Some x, rest) \<Longrightarrow> cs = [] \<and> x = e \<and> (e = EOF \<longrightarrow> rs = [])"
  by (auto simp: readUTF16Chunk_def dest: take_units_split take_units_out split: prod.splits if_splits)

lemma clob_chunks_carry:
  assumes "clob_chunks s i rs e off first n = (None, first', n')" "werr n0 = None"
    and "n = n0\<lparr>pend := pend n0 @ concat (map (content_bytes utf16_bytes s i) fs)\<rparr>" "off = word_of_nat (length content)"
    and "if first then fs = [] \<and> content = [] else rebuild LobReqCreateChars LobReqSetChars fs = Some content"
  shows "e = EOF \<and> (\<exists>fs'. n' = n0\<lparr>pend := pend n0 @ concat (map (content_bytes utf16_bytes s i) fs')\<rparr> \<and>
    (if first' then fs' = [] \<and> content @ utf16_encode rs = []
     else rebuild LobReqCreateChars LobReqSetChars fs' = Some (content @ utf16_encode rs)))"
  using assms
proof (induction "length rs" arbitrary: rs off first n fs content rule: less_induct)
  case less
  obtain cs err rest where c: "readUTF16Chunk rs e maxLobChunk = (cs, err, rest)" by (metis prod_cases3)
  let ?sub = "if first then LobReqCreateChars else LobReqSetChars"
  define n1 where "n1 = (if cs = [] then n else n\<lparr>pend := pend n @ content_bytes utf16_bytes s i (?sub, off, cs)\<rparr>)"
  define fs1 where "fs1 = (if cs = [] then fs else fs @ [(?sub, off, cs)])"
  define first1 where "first1 = (first \<and> cs = [])"
  have n1: "n1 = n0\<lparr>pend := pend n0 @ concat (map (content_bytes utf16_bytes s i) fs1)\<rparr>"
    using less(4) by (simp add: n1_def fs1_def)
  have rb: "if first1 then fs1 = [] \<and> content @ cs = [] else rebuild LobReqCreateChars LobReqSetChars fs1 = Some (content @ cs)"
  proof (cases first)
    case True
    then show ?thesis using less(5,6) by (auto simp: first1_def fs1_def)
  next
    case False
    then show ?thesis using less(5,6) rebuild_snoc[of LobReqCreateChars LobReqSetChars fs content cs]
      by (auto simp: first1_def fs1_def)
  qed
  have w: "werr n = None" using less(3,4) by simp
  have st: "clob_chunks s i rs e off first n = (case err of
      Some x \<Rightarrow> (if x = EOF then (None, first1, n1) else (Some x, first1, n1))
    | None \<Rightarrow> clob_chunks s i rest e (off + word_of_nat (length cs)) first1 n1)"
    unfolding clob_chunks.simps[of s i rs] c
    using w by (cases "cs = []"; cases err) (auto simp: chars_frame_ok[OF w] n1_def first1_def Let_def)
  show ?case
  proof (cases err)
    case None
    have "length rest < length rs"
      using readUTF16Chunk_shorter[of rs e maxLobChunk cs rest] c None by (simp add: maxLobChunk_def)
    moreover have "clob_chunks s i rest e (off + word_of_nat (length cs)) first1 n1 = (None, first', n')"
      using less(2) st None by simp
    moreover have "off + word_of_nat (length cs) = word_of_nat (length (content @ cs))" using less(5) by simp
    ultimately have "e = EOF \<and> (\<exists>fs'. n' = n0\<lparr>pend := pend n0 @ concat (map (content_bytes utf16_bytes s i) fs')\<rparr> \<and>
      (if first' then fs' = [] \<and> (content @ cs) @ utf16_encode rest = []
       else rebuild LobReqCreateChars LobReqSetChars fs' = Some ((content @ cs) @ utf16_encode rest)))"
      using less(1)[OF _ _ less(3) n1 _ rb] by blast
    moreover have "utf16_encode rs = cs @ utf16_encode rest" by (rule chunk_taken[OF c[unfolded None]])
    ultimately show ?thesis by (simp only: append_assoc)
  next
    case (Some x)
    then have "x = EOF" "first' = first1" "n' = n1" using less(2) st by (auto split: if_splits)
    then show ?thesis using n1 rb Some chunk_failed[of rs e maxLobChunk cs x rest] c by auto
  qed
qed

section \<open>The contents of LOB parameters\<close>

text \<open>The UTF-16 units that a CLOB parameter stands for: its announced length plays no part.\<close>

definition clob_content :: "pending_lob \<Rightarrow> u16 list option" where
  "clob_content lob = (case lob_clobReader lob of
      None \<Rightarrow> Some (lob_chars lob)
    | Some rd \<Rightarrow> (let (rs, e) = reader_runes rd in if e = EOF then Some (utf16_encode rs) else None))"

lemma clob_carried:
  assumes "writeLobCreate s lob n = (None, n')" "lob_isClob lob" "werr n = None"
  shows "\<exists>content. clob_content lob = Some content \<and>
    carries LobReqCreateChars LobReqSetChars utf16_bytes s (lob_id lob) n n' content"
proof (cases "lob_clobReader lob")
  case None
  then show ?thesis
    using assms(1,2) chars_frame_ok[OF assms(3)]
    by (auto simp: writeLobCreate_def carries_def clob_content_def intro!: exI[of _ "[(LobReqCreateChars, 0, lob_chars lob)]"])
next
  case (Some rd)
  obtain rs e where rd: "reader_runes rd = (rs, e)" by fastforce
  obtain err first n1 where l: "clob_chunks s (lob_id lob) rs e 0 True n = (err, first, n1)" by (metis prod_cases3)
  have w: "(if err \<noteq> None then (err, n1) else if first then writeLobCharsFrame s LobReqCreateChars (lob_id lob) 0 [] n1
      else (None, n1)) = (None, n')"
    using assms(1,2) Some rd l by (simp add: writeLobCreate_def writeLobCreateCharsFromReader_def)
  then have err: "err = None" by (auto split: if_splits)
  have "n = n\<lparr>pend := pend n @ concat (map (content_bytes utf16_bytes s (lob_id lob)) [])\<rparr>" by simp
  from clob_chunks_carry[OF l[unfolded err] assms(3) this, of "[]"] obtain fs where
    e: "e = EOF" and fs: "n1 = n\<lparr>pend := pend n @ concat (map (content_bytes utf16_bytes s (lob_id lob)) fs)\<rparr>"
      "if first then fs = [] \<and> utf16_encode rs = [] else rebuild LobReqCreateChars LobReqSetChars fs = Some (utf16_encode rs)"
    unfolding append_Nil by auto
  have ct: "clob_content lob = Some (utf16_encode rs)" by (simp add: clob_content_def Some rd e)
  show ?thesis
  proof (cases first)
    case True
    then have "n' = n\<lparr>pend := pend n @ content_bytes utf16_bytes s (lob_id lob) (LobReqCreateChars, 0, [])\<rparr>"
      using w err fs chars_frame_ok[OF assms(3)] by auto
    then show ?thesis using fs True ct
      by (auto simp: carries_def intro!: exI[of _ "[(LobReqCreateChars, 0, [])]"])
  next
    case False
    then have "n' = n1" using w err by simp
    then show ?thesis using fs False ct by (auto simp: carries_def)
  qed
qed

text \<open>\<open>delivers s lob bs\<close>: \<open>bs\<close> are frames from which the content of the parameter can be rebuilt.\<close>

definition delivers :: "lob_session \<Rightarrow> pending_lob \<Rightarrow> byte list \<Rightarrow> bool" where
  "delivers s lob bs \<longleftrightarrow>
     (if lob_isClob lob
      then \<exists>fs. bs = concat (map (content_bytes utf16_bytes s (lob_id lob)) fs) \<and> clob_content lob \<noteq> None \<and>
        rebuild LobReqCreateChars LobReqSetChars fs = clob_content lob
      else \<exists>fs. bs = concat (map (content_bytes (\<lambda>b. b) s (lob_id lob)) fs) \<and> blob_content lob \<noteq> None \<and>
        rebuild LobReqCreateBytes LobReqSetBytes fs = blob_content lob)"

lemma lob_delivered:
  assumes "writeLobCreate s lob n = (None, n')" "werr n = None"
  shows "\<exists>bs. n' = n\<lparr>pend := pend n @ bs\<rparr> \<and> delivers s lob bs"
proof (cases "lob_isClob lob")
  case True
  from clob_carried[OF assms(1) True assms(2)] obtain fs where
    "n' = n\<lparr>pend := pend n @ concat (map (content_bytes utf16_bytes s (lob_id lob)) fs)\<rparr>"
    "clob_content lob \<noteq> None" "rebuild LobReqCreateChars LobReqSetChars fs = clob_content lob"
    by (auto simp: carries_def)
  then show ?thesis using True unfolding delivers_def by metis
next
  case False
  from blob_carried[OF assms(1) False assms(2)] obtain fs where
    "n' = n\<lparr>pend := pend n @ concat (map (content_bytes (\<lambda>b. b) s (lob_id lob)) fs)\<rparr>"
    "blob_content lob \<noteq> None" "rebuild LobReqCreateBytes LobReqSetBytes fs = blob_content lob"
    by (auto simp: carries_def)
  then show ?thesis using False unfolding delivers_def by metis
qed

text \<open>C30: when sending a LOB parameter succeeds, whether it is bound as bytes or text, as a reader of known
  length or as a reader that is sent in segments until it ends, then it has a content, and what has been
  written are frames of which one creates the LOB and the others each continue it exactly at its end, and
  which together hold the bound content: the bytes of a BLOB, the UTF-16 units of a CLOB.\<close>

theorem lob_frames_rebuild:
  assumes "writeLobCreate s lob n = (None, n')" "werr n = None"
  shows "\<exists>bs. n' = n\<lparr>pend := pend n @ bs\<rparr> \<and> delivers s lob bs"
  by (rule lob_delivered[OF assms])

theorem lob_frames_rebuild_witness:
  "\<exists>n' bs. writeLobCreate (7, 9) (zero_lob\<lparr>lob_id := -1, lob_length := -1,
      lob_blobReader := Some [([1, 2], None), ([], None), ([3], Some EOF)]\<rparr>) (idle_net ()) = (None, n') \<and>
    n' = (idle_net ())\<lparr>pend := bs\<rparr> \<and> (\<exists>fs. bs = concat (map (content_bytes (\<lambda>b. b) (7, 9) (-1)) fs) \<and>
      rebuild LobReqCreateBytes LobReqSetBytes fs = Some [1, 2, 3])"
proof -
  let ?l = "zero_lob\<lparr>lob_id := -1, lob_length := -1, lob_blobReader := Some [([1, 2], None), ([], None), ([3], Some EOF)]\<rparr>"
  let ?n = "idle_net ()"
  have w: "werr ?n = None" "pend ?n = []" by (simp_all add: idle_net_def)
  obtain n' where n': "writeLobCreate (7, 9) ?l ?n = (None, n')"
    by (simp add: writeLobCreate_def writeLobCreateBytesFromReader_def zero_lob_def bytes_frame_ok w word_sle_eq)
  have "blob_content ?l = Some [1, 2, 3]" "\<not> lob_isClob ?l" by (simp_all add: blob_content_def zero_lob_def word_sle_eq)
  then show ?thesis using lob_frames_rebuild[OF n' w(1)] n' w(2) by (auto simp: delivers_def)
qed

end
