(* ===== verification/GoQuote.thy ===== *)
theory GoQuote
  imports GoStrings
begin

unbundle bit_operations_syntax

text \<open>
  Go's quoted strings: \<^verbatim>\<open>strconv.Quote\<close> and \<^verbatim>\<open>strconv.Unquote\<close> on text in double quotes, and
  \<^verbatim>\<open>encoding/hex\<close>.  The table of printable characters (\<^verbatim>\<open>strconv.IsPrint\<close>) is a parameter.
\<close>

section \<open>Hexadecimal digits\<close>

definition hex_digit :: "nat \<Rightarrow> byte" where
  "hex_digit d = (if d < 10 then word_of_nat (48 + d) else word_of_nat (87 + d))"

definition unhex :: "byte \<Rightarrow> nat option" where
  "unhex b =
     (if 48 \<le> unat b \<and> unat b \<le> 57 then Some (unat b - 48)
      else if 97 \<le> unat b \<and> unat b \<le> 102 then Some (unat b - 87)
      else if 65 \<le> unat b \<and> unat b \<le> 70 then Some (unat b - 55)
      else None)"

text \<open>The last \<open>k\<close> digits of \<open>v\<close>, and the value of the next \<open>k\<close> digits, after those already read.\<close>

primrec hex_digits :: "nat \<Rightarrow> nat \<Rightarrow> byte list" where
  "hex_digits 0 v = []"
| "hex_digits (Suc k) v = hex_digits k (v div 16) @ [hex_digit (v mod 16)]"

fun read_hex :: "nat \<Rightarrow> nat \<Rightarrow> byte list \<Rightarrow> (nat \<times> byte list) option" where
  "read_hex 0 v s = Some (v, s)"
| "read_hex (Suc k) v [] = None"
| "read_hex (Suc k) v (b # s) = (case unhex b of None \<Rightarrow> None | Some x \<Rightarrow> read_hex k (v * 16 + x) s)"

text \<open>\<^verbatim>\<open>hex.EncodeToString\<close> and \<^verbatim>\<open>hex.DecodeString\<close>.\<close>

definition hex_encode :: "byte list \<Rightarrow> byte list" where
  "hex_encode bs = concat (map (\<lambda>b. hex_digits 2 (unat b)) bs)"

fun hex_decode :: "byte list \<Rightarrow> byte list option" where
  "hex_decode [] = Some []"
| "hex_decode [b] = None"
| "hex_decode (a # b # s) =
     (case (unhex a, unhex b) of
        (Some x, Some y) \<Rightarrow> map_option ((#) (word_of_nat (16 * x + y))) (hex_decode s)
      | _ \<Rightarrow> None)"

section \<open>Quoting\<close>

text \<open>\<^verbatim>\<open>appendEscapedRune\<close> for the double quote.\<close>

definition escape_rune :: "(rune \<Rightarrow> bool) \<Rightarrow> rune \<Rightarrow> byte list" where
  "escape_rune is_print r =
     (if r = 0x22 \<or> r = 0x5C then [0x5C, ucast r]
      else if is_print r then encode_rune r
      else if r = 0x07 then [0x5C, 0x61]
      else if r = 0x08 then [0x5C, 0x62]
      else if r = 0x0C then [0x5C, 0x66]
      else if r = 0x0A then [0x5C, 0x6E]
      else if r = 0x0D then [0x5C, 0x72]
      else if r = 0x09 then [0x5C, 0x74]
      else if r = 0x0B then [0x5C, 0x76]
      else if r < 0x20 \<or> r = 0x7F then 0x5C # 0x78 # hex_digits 2 (unat r)
      else if \<not> scalar r then 0x5C # 0x75 # hex_digits 4 (unat RuneError)
      else if r < 0x10000 then 0x5C # 0x75 # hex_digits 4 (unat r)
      else 0x5C # 0x55 # hex_digits 8 (unat r))"

text \<open>The loop of \<^verbatim>\<open>appendQuotedWith\<close>: an invalid byte is written as \<^verbatim>\<open>\x\<close> and its two digits.\<close>

function quote_bytes :: "(rune \<Rightarrow> bool) \<Rightarrow> byte list \<Rightarrow> byte list" where
  "quote_bytes is_print [] = []"
| "quote_bytes is_print (b # bs) =
     (let (r, w) = DecodeRune (b # bs) in
      if w = 1 \<and> r = RuneError then 0x5C # 0x78 # hex_digits 2 (unat b) @ quote_bytes is_print bs
      else escape_rune is_print r @ quote_bytes is_print (drop (w - 1) bs))"
  by pat_completeness auto
termination by (relation "measure (\<lambda>(p, bs). length bs)") auto

declare quote_bytes.simps(2) [simp del]

definition Quote :: "(rune \<Rightarrow> bool) \<Rightarrow> string \<Rightarrow> string" where
  "Quote is_print s =
     string_of_bytes (0x22 # quote_bytes is_print (bytes_of_string s) @ [0x22])"

section \<open>Unquoting\<close>

text \<open>
  \<^verbatim>\<open>UnquoteChar\<close> for the double quote: the character, whether it is a multibyte one, and what follows
  it; \<open>None\<close> is \<^verbatim>\<open>ErrSyntax\<close>.
\<close>

definition octal :: "byte \<Rightarrow> nat option" where
  "octal b = (if 48 \<le> unat b \<and> unat b \<le> 55 then Some (unat b - 48) else None)"

definition unquote_escape :: "byte \<Rightarrow> byte list \<Rightarrow> ((rune \<times> bool) \<times> byte list) option" where
  "unquote_escape c s =
     (if c = 0x61 then Some ((0x07, False), s)
      else if c = 0x62 then Some ((0x08, False), s)
      else if c = 0x66 then Some ((0x0C, False), s)
      else if c = 0x6E then Some ((0x0A, False), s)
      else if c = 0x72 then Some ((0x0D, False), s)
      else if c = 0x74 then Some ((0x09, False), s)
      else if c = 0x76 then Some ((0x0B, False), s)
      else if c = 0x78 then
        (case read_hex 2 0 s of None \<Rightarrow> None | Some (v, s) \<Rightarrow> Some ((word_of_nat v, False), s))
      else if c = 0x75 \<or> c = 0x55 then
        (case read_hex (if c = 0x75 then 4 else 8) 0 s of
           None \<Rightarrow> None
         | Some (v, s) \<Rightarrow> if scalar (word_of_nat v) then Some ((word_of_nat v, True), s) else None)
      else if c = 0x5C \<or> c = 0x22 then Some ((ucast c, False), s)
      else
        (case (octal c, s) of
           (Some x, a # b # s) \<Rightarrow>
             (case (octal a, octal b) of
                (Some y, Some z) \<Rightarrow>
                  let v = x * 64 + y * 8 + z
                  in if v > 255 then None else Some ((word_of_nat v, False), s)
              | _ \<Rightarrow> None)
         | _ \<Rightarrow> None))"

definition UnquoteChar :: "byte list \<Rightarrow> ((rune \<times> bool) \<times> byte list) option" where
  "UnquoteChar s =
     (case s of
        [] \<Rightarrow> None
      | c # s' \<Rightarrow>
          if c = 0x22 then None
          else if 0x80 \<le> c then (let (r, w) = DecodeRune s in Some ((r, True), drop w s))
          else if c \<noteq> 0x5C then Some ((ucast c, False), s')
          else (case s' of [] \<Rightarrow> None | c # s \<Rightarrow> unquote_escape c s))"

lemma read_hex_shorter: "read_hex k v s = Some (x, t) \<Longrightarrow> length t \<le> length s"
  by (induction k v s rule: read_hex.induct) (auto split: option.splits)

lemma unquote_escape_shorter: "unquote_escape c s = Some (r, t) \<Longrightarrow> length t \<le> length s"
  by (auto simp: unquote_escape_def Let_def dest!: read_hex_shorter split: if_splits option.splits list.splits)

lemma DecodeRune_width: "bs \<noteq> [] \<Longrightarrow> 0 < snd (DecodeRune bs)"
  by (cases bs) (auto simp: DecodeRune.simps(2) split: list.split)

lemma UnquoteChar_shorter: "UnquoteChar s = Some (r, t) \<Longrightarrow> length t < length s"
  using DecodeRune_width[of s]
  by (auto simp: UnquoteChar_def case_prod_beta dest!: unquote_escape_shorter split: list.splits if_splits)

text \<open>
  The loop of \<^verbatim>\<open>unquote\<close> after the opening quote, up to the closing one, which has to be the last byte.
  (A string without escapes takes a shortcut there, with the same result.)
\<close>

function unquote_body :: "byte list \<Rightarrow> byte list option" where
  "unquote_body s =
     (case s of
        [] \<Rightarrow> None
      | c # s' \<Rightarrow>
          if c = 0x22 then (if s' = [] then Some [] else None)
          else if c = 0x0A then None
          else (case UnquoteChar s of
              None \<Rightarrow> None
            | Some ((r, multibyte), rem) \<Rightarrow>
                map_option ((@) (if r < 0x80 \<or> \<not> multibyte then [ucast r] else encode_rune r))
                  (unquote_body rem)))"
  by pat_completeness auto
termination by (relation "measure length") (auto dest!: UnquoteChar_shorter)

declare unquote_body.simps [simp del]

text \<open>\<^verbatim>\<open>strconv.Unquote\<close> of a text that starts with a double quote.\<close>

definition Unquote :: "string \<Rightarrow> string option" where
  "Unquote s =
     (case bytes_of_string s of
        q # rest \<Rightarrow> if q = 0x22 then map_option string_of_bytes (unquote_body rest) else None
      | [] \<Rightarrow> None)"

section \<open>Encoding what was decoded\<close>

lemma two_bytes_back:
  assumes "0xC2 \<le> (b0::byte)" "b0 \<le> 0xDF" "accept2 b0 b1"
  shows "encode_rune (push_bit 6 (ucast (b0 AND 0x1F)) OR ucast (b1 AND 0x3F)) = [b0, b1]"
proof -
  define a c where "a = unat b0 - 192" and "c = unat b1 - 128"
  have ac: "unat b0 = 192 + a" "unat b1 = 128 + c" "2 \<le> a" "a < 32" "c < 64"
    using assms by (auto simp: word_le_nat_alt accept2_def a_def c_def split: if_splits)
  define r where "r = (push_bit 6 (ucast (b0 AND 0x1F)) OR ucast (b1 AND 0x3F) :: rune)"
  have r: "unat r = a * 64 + c" using ac by (simp add: r_def rune_join unat_ucast_byte unat_and_low lead_mods)
  have sc: "scalar r" unfolding r_def by (rule two_byte_scalar[OF assms(1,2)])
  have f: "unat r < 0x110000" using r ac by simp
  have "encode_rune r = [0xC0 OR ucast (drop_bit 6 r), 0x80 OR (ucast r AND 0x3F)]"
    using encode_rune_cases[OF sc] r ac by simp
  also have "\<dots> = [b0, b1]"
    using ac by (simp add: word_unat_eq_iff byte_or_lead rune_fields[OF f] r)
  finally show ?thesis unfolding r_def .
qed

lemma three_bytes_back:
  assumes "0xE0 \<le> (b0::byte)" "b0 \<le> 0xEF" "accept2 b0 b1" "cont b2"
  shows "encode_rune (push_bit 12 (ucast (b0 AND 0x0F)) OR
    (push_bit 6 (ucast (b1 AND 0x3F)) OR ucast (b2 AND 0x3F))) = [b0, b1, b2]"
proof -
  define a c d where "a = unat b0 - 224" and "c = unat b1 - 128" and "d = unat b2 - 128"
  have b: "224 \<le> unat b0" "unat b0 < 240" "128 \<le> unat b1" "unat b1 < 192" "128 \<le> unat b2" "unat b2 < 192"
    "unat b0 = 224 \<Longrightarrow> 160 \<le> unat b1"
    using assms by (auto simp: word_le_nat_alt accept2_def cont_def word_unat_eq_iff split: if_splits)
  then have ac: "unat b0 = 224 + a" "unat b1 = 128 + c" "unat b2 = 128 + d" "a < 16" "c < 64" "d < 64"
    "a = 0 \<Longrightarrow> 32 \<le> c"
    by (auto simp: a_def c_def d_def)
  define r where "r = (push_bit 12 (ucast (b0 AND 0x0F)) OR (push_bit 6 (ucast (b1 AND 0x3F)) OR ucast (b2 AND 0x3F)) :: rune)"
  have sc: "scalar r" unfolding r_def by (rule three_byte_scalar[OF assms(1-3)])
  have r: "unat r = a * 4096 + (c * 64 + d)"
    using ac by (simp add: r_def rune_join unat_ucast_byte unat_and_low lead_mods)
  have f: "unat r < 0x110000" and g: "0x800 \<le> unat r" "unat r < 0x10000" using r ac by (cases "a = 0"; simp)+
  have q: "unat r div 64 = a * 64 + c" unfolding r using ac by simp
  have dv: "unat r div 4096 = a" "unat r div 64 mod 64 = c" "unat r mod 64 = d"
  proof -
    have "unat r div 4096 = unat r div 64 div 64" by (simp only: div_mult2_eq[symmetric]) simp
    then show "unat r div 4096 = a" unfolding q using ac by simp
    show "unat r div 64 mod 64 = c" unfolding q using ac by simp
    have "unat r = 64 * (a * 64 + c) + d" by (simp add: r)
    then show "unat r mod 64 = d" using ac by (simp only: mod_mult_self4) simp
  qed
  have "encode_rune r = [0xE0 OR ucast (drop_bit 12 r), 0x80 OR (ucast (drop_bit 6 r) AND 0x3F), 0x80 OR (ucast r AND 0x3F)]"
    using encode_rune_cases[OF sc] g by (simp only: if_False not_less simp_thms) simp
  also have "\<dots> = [b0, b1, b2]"
    using ac by (simp add: word_unat_eq_iff byte_or_lead rune_fields[OF f] dv)
  finally show ?thesis unfolding r_def .
qed

lemma four_bytes_back:
  assumes "0xF0 \<le> (b0::byte)" "b0 \<le> 0xF4" "accept2 b0 b1" "cont b2" "cont b3"
  shows "encode_rune (push_bit 18 (ucast (b0 AND 0x07)) OR (push_bit 12 (ucast (b1 AND 0x3F)) OR
    (push_bit 6 (ucast (b2 AND 0x3F)) OR ucast (b3 AND 0x3F)))) = [b0, b1, b2, b3]"
proof -
  define a c d e where "a = unat b0 - 240" and "c = unat b1 - 128" and "d = unat b2 - 128" and "e = unat b3 - 128"
  have b: "240 \<le> unat b0" "unat b0 < 245" "128 \<le> unat b1" "unat b1 < 192" "128 \<le> unat b2" "unat b2 < 192"
    "128 \<le> unat b3" "unat b3 < 192" "unat b0 = 240 \<Longrightarrow> 144 \<le> unat b1" "unat b0 = 244 \<Longrightarrow> unat b1 < 144"
    using assms by (auto simp: word_le_nat_alt accept2_def cont_def word_unat_eq_iff split: if_splits)
  then have ac: "unat b0 = 240 + a" "unat b1 = 128 + c" "unat b2 = 128 + d" "unat b3 = 128 + e" "a < 5" "c < 64" "d < 64" "e < 64"
    "a = 0 \<Longrightarrow> 16 \<le> c" "a = 4 \<Longrightarrow> c < 16"
    unfolding a_def c_def d_def e_def by arith+
  define r where "r = (push_bit 18 (ucast (b0 AND 0x07)) OR (push_bit 12 (ucast (b1 AND 0x3F)) OR
    (push_bit 6 (ucast (b2 AND 0x3F)) OR ucast (b3 AND 0x3F))) :: rune)"
  have sc: "scalar r" unfolding r_def by (rule four_byte_scalar[OF assms(1-3)])
  have r: "unat r = a * 262144 + (c * 4096 + (d * 64 + e))"
    using ac by (simp add: r_def rune_join unat_ucast_byte unat_and_low lead_mods)
  have g: "0x10000 \<le> unat r" unfolding r using ac by (cases "a = 0") auto
  have f: "unat r < 0x110000" unfolding r using ac by (cases "a = 4") auto
  have q: "unat r div 64 = a * 4096 + (c * 64 + d)" unfolding r using ac by simp
  have q2: "unat r div 4096 = a * 64 + c"
  proof -
    have "unat r div 4096 = unat r div 64 div 64" by (simp only: div_mult2_eq[symmetric]) simp
    then show ?thesis unfolding q using ac by simp
  qed
  have q3: "unat r div 262144 = a"
  proof -
    have "unat r div 262144 = unat r div 4096 div 64" by (simp only: div_mult2_eq[symmetric]) simp
    then show ?thesis unfolding q2 using ac by simp
  qed
  have dv: "unat r div 4096 mod 64 = c" "unat r div 64 mod 64 = d" "unat r mod 64 = e"
  proof -
    show "unat r div 4096 mod 64 = c" unfolding q2 using ac by simp
    have "unat r div 64 = 64 * (a * 64 + c) + d" by (simp add: q)
    then show "unat r div 64 mod 64 = d" using ac by (simp only: mod_mult_self4) simp
    have "unat r = 64 * (a * 4096 + (c * 64 + d)) + e" by (simp add: r)
    then show "unat r mod 64 = e" using ac by (simp only: mod_mult_self4) simp
  qed
  have "encode_rune r = [0xF0 OR ucast (drop_bit 18 r), 0x80 OR (ucast (drop_bit 12 r) AND 0x3F),
      0x80 OR (ucast (drop_bit 6 r) AND 0x3F), 0x80 OR (ucast r AND 0x3F)]"
    using encode_rune_cases[OF sc] g by (simp only: if_False not_less simp_thms) simp
  also have "\<dots> = [b0, b1, b2, b3]"
    using ac by (simp add: word_unat_eq_iff byte_or_lead rune_fields[OF f] dv q3)
  finally show ?thesis unfolding r_def .
qed

lemma ucast_rune_byte [simp]: "ucast (ucast (b::byte) :: rune) = b"
  using byte_lt[of b] by (simp add: word_unat_eq_iff unsigned_ucast_eq[of "ucast b"] unat_ucast_byte take_bit_nat_eq_self)

lemma encode_DecodeRune:
  assumes "DecodeRune (b # bs) = (r, w)" "\<not> (w = 1 \<and> r = RuneError)"
  shows "encode_rune r @ drop (w - 1) bs = b # bs"
proof -
  have one: "b < 0x80 \<Longrightarrow> encode_rune (ucast b) = [b]"
    by (subst encode_rune_cases) (simp_all add: scalar_def unat_ucast_byte word_less_nat_alt ucast_rune_byte)
  show ?thesis using assms
    by (auto simp: DecodeRune.simps(2) one two_bytes_back three_bytes_back four_bytes_back
        split: if_splits list.splits)
qed

section \<open>Unquoting what was quoted\<close>

lemma unat_hex_digit: "d < 16 \<Longrightarrow> unat (hex_digit d) = (if d < 10 then 48 + d else 87 + d)"
  by (simp add: hex_digit_def unsigned_of_nat take_bit_nat_eq_self del: of_nat_add)

lemma unhex_digit [simp]: "d < 16 \<Longrightarrow> unhex (hex_digit d) = Some d"
  by (auto simp: unhex_def unat_hex_digit)

lemma rune_of_byte: "(word_of_nat (unat (b::byte)) :: rune) = ucast b"
  using byte_lt[of b] by (simp add: word_unat_eq_iff unat_ucast_byte unsigned_of_nat take_bit_nat_eq_self)

lemma read_hex_snoc:
  "read_hex (Suc k) v s = Option.bind (read_hex k v s) (\<lambda>(v, s). read_hex 1 v s)"
  by (induction k v s rule: read_hex.induct) (auto split: option.split)

lemma read_hex_digits: "read_hex k v (hex_digits k x @ t) = Some (v * 16 ^ k + x mod 16 ^ k, t)"
proof (induction k arbitrary: x t)
  case (Suc k)
  have "v * 16 ^ Suc k + (x div 16 mod 16 ^ k * 16 + x mod 16) = v * 16 ^ Suc k + x mod 16 ^ Suc k"
    by (simp add: mod_mult2_eq mult.commute)
  then show ?case
    by (subst read_hex_snoc) (simp add: Suc distrib_right mult.assoc mult.commute add.assoc)
qed simp

lemma read_hex_word: "unat w < 16 ^ k \<Longrightarrow> read_hex k 0 (hex_digits k (unat w) @ t) = Some (unat w, t)"
  by (simp add: read_hex_digits)

lemma unquote_quote: "unquote_body [0x22] = Some []"
  by (simp add: unquote_body.simps)

lemma unquote_escaped:
  assumes "unquote_escape c s = Some ((r, m), t)"
  shows "unquote_body (0x5C # c # s) =
    map_option ((@) (if r < 0x80 \<or> \<not> m then [ucast r] else encode_rune r)) (unquote_body t)"
  using assms by (subst unquote_body.simps) (simp add: UnquoteChar_def)

lemma unquote_byte_escape:
  "unquote_body (0x5C # 0x78 # hex_digits 2 (unat (b::byte)) @ t) = map_option ((#) b) (unquote_body t)"
proof -
  have "unquote_escape 0x78 (hex_digits 2 (unat b) @ t) = Some ((ucast b, False), t)"
    using read_hex_word[of b 2 t] byte_lt[of b] by (simp add: unquote_escape_def rune_of_byte)
  from unquote_escaped[OF this] show ?thesis by (simp add: append_Cons[abs_def])
qed

lemma encode_small_rune: "scalar r \<Longrightarrow> r < 0x80 \<Longrightarrow> encode_rune r = [ucast r]"
  by (simp add: encode_rune_cases word_less_nat_alt)

lemma unquote_rune_escape:
  assumes "scalar r"
  shows "r < 0x10000 \<Longrightarrow> unquote_body (0x5C # 0x75 # hex_digits 4 (unat r) @ t) = map_option ((@) (encode_rune r)) (unquote_body t)"
    and "unquote_body (0x5C # 0x55 # hex_digits 8 (unat r) @ t) = map_option ((@) (encode_rune r)) (unquote_body t)"
proof -
  have e: "(if r < 0x80 \<or> \<not> True then [ucast r] else encode_rune r) = encode_rune r"
    using assms by (simp add: encode_small_rune)
  have "unat r < 16 ^ 8" using unsigned_less[of r, where 'a = nat] by simp
  then have "unquote_escape 0x55 (hex_digits 8 (unat r) @ t) = Some ((r, True), t)"
    using read_hex_word[of r 8 t] assms by (simp add: unquote_escape_def)
  from unquote_escaped[OF this] show "unquote_body (0x5C # 0x55 # hex_digits 8 (unat r) @ t) = map_option ((@) (encode_rune r)) (unquote_body t)"
    unfolding e .
  assume "r < 0x10000"
  then have "unquote_escape 0x75 (hex_digits 4 (unat r) @ t) = Some ((r, True), t)"
    using read_hex_word[of r 4 t] assms by (simp add: unquote_escape_def word_less_nat_alt)
  from unquote_escaped[OF this] show "unquote_body (0x5C # 0x75 # hex_digits 4 (unat r) @ t) = map_option ((@) (encode_rune r)) (unquote_body t)"
    unfolding e .
qed

lemma encode_rune_high: "scalar r \<Longrightarrow> \<not> r < 0x80 \<Longrightarrow> \<exists>b bs. encode_rune r = b # bs \<and> 0x80 \<le> b"
  by (auto simp: encode_rune_cases word_less_nat_alt word_le_nat_alt rune_fields scalar_def byte_or_lead
      unat_drop_bit_div)

lemma unquote_plain_rune:
  assumes "scalar r" "r \<noteq> 0x22" "r \<noteq> 0x5C" "r \<noteq> 0x0A"
  shows "unquote_body (encode_rune r @ t) = map_option ((@) (encode_rune r)) (unquote_body t)"
proof (cases "r < 0x80")
  case True
  have n: "(ucast r :: byte) \<noteq> 0x22 \<and> (ucast r :: byte) \<noteq> 0x5C \<and> (ucast r :: byte) \<noteq> 0x0A \<and> \<not> (0x80 \<le> (ucast r :: byte))"
    using assms(2-4) True by (auto simp: word_unat_eq_iff unsigned_ucast_eq take_bit_eq_mod word_less_nat_alt word_le_nat_alt)
  have "ucast (ucast r :: byte) = r"
    using True by (simp add: word_unat_eq_iff unat_ucast_byte) (simp add: unsigned_ucast_eq take_bit_eq_mod word_less_nat_alt)
  then show ?thesis
    using n True assms(1) by (subst unquote_body.simps) (simp add: encode_small_rune UnquoteChar_def)
next
  case False
  obtain b bs where b: "encode_rune r = b # bs" "0x80 \<le> b" using encode_rune_high[OF assms(1) False] by blast
  then have "b \<noteq> 0x22 \<and> b \<noteq> 0x0A" by auto
  moreover have "DecodeRune (b # bs @ t) = (r, Suc (length bs))" using DecodeRune_encode_rune[OF assms(1), of t] b by simp
  ultimately show ?thesis
    using b False by (subst unquote_body.simps) (simp add: UnquoteChar_def)
qed

lemma unquote_escape_rune:
  assumes "scalar r" "\<not> is_print 0x0A"
  shows "unquote_body (escape_rune is_print r @ t) = map_option ((@) (encode_rune r)) (unquote_body t)"
proof -
  have simple: "unquote_body (0x5C # c # t) = map_option ((@) (encode_rune x)) (unquote_body t)"
    if "unquote_escape c t = Some ((x, False), t)" "scalar x" "x < 0x80" for c x
    using unquote_escaped[OF that(1)] that by (simp add: encode_small_rune)
  have byte: "unquote_body (0x5C # 0x78 # hex_digits 2 (unat r) @ t) = map_option ((@) (encode_rune r)) (unquote_body t)"
    if "r < 0x80"
  proof -
    have "unat (ucast r :: byte) = unat r" using that by (simp add: unsigned_ucast_eq take_bit_eq_mod word_less_nat_alt)
    then show ?thesis using unquote_byte_escape[of "ucast r" t] assms(1) that by (simp add: encode_small_rune append_Cons[abs_def])
  qed
  show ?thesis
    using assms unquote_rune_escape[OF assms(1), of t] unquote_plain_rune[OF assms(1), of t] byte
    by (auto simp: escape_rune_def simple unquote_escape_def less_trans[of r "0x20" "0x80"])
qed

lemma unquote_quote_bytes:
  "\<not> is_print 0x0A \<Longrightarrow> unquote_body (quote_bytes is_print bs @ [0x22]) = Some bs"
proof (induction is_print bs rule: quote_bytes.induct)
  case (1 p)
  then show ?case by (simp add: unquote_quote)
next
  case (2 p b bs)
  obtain r w where d: "DecodeRune (b # bs) = (r, w)" by fastforce
  note q = quote_bytes.simps(2)[of p b bs, unfolded d prod.case Let_def]
  show ?case
  proof (cases "w = 1 \<and> r = RuneError")
    case True
    then show ?thesis using 2(1)[OF d[symmetric] refl True 2(3)] by (simp add: q unquote_byte_escape)
  next
    case False
    have "scalar r" using DecodeRune_scalar[of "b # bs"] d by simp
    then show ?thesis
      using 2(2)[OF d[symmetric] refl False 2(3)] 2(3) encode_DecodeRune[OF d False]
      by (simp only: q if_not_P[OF False]) (simp add: unquote_escape_rune del: One_nat_def)
  qed
qed

lemma Unquote_Quote:
  assumes "\<not> is_print 0x0A"
  shows "Unquote (Quote is_print s) = Some s"
  by (simp add: Unquote_def Quote_def unquote_quote_bytes[of is_print, OF assms])

end
