(* ===== verification/ArrayText.thy ===== *)
theory ArrayText
  imports GoQuote Values
begin

unbundle bit_operations_syntax

text \<open>
  \<^verbatim>\<open>array.go\<close>: the text form in which ARRAY results are delivered, and \<^verbatim>\<open>ScanArray\<close>, which parses it back
  into a Go slice.
\<close>

section \<open>The text of Go values\<close>

text \<open>
  What the standard library's tables and floating-point printers give: the printable characters of
  \<^verbatim>\<open>strconv\<close>, \<^verbatim>\<open>FormatFloat(x, 'g', -1, 64)\<close> and \<^verbatim>\<open>ParseFloat\<close>, \<^verbatim>\<open>Format\<close> and \<^verbatim>\<open>Parse\<close> with the layout
  RFC3339Nano, and \<^verbatim>\<open>fmt\<close>'s \<^verbatim>\<open>%v\<close>.
\<close>

record text_lib =
  IsPrint :: "rune \<Rightarrow> bool"
  FormatFloat :: "64 word \<Rightarrow> string"
  ParseFloat :: "string \<Rightarrow> 64 word option"
  FormatTime :: "gtime \<Rightarrow> string"
  ParseTime :: "string \<Rightarrow> gtime option"
  FormatV :: "gval \<Rightarrow> string"

fun Join :: "string \<Rightarrow> string list \<Rightarrow> string" where
  "Join sep [] = []"
| "Join sep [x] = x"
| "Join sep (x # y # ys) = x @ sep @ Join sep (y # ys)"

text \<open>\<^verbatim>\<open>strconv.ParseUint(s, 10, 64)\<close>: digits only.\<close>

definition ParseUint64 :: "string \<Rightarrow> int option" where
  "ParseUint64 s =
     (if s = [] \<or> \<not> list_all is_digit s then None
      else if int (digits_val s) < 2 ^ 64 then Some (int (digits_val s)) else None)"

definition ParseBool :: "string \<Rightarrow> bool option" where
  "ParseBool s =
     (if s \<in> {''1'', ''t'', ''T'', ''true'', ''TRUE'', ''True''} then Some True
      else if s \<in> {''0'', ''f'', ''F'', ''false'', ''FALSE'', ''False''} then Some False
      else None)"

section \<open>Encoding\<close>

abbreviation arrayNullToken :: string where "arrayNullToken \<equiv> ''NULL''"

fun encodeArrayElement :: "text_lib \<Rightarrow> gval \<Rightarrow> string" where
  "encodeArrayElement lib VNil = arrayNullToken"
| "encodeArrayElement lib (VString x) = Quote (IsPrint lib) x"
| "encodeArrayElement lib (VInt64 x) = int_string (sint x)"
| "encodeArrayElement lib (VFloat64 x) = FormatFloat lib x"
| "encodeArrayElement lib (VBool x) = (if x then ''true'' else ''false'')"
| "encodeArrayElement lib (VBytes x) = string_of_bytes (hex_encode x)"
| "encodeArrayElement lib (VTime x) = Quote (IsPrint lib) (FormatTime lib x)"
| "encodeArrayElement lib (VArrayValue xs base) = ''['' @ Join '','' (map (encodeArrayElement lib) xs) @ '']''"
| "encodeArrayElement lib v = Quote (IsPrint lib) (Sprint (FormatV lib) v)"

definition encodeArrayText :: "text_lib \<Rightarrow> gval list \<Rightarrow> string" where
  "encodeArrayText lib values = ''['' @ Join '','' (map (encodeArrayElement lib) values) @ '']''"

section \<open>Parsing\<close>

record array_elem =
  raw :: string
  quoted :: bool
  null :: bool

text \<open>The position of the closing quote: a backslash hides the character after it.\<close>

fun close_quote :: "string \<Rightarrow> nat option" where
  "close_quote [] = None"
| "close_quote (c # s) =
     (if c = CHR 0x5C then (case s of [] \<Rightarrow> None | d # s \<Rightarrow> map_option (\<lambda>k. k + 2) (close_quote s))
      else if c = CHR 0x22 then Some 0
      else map_option Suc (close_quote s))"

text \<open>
  One round of the loop of \<^verbatim>\<open>parseArrayElements\<close>: the element at the front of a non-empty rest of the text,
  and what follows its comma.
\<close>

definition blank :: "char \<Rightarrow> bool" where
  "blank c \<longleftrightarrow> c = CHR '' '' \<or> c = CHR 0x09"

definition parse_element :: "string \<Rightarrow> (array_elem \<times> string) go_result" where
  "parse_element s0 =
     (let s = dropWhile blank s0 in
      if s \<noteq> [] \<and> hd s = CHR 0x22 then
        (case close_quote (tl s) of
           None \<Rightarrow> Inl (Errorf ''hsql: unterminated quoted array element'')
         | Some k \<Rightarrow>
             (case Unquote (take (k + 2) s) of
                None \<Rightarrow> Inl (Wrapf ''hsql: malformed quoted array element'' (Errorf ''invalid syntax''))
              | Some u \<Rightarrow>
                  Inr (\<lparr>raw = u, quoted = True, null = False\<rparr>,
                       drop 1 (dropWhile (\<lambda>c. c \<noteq> CHR '','') (drop (k + 2) s)))))
      else
        let (token, rest) = (case IndexByte s (CHR '','') of
            None \<Rightarrow> (s, [])
          | Some j \<Rightarrow> (take j s, drop (j + 1) s));
            token = TrimSpace token
        in if token = arrayNullToken then Inr (\<lparr>raw = [], quoted = False, null = True\<rparr>, rest)
           else Inr (\<lparr>raw = token, quoted = False, null = False\<rparr>, rest))"

lemma parse_element_shorter:
  assumes "parse_element s = Inr (e, rest)" "s \<noteq> []"
  shows "length rest < length s"
proof -
  let ?u = "dropWhile blank s"
  have d: "length ?u \<le> length s" by (rule length_dropWhile_le)
  obtain P j where "rest = drop 1 (dropWhile P (drop j ?u)) \<or> rest = drop (Suc j) ?u \<or> rest = []"
    using assms(1) by (auto simp: parse_element_def Let_def split: if_splits option.splits)
  moreover have "length (dropWhile P (drop j ?u)) \<le> length s"
    using length_dropWhile_le[of P "drop j ?u"] d by simp
  moreover obtain n where "length s = Suc n" using assms(2) by (cases s) auto
  ultimately show ?thesis using d by auto
qed

function parse_elements :: "string \<Rightarrow> array_elem list go_result" where
  "parse_elements s =
     (if s = [] then Inr []
      else case parse_element s of
          Inl e \<Rightarrow> Inl e
        | Inr (x, rest) \<Rightarrow> (case parse_elements rest of Inl e \<Rightarrow> Inl e | Inr xs \<Rightarrow> Inr (x # xs)))"
  by pat_completeness auto
termination by (relation "measure length") (auto dest!: parse_element_shorter)

declare parse_elements.simps [simp del]

definition parseArrayElements :: "string \<Rightarrow> array_elem list go_result" where
  "parseArrayElements s =
     (let s = TrimSpace s in
      if \<not> HasPrefix s ''['' \<or> \<not> HasSuffix s '']'' then Inl (Errorf ''hsql: malformed array text'')
      else
        let s = take (length s - 2) (drop 1 s) in
        if TrimSpace s = [] then Inr [] else parse_elements s)"

section \<open>Scanning into a slice\<close>

text \<open>
  The element types that \<^verbatim>\<open>setArrayElement\<close> distinguishes by \<^verbatim>\<open>reflect\<close>, with the width of the numeric
  kinds, and what an element of the slice holds.  \<^verbatim>\<open>SetInt\<close> and \<^verbatim>\<open>SetUint\<close> cut the value to the width,
  \<^verbatim>\<open>SetFloat\<close> rounds it to a float32.
\<close>

datatype elem_kind = KTime | KBytes | KString | KInt nat | KUint nat | KFloat64 | KFloat32 | KBool | KInterface | KOther

datatype elem_val =
    DTime gtime
  | DBytes "byte list"
  | DString string
  | DInt int
  | DUint int
  | DFloat64 "64 word"
  | DFloat32 "32 word"
  | DBool bool
  | DInterface gval
  | DZero

definition float32_of_float64 :: "64 word \<Rightarrow> 32 word" where
  "float32_of_float64 x =
     (let e = unat (drop_bit 52 x AND 0x7FF); f = unat (x AND 0xFFFFFFFFFFFFF);
          s = (if bit x 63 then 0x80000000 else 0);
          m = (if e = 0 then f else f + 2 ^ 52);
          k = (if 897 \<le> e then 29 else 29 + (897 - max e 1));
          q = (let q = m div 2 ^ k; r = m mod 2 ^ k; h = 2 ^ (k - 1)
               in if r > h \<or> (r = h \<and> odd q) then q + 1 else q);
          b = (if 897 \<le> e then (e - 897) * 2 ^ 23 + q else q)
      in s OR (if e = 2047 then (if f = 0 then 0x7F800000 else 0x7FC00000 OR word_of_nat (f div 2 ^ 29))
               else if b \<ge> 0x7F800000 then 0x7F800000 else word_of_nat b))"

definition zero_elem :: "elem_kind \<Rightarrow> elem_val" where
  "zero_elem k = (case k of
      KTime \<Rightarrow> DTime zero_time
    | KBytes \<Rightarrow> DBytes []
    | KString \<Rightarrow> DString []
    | KInt _ \<Rightarrow> DInt 0
    | KUint _ \<Rightarrow> DUint 0
    | KFloat64 \<Rightarrow> DFloat64 0
    | KFloat32 \<Rightarrow> DFloat32 0
    | KBool \<Rightarrow> DBool False
    | KInterface \<Rightarrow> DInterface VNil
    | KOther \<Rightarrow> DZero)"

definition inferArrayElement :: "text_lib \<Rightarrow> array_elem \<Rightarrow> gval" where
  "inferArrayElement lib e =
     (if quoted e then VString (raw e)
      else case ParseInt64 (raw e) of
        Some n \<Rightarrow> VInt64 (word_of_int n)
      | None \<Rightarrow>
          (case ParseFloat lib (raw e) of
             Some f \<Rightarrow> VFloat64 f
           | None \<Rightarrow> (case ParseBool (raw e) of Some b \<Rightarrow> VBool b | None \<Rightarrow> VString (raw e))))"

definition parsed :: "('a \<Rightarrow> elem_val) \<Rightarrow> 'a option \<Rightarrow> elem_val go_result" where
  "parsed f r = (case r of None \<Rightarrow> Inl (Errorf ''invalid syntax'') | Some x \<Rightarrow> Inr (f x))"

definition setArrayElement :: "text_lib \<Rightarrow> elem_kind \<Rightarrow> array_elem \<Rightarrow> elem_val go_result" where
  "setArrayElement lib k e = (case k of
      KTime \<Rightarrow> parsed DTime (ParseTime lib (raw e))
    | KBytes \<Rightarrow> if quoted e then Inr (DBytes (bytes_of_string (raw e)))
        else parsed DBytes (hex_decode (bytes_of_string (raw e)))
    | KString \<Rightarrow> Inr (DString (raw e))
    | KInt w \<Rightarrow> parsed (\<lambda>n. DInt (signed_take_bit (w - 1) n)) (ParseInt64 (raw e))
    | KUint w \<Rightarrow> parsed (\<lambda>n. DUint (take_bit w n)) (ParseUint64 (raw e))
    | KFloat64 \<Rightarrow> parsed DFloat64 (ParseFloat lib (raw e))
    | KFloat32 \<Rightarrow> parsed (\<lambda>x. DFloat32 (float32_of_float64 x)) (ParseFloat lib (raw e))
    | KBool \<Rightarrow> parsed DBool (ParseBool (raw e))
    | KInterface \<Rightarrow> Inr (DInterface (inferArrayElement lib e))
    | KOther \<Rightarrow> Inl (Errorf ''unsupported element type''))"

text \<open>The loop of \<^verbatim>\<open>Scan\<close> over the parsed elements; a NULL leaves the zero value.\<close>

fun scan_elements :: "text_lib \<Rightarrow> elem_kind \<Rightarrow> array_elem list \<Rightarrow> elem_val list go_result" where
  "scan_elements lib k [] = Inr []"
| "scan_elements lib k (e # es) =
     (case (if null e then Inr (zero_elem k) else setArrayElement lib k e) of
        Inl err \<Rightarrow> Inl (Wrapf ''hsql: array element'' err)
      | Inr v \<Rightarrow> (case scan_elements lib k es of Inl err \<Rightarrow> Inl err | Inr vs \<Rightarrow> Inr (v # vs)))"

text \<open>
  \<^verbatim>\<open>arrayScanner.Scan\<close>: \<open>None\<close> as a destination is anything but a pointer to a slice; the result is the
  new slice, \<open>None\<close> for nil.
\<close>

definition Scan :: "text_lib \<Rightarrow> elem_kind option \<Rightarrow> gval \<Rightarrow> elem_val list option go_result" where
  "Scan lib dest src = (case dest of
      None \<Rightarrow> Inl (Errorf ''hsql: ScanArray destination must be a pointer to a slice'')
    | Some k \<Rightarrow>
        if src = VNil then Inr None
        else
          case (case src of VString v \<Rightarrow> Some v | VBytes v \<Rightarrow> Some (string_of_bytes v) | _ \<Rightarrow> None) of
            None \<Rightarrow> Inl (Errorf ''hsql: cannot scan into an array'')
          | Some s \<Rightarrow>
              (case parseArrayElements s of
                 Inl e \<Rightarrow> Inl e
               | Inr elems \<Rightarrow> map_sum id Some (scan_elements lib k elems)))"

end
