(* ===== verification/ResultSets.thy ===== *)
theory ResultSets
  imports LobFetch ArrayText
begin

unbundle bit_operations_syntax

text \<open>
  Direct execution and result sets: \<^verbatim>\<open>conn_query.go\<close>, \<^verbatim>\<open>result_exec.go\<close> and \<^verbatim>\<open>rows.go\<close>.  A \<open>rows\<close> value
  works on the connection it was made by, which is passed and returned beside it.
\<close>

section \<open>Update counts and generated keys\<close>

record exec_result =
  rowsAffected :: i64
  lastInsertID :: i64
  hasLastID :: bool

definition resultFromResponse :: "response \<Rightarrow> exec_result" where
  "resultFromResponse res =
     (let r = \<lparr>rowsAffected = 0, lastInsertID = 0, hasLastID = False\<rparr>;
          r = (if Mode res = ModeUpdateCount then r\<lparr>rowsAffected := scast (UpdateCount res)\<rparr> else r)
      in case GeneratedKey res of
           Some key \<Rightarrow> r\<lparr>lastInsertID := key, hasLastID := True\<rparr>
         | None \<Rightarrow> r)"

definition LastInsertId :: "exec_result \<Rightarrow> i64 go_result" where
  "LastInsertId r =
     (if hasLastID r then Inr (lastInsertID r)
      else Inl (Errorf ''hsql: LastInsertId is not supported; query IDENTITY() or use a RETURNING clause''))"

definition RowsAffected :: "exec_result \<Rightarrow> i64 go_result" where
  "RowsAffected r = Inr (rowsAffected r)"

definition ExecContext :: "text_lib \<Rightarrow> 'p server \<Rightarrow> ctx \<Rightarrow> string \<Rightarrow> gval list \<Rightarrow> ('p, exec_result) conn_op" where
  "ExecContext lib srv ctx query args c =
     (if args \<noteq> [] then Some (Inl ErrSkip, c)
      else if conn_closed c \<or> broken c then Some (Inl ErrBadConn, c)
      else andThen (execCtx (FormatV lib) srv ctx ((newExecDirect c query)\<lparr>GenerateKeys := ReturnGeneratedKeys\<rparr>))
        (\<lambda>res. ok (resultFromResponse res)) c)"

section \<open>The state of a result set\<close>

record rows =
  rows_meta :: "metadata option"
  resultID :: i64
  total :: i32
  block :: "gval list list"
  blockPos :: nat
  absPos :: i32
  rows_done :: bool
  next_results :: "message list"

definition isRowsResult :: "'a message_scheme \<Rightarrow> bool" where
  "isRowsResult res \<longleftrightarrow> Mode res \<in> {ModeData, ModeDataHead, ModeGenerated} \<and> Meta res \<noteq> None \<and> RowSet res \<noteq> None"

definition loadResult :: "'a message_scheme \<Rightarrow> rows \<Rightarrow> rows" where
  "loadResult res r =
     (let r = r\<lparr>rows_meta := Meta res, resultID := 0, total := 0, block := [], blockPos := 0, absPos := 0,
            rows_done := False\<rparr>;
          r = (case RowSet res of
              None \<Rightarrow> r
            | Some rs \<Rightarrow> r\<lparr>resultID := SetID rs, total := SetSize rs, block := Rows rs\<rparr>)
      in if Meta res = None then r\<lparr>rows_done := True\<rparr> else r)"

definition empty_rows :: rows where
  "empty_rows = \<lparr>rows_meta = None, resultID = 0, total = 0, block = [], blockPos = 0, absPos = 0,
     rows_done = False, next_results = []\<rparr>"

definition newRows :: "'a message_scheme \<Rightarrow> message list \<Rightarrow> rows" where
  "newRows res chained =
     (loadResult res empty_rows)\<lparr>next_results := filter isRowsResult chained\<rparr>"

text \<open>
  The result sets of a CALL_RESPONSE are its chained ones; a chained message has none of its own.
\<close>

definition rowsFromResponse :: "response \<Rightarrow> rows" where
  "rowsFromResponse res =
     (if Mode res = ModeCallResponse then
        (case dropWhile (\<lambda>m. \<not> isRowsResult m) (Chained res) of
           [] \<Rightarrow> empty_rows\<lparr>rows_done := True\<rparr>
         | chained # later \<Rightarrow>
             let r = newRows chained []
             in r\<lparr>next_results := next_results r @ filter isRowsResult later\<rparr>)
      else if isRowsResult res then newRows res (Chained res)
      else empty_rows\<lparr>rows_done := True\<rparr>)"

definition QueryContext :: "text_lib \<Rightarrow> 'p server \<Rightarrow> ctx \<Rightarrow> string \<Rightarrow> gval list \<Rightarrow> ('p, rows) conn_op" where
  "QueryContext lib srv ctx query args c =
     (if args \<noteq> [] then Some (Inl ErrSkip, c)
      else if conn_closed c \<or> broken c then Some (Inl ErrBadConn, c)
      else andThen (execCtx (FormatV lib) srv ctx (newExecDirect c query))
        (\<lambda>res. ok (rowsFromResponse res)) c)"

definition column_labels :: "metadata option \<Rightarrow> string list" where
  "column_labels meta = (case meta of None \<Rightarrow> [] | Some m \<Rightarrow> map Label (Columns m))"

section \<open>Resolving values\<close>

text \<open>
  \<^verbatim>\<open>resolveValue\<close> replaces the LOB references among the elements of an ARRAY in place: the results are
  the value, the cell as it is left behind, and the connection.
\<close>

fun resolve_elems :: "'p server \<Rightarrow> gval list \<Rightarrow> 'p conn \<Rightarrow> (go_error option \<times> gval list \<times> 'p conn) option" where
  "resolve_elems srv [] c = Some (None, [], c)"
| "resolve_elems srv (v # vs) c =
     (case v of
        VLobRef i isClob \<Rightarrow>
          do { (res, c) \<leftarrow> fetchLob srv i isClob c;
               case res of
                 Inl e \<Rightarrow> Some (Some e, v # vs, c)
               | Inr x \<Rightarrow> do { (err, vs, c) \<leftarrow> resolve_elems srv vs c; Some (err, x # vs, c) } }
      | _ \<Rightarrow> do { (err, vs, c) \<leftarrow> resolve_elems srv vs c; Some (err, v # vs, c) })"

definition resolveValue :: "text_lib \<Rightarrow> 'p server \<Rightarrow> gval \<Rightarrow> 'p conn \<Rightarrow> (gval go_result \<times> gval \<times> 'p conn) option" where
  "resolveValue lib srv v c = (case v of
      VLobRef i isClob \<Rightarrow> do { (res, c) \<leftarrow> fetchLob srv i isClob c; Some (res, v, c) }
    | VArrayValue vs base \<Rightarrow>
        do { (err, vs, c) \<leftarrow> resolve_elems srv vs c;
             Some (case err of Some e \<Rightarrow> Inl e | None \<Rightarrow> Inr (VString (encodeArrayText lib vs)),
                   VArrayValue vs base, c) }
    | _ \<Rightarrow> Some (Inr v, v, c))"

text \<open>
  The loop over the first \<open>k\<close> columns of a row: the values, or the first error, and the row as it is left;
  \<open>None\<close> is an index out of range.
\<close>

fun resolve_cells :: "text_lib \<Rightarrow> 'p server \<Rightarrow> nat \<Rightarrow> gval list \<Rightarrow> 'p conn \<Rightarrow>
    (gval list go_result \<times> gval list \<times> 'p conn) option" where
  "resolve_cells lib srv 0 row c = Some (Inr [], row, c)"
| "resolve_cells lib srv (Suc k) [] c = None"
| "resolve_cells lib srv (Suc k) (v # row) c =
     do { (res, v, c) \<leftarrow> resolveValue lib srv v c;
          case res of
            Inl e \<Rightarrow> Some (Inl e, v # row, c)
          | Inr x \<Rightarrow>
              do { (res, row, c) \<leftarrow> resolve_cells lib srv k row c;
                   Some (map_sum id ((#) x) res, v # row, c) } }"

section \<open>Iteration\<close>

definition request_data :: "rows \<Rightarrow> 'p conn \<Rightarrow> message" where
  "request_data r c = (NewResult ModeRequestData)\<lparr>ID := resultID r, UpdateCount := absPos r,
     FetchSize := word_of_int (cfgFetchSize (cfg c))\<rparr>"

definition fetchMore :: "text_lib \<Rightarrow> 'p server \<Rightarrow> rows \<Rightarrow> 'p conn \<Rightarrow> (go_error option \<times> rows \<times> 'p conn) option" where
  "fetchMore lib srv r c =
     (if total r <=s absPos r then Some (None, r\<lparr>rows_done := True\<rparr>, c)
      else
        do { (res, c) \<leftarrow> exec (FormatV lib) srv (request_data r c) c;
             Some (case res of
                 Inl e \<Rightarrow> (Some e, r, c)
               | Inr res \<Rightarrow>
                   (case RowSet res of
                      None \<Rightarrow> (None, r\<lparr>rows_done := True\<rparr>, c)
                    | Some rs \<Rightarrow>
                        if Rows rs = [] then (None, r\<lparr>rows_done := True\<rparr>, c)
                        else (None, r\<lparr>block := Rows rs, blockPos := 0,
                          rows_meta := (if Meta res = None then rows_meta r else Meta res)\<rparr>, c))) })"

text \<open>The end of \<^verbatim>\<open>Next\<close>: the row at \<open>blockPos\<close> is consumed and copied to the first \<open>n\<close> destinations.\<close>

definition deliver :: "text_lib \<Rightarrow> 'p server \<Rightarrow> nat \<Rightarrow> rows \<Rightarrow> 'p conn \<Rightarrow> (gval list go_result \<times> rows \<times> 'p conn) option" where
  "deliver lib srv n r c =
     do { m \<leftarrow> rows_meta r;
          (res, _, c) \<leftarrow> resolve_cells lib srv (min n (length (Columns m))) (block r ! blockPos r) c;
          Some (res, r\<lparr>blockPos := blockPos r + 1, absPos := absPos r + 1\<rparr>, c) }"

definition Next :: "text_lib \<Rightarrow> 'p server \<Rightarrow> nat \<Rightarrow> rows \<Rightarrow> 'p conn \<Rightarrow> (gval list go_result \<times> rows \<times> 'p conn) option" where
  "Next lib srv n r c =
     (if rows_done r then Some (Inl EOF, r, c)
      else if length (block r) \<le> blockPos r then
        do { (err, r, c) \<leftarrow> fetchMore lib srv r c;
             case err of
               Some e \<Rightarrow> Some (Inl e, r, c)
             | None \<Rightarrow>
                 if rows_done r \<or> length (block r) \<le> blockPos r
                 then Some (Inl EOF, r\<lparr>rows_done := True\<rparr>, c)
                 else deliver lib srv n r c }
      else deliver lib srv n r c)"

section \<open>Closing and further result sets\<close>

definition close_request :: "i64 \<Rightarrow> message" where
  "close_request i = (NewResult ModeCloseResult)\<lparr>ID := i\<rparr>"

definition closeCurrent :: "text_lib \<Rightarrow> 'p server \<Rightarrow> rows \<Rightarrow> ('p, unit) conn_op" where
  "closeCurrent lib srv r c =
     (if conn_closed c \<or> resultID r = 0 then Some (Inr (), c)
      else if total r <=s absPos r then Some (Inr (), c)
      else andThen (exec (FormatV lib) srv (close_request (resultID r))) (\<lambda>_. ok ()) c)"

definition CloseRows :: "text_lib \<Rightarrow> 'p server \<Rightarrow> rows \<Rightarrow> 'p conn \<Rightarrow> (unit go_result \<times> rows \<times> 'p conn) option" where
  "CloseRows lib srv r c =
     (let r = r\<lparr>rows_done := True, next_results := []\<rparr> in
      do { (res, c) \<leftarrow> closeCurrent lib srv r c; Some (res, r, c) })"

definition HasNextResultSet :: "rows \<Rightarrow> bool" where
  "HasNextResultSet r \<longleftrightarrow> 0 < length (next_results r)"

definition NextResultSet :: "text_lib \<Rightarrow> 'p server \<Rightarrow> rows \<Rightarrow> 'p conn \<Rightarrow> (unit go_result \<times> rows \<times> 'p conn) option" where
  "NextResultSet lib srv r c =
     (case next_results r of
        [] \<Rightarrow> Some (Inl EOF, r, c)
      | nxt # later \<Rightarrow>
          do { (res, c) \<leftarrow> closeCurrent lib srv r c;
               Some (case res of
                   Inl e \<Rightarrow> (Inl e, r, c)
                 | Inr _ \<Rightarrow> (Inr (), loadResult nxt (r\<lparr>next_results := later\<rparr>), c)) })"

end
