(* ===== verification/Statements.thy ===== *)
theory Statements
  imports ResultSets
begin

unbundle bit_operations_syntax

text \<open>
  Prepared statements (\<^verbatim>\<open>stmt.go\<close>), OUT and INOUT parameters of procedure calls (\<^verbatim>\<open>callable.go\<close>) and
  batches (\<^verbatim>\<open>batch.go\<close>).
\<close>

section \<open>Destinations of OUT parameters\<close>

text \<open>
  What a \<^verbatim>\<open>Dest\<close> pointer points to: its type as \<^verbatim>\<open>assignOutValue\<close> tells it apart, the name of that type and
  the value.  The store maps pointers to cells.
\<close>

datatype dest_type = DestScanner | DestAny | DestTime | DestBytes | DestKind elem_kind | DestOther

record out_cell =
  cell_type :: dest_type
  type_name :: string
  cell_val :: elem_val

type_synonym store = "nat \<Rightarrow> out_cell"

text \<open>\<^verbatim>\<open>reflect.ValueOf(dest).Elem().Interface()\<close>: a type that the driver does not know is \<open>VOther\<close>.\<close>

definition interface_of :: "out_cell \<Rightarrow> gval" where
  "interface_of cell = (case (cell_type cell, cell_val cell) of
      (DestAny, DInterface v) \<Rightarrow> v
    | (DestTime, DTime t) \<Rightarrow> VTime t
    | (DestBytes, DBytes b) \<Rightarrow> VBytes b
    | (DestKind k, v) \<Rightarrow>
        if type_name cell = ''string'' then (case v of DString s \<Rightarrow> VString s | _ \<Rightarrow> VOther [])
        else if type_name cell = ''int'' then (case v of DInt n \<Rightarrow> VGoInt (word_of_int n) | _ \<Rightarrow> VOther [])
        else if type_name cell = ''int64'' then (case v of DInt n \<Rightarrow> VInt64 (word_of_int n) | _ \<Rightarrow> VOther [])
        else if type_name cell = ''int32'' then (case v of DInt n \<Rightarrow> VInt32 (word_of_int n) | _ \<Rightarrow> VOther [])
        else if type_name cell = ''float64'' then (case v of DFloat64 x \<Rightarrow> VFloat64 x | _ \<Rightarrow> VOther [])
        else if type_name cell = ''float32'' then (case v of DFloat32 x \<Rightarrow> VFloat32 x | _ \<Rightarrow> VOther [])
        else if type_name cell = ''bool'' then (case v of DBool b \<Rightarrow> VBool b | _ \<Rightarrow> VOther [])
        else VOther (type_name cell)
    | _ \<Rightarrow> VOther (type_name cell))"

text \<open>\<^verbatim>\<open>checkOutValue\<close>, with the pointer it found to be one.\<close>

definition checkOutValue :: "out_dest \<Rightarrow> nat go_result" where
  "checkOutValue d = (case d of
      DestNil \<Rightarrow> Inl (Errorf ''hsql: sql.Out destination must not be nil'')
    | DestNotPointer \<Rightarrow> Inl (Errorf ''hsql: sql.Out destination must be a non-nil pointer'')
    | DestNilPtr _ \<Rightarrow> Inl (Errorf ''hsql: sql.Out destination must be a non-nil pointer'')
    | DestPtr p \<Rightarrow> Inr p)"

definition checkOutInputValue :: "gval \<Rightarrow> go_error option" where
  "checkOutInputValue v =
     (let bad = Some (Errorf ''unsupported input value type'') in
      case v of
        VNil \<Rightarrow> None | VBool _ \<Rightarrow> None | VString _ \<Rightarrow> None | VBytes _ \<Rightarrow> None | VTime _ \<Rightarrow> None
      | VGoInt _ \<Rightarrow> None | VInt32 _ \<Rightarrow> None | VInt64 _ \<Rightarrow> None | VFloat32 _ \<Rightarrow> None | VFloat64 _ \<Rightarrow> None
      | VOther t \<Rightarrow> if t = ''int8'' \<or> t = ''int16'' then None else bad
      | _ \<Rightarrow> bad)"

text \<open>
  \<^verbatim>\<open>splitOutParams\<close>: the values to send, and the positions of the OUT parameters with their pointers.
\<close>

fun split_outs :: "store \<Rightarrow> nat \<Rightarrow> gval list \<Rightarrow> (gval list \<times> (nat \<times> nat) list) go_result" where
  "split_outs st i [] = Inr ([], [])"
| "split_outs st i (v # vs) =
     (case v of
        VOut d inout \<Rightarrow>
          (case checkOutValue d of
             Inl e \<Rightarrow> Inl e
           | Inr p \<Rightarrow>
               (let input = interface_of (st p) in
                case (if inout then checkOutInputValue input else None) of
                  Some e \<Rightarrow> Inl (Wrapf ''hsql: INOUT parameter'' e)
                | None \<Rightarrow> map_sum id (map_prod ((#) (if inout then input else VNil)) ((#) (i, p)))
                    (split_outs st (Suc i) vs)))
      | _ \<Rightarrow> map_sum id (map_prod ((#) v) id) (split_outs st (Suc i) vs))"

definition splitOutParams :: "store \<Rightarrow> gval list \<Rightarrow> (gval list \<times> (nat \<times> nat) list) go_result" where
  "splitOutParams st values = split_outs st 0 values"

definition asOutInt64 :: "gval \<Rightarrow> i64 go_result" where
  "asOutInt64 v = (case v of
      VInt64 x \<Rightarrow> Inr x
    | VFloat64 x \<Rightarrow> Inr (int64_of_float64 x)
    | VBool x \<Rightarrow> Inr (if x then 1 else 0)
    | _ \<Rightarrow> Inl (Errorf ''cannot convert to integer''))"

text \<open>
  \<^verbatim>\<open>assignOutValue\<close>, the new value of the cell.  \<open>scan\<close> is the user's \<^verbatim>\<open>Scan\<close> method of a \<^verbatim>\<open>sql.Scanner\<close>: its
  error and what it leaves in the destination.
\<close>

definition assign_kind :: "text_lib \<Rightarrow> elem_kind \<Rightarrow> gval \<Rightarrow> elem_val go_result" where
  "assign_kind lib k v =
     (let bad = Inl (Errorf ''cannot assign'') in
      case k of
        KString \<Rightarrow> Inr (DString (case v of VString x \<Rightarrow> x | VBytes x \<Rightarrow> string_of_bytes x | _ \<Rightarrow> Sprint (FormatV lib) v))
      | KInt w \<Rightarrow>
          (case asOutInt64 v of
             Inl e \<Rightarrow> Inl e
           | Inr n \<Rightarrow> if signed_take_bit (w - 1) (sint n) \<noteq> sint n then Inl (Errorf ''value overflows'')
                      else Inr (DInt (sint n)))
      | KUint w \<Rightarrow>
          (case asOutInt64 v of
             Inl e \<Rightarrow> Inl e
           | Inr n \<Rightarrow> if sint n < 0 \<or> take_bit w (sint n) \<noteq> sint n then Inl (Errorf ''value overflows'')
                      else Inr (DUint (sint n)))
      | KFloat64 \<Rightarrow>
          (case v of VFloat64 x \<Rightarrow> Inr (DFloat64 x) | VInt64 x \<Rightarrow> Inr (DFloat64 (float64_of_int64 x)) | _ \<Rightarrow> bad)
      | KFloat32 \<Rightarrow>
          (case v of
             VFloat64 x \<Rightarrow> Inr (DFloat32 (float32_of_float64 x))
           | VInt64 x \<Rightarrow> Inr (DFloat32 (float32_of_float64 (float64_of_int64 x)))
           | _ \<Rightarrow> bad)
      | KBool \<Rightarrow> (case v of VBool b \<Rightarrow> Inr (DBool b) | _ \<Rightarrow> bad)
      | _ \<Rightarrow> Inl (Errorf ''unsupported OUT destination type''))"

definition assignOutValue :: "text_lib \<Rightarrow> (gval \<Rightarrow> go_error option \<times> elem_val) \<Rightarrow> out_cell \<Rightarrow> gval \<Rightarrow>
    go_error option \<times> out_cell" where
  "assignOutValue lib scan cell v =
     (let keep = (\<lambda>r. case r of Inl e \<Rightarrow> (Some e, cell) | Inr x \<Rightarrow> (None, cell\<lparr>cell_val := x\<rparr>)) in
      case cell_type cell of
        DestScanner \<Rightarrow> (let (err, x) = scan v in (err, cell\<lparr>cell_val := x\<rparr>))
      | DestAny \<Rightarrow> (None, cell\<lparr>cell_val := DInterface v\<rparr>)
      | DestTime \<Rightarrow> keep (case v of VTime t \<Rightarrow> Inr (DTime t) | _ \<Rightarrow> Inl (Errorf ''cannot assign to *time.Time''))
      | DestBytes \<Rightarrow> keep (case v of
            VNil \<Rightarrow> Inr (DBytes [])
          | VBytes x \<Rightarrow> Inr (DBytes x)
          | VString x \<Rightarrow> Inr (DBytes (bytes_of_string x))
          | _ \<Rightarrow> Inl (Errorf ''cannot assign to *[]byte''))
      | DestKind k \<Rightarrow> keep (if v = VNil then Inr (zero_elem k) else assign_kind lib k v)
      | DestOther \<Rightarrow> keep (if v = VNil then Inr DZero else Inl (Errorf ''unsupported OUT destination type'')))"

text \<open>
  \<^verbatim>\<open>assignOutValue\<close> on any destination: the type switch dereferences a nil \<^verbatim>\<open>*any\<close>, \<^verbatim>\<open>*time.Time\<close> or \<^verbatim>\<open>*[]byte\<close> before anything
  looks whether it is nil, which panics; other nil pointers are found by \<^verbatim>\<open>reflect\<close>.  A nil pointer whose type has a
  \<^verbatim>\<open>Scan\<close> method is left out: what its method does then is the user's code.
\<close>

definition nil_pointer_error :: "nil_target \<Rightarrow> gval \<Rightarrow> go_error option" where
  "nil_pointer_error k v = (case k of
      NilAny \<Rightarrow> None
    | NilTime \<Rightarrow> (case v of VTime _ \<Rightarrow> None | _ \<Rightarrow> Some (Errorf ''cannot assign to *time.Time''))
    | NilBytes \<Rightarrow> (case v of VNil \<Rightarrow> None | VBytes _ \<Rightarrow> None | VString _ \<Rightarrow> None | _ \<Rightarrow> Some (Errorf ''cannot assign to *[]byte''))
    | NilOther \<Rightarrow> Some (Errorf ''destination must be a non-nil pointer''))"

definition assign_dest :: "text_lib \<Rightarrow> (nat \<Rightarrow> gval \<Rightarrow> go_error option \<times> elem_val) \<Rightarrow> out_dest \<Rightarrow> gval \<Rightarrow> store \<Rightarrow>
    (go_error option \<times> store) option" where
  "assign_dest lib scan d v st = (case d of
      DestPtr p \<Rightarrow> (let (err, cell) = assignOutValue lib (scan p) (st p) v in Some (err, st(p := cell)))
    | DestNilPtr k \<Rightarrow> map_option (\<lambda>e. (Some e, st)) (nil_pointer_error k v)
    | _ \<Rightarrow> Some (Some (Errorf ''destination must be a non-nil pointer''), st))"

text \<open>
  The loop of \<^verbatim>\<open>applyOutParams\<close> over the OUT parameters, in the order in which the map is ranged over.
\<close>

fun assign_outs :: "text_lib \<Rightarrow> 'p server \<Rightarrow> (nat \<Rightarrow> gval \<Rightarrow> go_error option \<times> elem_val) \<Rightarrow> gval list \<Rightarrow>
    (nat \<times> nat) list \<Rightarrow> store \<Rightarrow> 'p conn \<Rightarrow> (go_error option \<times> store \<times> 'p conn) option" where
  "assign_outs lib srv scan row [] st c = Some (None, st, c)"
| "assign_outs lib srv scan row ((idx, p) # outs) st c =
     (if length row \<le> idx then Some (Some (Errorf ''hsql: OUT parameter out of range''), st, c)
      else
        do { (res, _, c) \<leftarrow> resolveValue lib srv (row ! idx) c;
             case res of
               Inl e \<Rightarrow> Some (Some e, st, c)
             | Inr v \<Rightarrow>
                 let (err, cell) = assignOutValue lib (scan p) (st p) v; st = st(p := cell) in
                 case err of
                   Some e \<Rightarrow> Some (Some (Wrapf ''hsql: OUT parameter'' e), st, c)
                 | None \<Rightarrow> assign_outs lib srv scan row outs st c })"

definition applyOutParams :: "text_lib \<Rightarrow> 'p server \<Rightarrow> (nat \<Rightarrow> gval \<Rightarrow> go_error option \<times> elem_val) \<Rightarrow> response \<Rightarrow>
    (nat \<times> nat) list \<Rightarrow> store \<Rightarrow> 'p conn \<Rightarrow> (go_error option \<times> store \<times> 'p conn) option" where
  "applyOutParams lib srv scan res outs st c =
     (if outs = [] then Some (None, st, c)
      else if Mode res \<noteq> ModeCallResponse
      then Some (Some (Errorf ''hsql: statement returned no OUT parameter values''), st, c)
      else case RowSet res of
          None \<Rightarrow> Some (Some (Errorf ''hsql: CALL response carried no parameter values''), st, c)
        | Some rs \<Rightarrow>
            (case Rows rs of
               [] \<Rightarrow> Some (Some (Errorf ''hsql: CALL response carried no parameter values''), st, c)
             | row # _ \<Rightarrow> assign_outs lib srv scan row outs st c))"

section \<open>Prepared statements\<close>

record stmt =
  stmt_id :: i64
  stmt_meta :: "metadata option"
  stmt_paramMeta :: "metadata option"
  stmt_closed :: bool

text \<open>A \<^verbatim>\<open>driver.NamedValue\<close> by its ordinal and its value.\<close>

record named_value =
  Ordinal :: int
  NamedVal :: gval

definition prepare_request :: "string \<Rightarrow> message" where
  "prepare_request query = (NewResult ModePrepare)\<lparr>SQL := query, StatementReturnType := StatementReturnAny,
     GenerateKeys := ReturnGeneratedKeys\<rparr>"

definition PrepareContext :: "text_lib \<Rightarrow> 'p server \<Rightarrow> ctx \<Rightarrow> string \<Rightarrow> ('p, stmt) conn_op" where
  "PrepareContext lib srv ctx query c =
     (if conn_closed c then Some (Inl ErrBadConn, c)
      else andThen (execCtx (FormatV lib) srv ctx (prepare_request query)) (\<lambda>res c.
        if Mode res \<noteq> ModePrepareAck then Some (Inl (Errorf ''hsql: unexpected prepare response mode''), c)
        else Some (Inr \<lparr>stmt_id = StatementID res, stmt_meta = Meta res, stmt_paramMeta = ParamMeta res,
          stmt_closed = False\<rparr>, c)) c)"

text \<open>The legacy \<^verbatim>\<open>Prepare\<close> of a connection.\<close>

definition PrepareLegacy :: "text_lib \<Rightarrow> 'p server \<Rightarrow> string \<Rightarrow> ('p, stmt) conn_op" where
  "PrepareLegacy lib srv query = PrepareContext lib srv Background query"

definition NumInput :: "stmt \<Rightarrow> int" where
  "NumInput s = (case stmt_paramMeta s of None \<Rightarrow> 0 | Some m \<Rightarrow> sint (ColumnCount m))"

definition free_request :: "i64 \<Rightarrow> message" where
  "free_request i = (NewResult ModeFreeStmt)\<lparr>StatementID := i\<rparr>"

definition CloseStmt :: "text_lib \<Rightarrow> 'p server \<Rightarrow> stmt \<Rightarrow> 'p conn \<Rightarrow> (unit go_result \<times> stmt \<times> 'p conn) option" where
  "CloseStmt lib srv s c =
     (if stmt_closed s \<or> conn_closed c then Some (Inr (), s, c)
      else
        do { (res, c) \<leftarrow> exec (FormatV lib) srv (free_request (stmt_id s)) c;
             Some (map_sum id (\<lambda>_. ()) res, s\<lparr>stmt_closed := True\<rparr>, c) })"

definition checkNamedValue :: "gval \<Rightarrow> go_error option" where
  "checkNamedValue v = (case v of
      VBlob _ _ \<Rightarrow> None
    | VBlobPtr _ \<Rightarrow> None
    | VClob _ _ \<Rightarrow> None
    | VClobPtr _ \<Rightarrow> None
    | VArray _ \<Rightarrow> None
    | VArrayPtr _ \<Rightarrow> None
    | VOut d _ \<Rightarrow> (case checkOutValue d of Inl e \<Rightarrow> Some e | Inr _ \<Rightarrow> None)
    | _ \<Rightarrow> Some ErrSkip)"

text \<open>The loop of \<^verbatim>\<open>namedToValues\<close>: ordinals outside the slice are dropped.\<close>

definition namedToValues :: "named_value list \<Rightarrow> gval list" where
  "namedToValues args =
     foldl (\<lambda>out a. let idx = Ordinal a - 1 in
              if 0 \<le> idx \<and> idx < int (length out) then out[nat idx := NamedVal a] else out)
       (replicate (length args) VNil) args"

definition valuesToNamed :: "gval list \<Rightarrow> named_value list" where
  "valuesToNamed args = map (\<lambda>(i, v). \<lparr>Ordinal = int i + 1, NamedVal = v\<rparr>) (zip [0..<length args] args)"

definition execute_request :: "stmt \<Rightarrow> 'p conn \<Rightarrow> gval list \<Rightarrow> message" where
  "execute_request s c values = (NewResult ModeExecute)\<lparr>StatementID := stmt_id s,
     StatementReturnType := StatementReturnAny, RSProperties := DefaultRSProperties,
     FetchSize := word_of_int (cfgFetchSize (cfg c)), ParamMeta := stmt_paramMeta s, ParamValues := values\<rparr>"

text \<open>
  \<open>shuffle\<close> is the order in which the map of OUT parameters happens to be ranged over.
\<close>

definition execute :: "text_lib \<Rightarrow> 'p server \<Rightarrow> (nat \<Rightarrow> gval \<Rightarrow> go_error option \<times> elem_val) \<Rightarrow>
    ((nat \<times> nat) list \<Rightarrow> (nat \<times> nat) list) \<Rightarrow> ctx \<Rightarrow> stmt \<Rightarrow> named_value list \<Rightarrow> store \<Rightarrow> 'p conn \<Rightarrow>
    (response go_result \<times> store \<times> 'p conn) option" where
  "execute lib srv scan shuffle ctx s args st c =
     (if conn_closed c \<or> broken c then Some (Inl ErrBadConn, st, c)
      else case splitOutParams st (namedToValues args) of
          Inl e \<Rightarrow> Some (Inl e, st, c)
        | Inr (values, outs) \<Rightarrow>
            do { (res, c) \<leftarrow> execCtx (FormatV lib) srv ctx (execute_request s c values) c;
                 case res of
                   Inl e \<Rightarrow> Some (Inl e, st, c)
                 | Inr res \<Rightarrow>
                     do { (err, st, c) \<leftarrow> applyOutParams lib srv scan res (shuffle outs) st c;
                          Some (case err of Some e \<Rightarrow> Inl e | None \<Rightarrow> Inr res, st, c) } })"

definition ExecStmt :: "text_lib \<Rightarrow> 'p server \<Rightarrow> (nat \<Rightarrow> gval \<Rightarrow> go_error option \<times> elem_val) \<Rightarrow>
    ((nat \<times> nat) list \<Rightarrow> (nat \<times> nat) list) \<Rightarrow> ctx \<Rightarrow> stmt \<Rightarrow> named_value list \<Rightarrow> store \<Rightarrow> 'p conn \<Rightarrow>
    (exec_result go_result \<times> store \<times> 'p conn) option" where
  "ExecStmt lib srv scan shuffle ctx s args st c =
     do { (res, st, c) \<leftarrow> execute lib srv scan shuffle ctx s args st c;
          Some (map_sum id resultFromResponse res, st, c) }"

definition QueryStmt :: "text_lib \<Rightarrow> 'p server \<Rightarrow> (nat \<Rightarrow> gval \<Rightarrow> go_error option \<times> elem_val) \<Rightarrow>
    ((nat \<times> nat) list \<Rightarrow> (nat \<times> nat) list) \<Rightarrow> ctx \<Rightarrow> stmt \<Rightarrow> named_value list \<Rightarrow> store \<Rightarrow> 'p conn \<Rightarrow>
    (rows go_result \<times> store \<times> 'p conn) option" where
  "QueryStmt lib srv scan shuffle ctx s args st c =
     do { (res, st, c) \<leftarrow> execute lib srv scan shuffle ctx s args st c;
          Some (map_sum id rowsFromResponse res, st, c) }"

text \<open>The legacy \<^verbatim>\<open>Exec\<close> and \<^verbatim>\<open>Query\<close>.\<close>

definition ExecLegacy :: "text_lib \<Rightarrow> 'p server \<Rightarrow> (nat \<Rightarrow> gval \<Rightarrow> go_error option \<times> elem_val) \<Rightarrow>
    ((nat \<times> nat) list \<Rightarrow> (nat \<times> nat) list) \<Rightarrow> stmt \<Rightarrow> gval list \<Rightarrow> store \<Rightarrow> 'p conn \<Rightarrow>
    (exec_result go_result \<times> store \<times> 'p conn) option" where
  "ExecLegacy lib srv scan shuffle s args = ExecStmt lib srv scan shuffle Background s (valuesToNamed args)"

definition QueryLegacy :: "text_lib \<Rightarrow> 'p server \<Rightarrow> (nat \<Rightarrow> gval \<Rightarrow> go_error option \<times> elem_val) \<Rightarrow>
    ((nat \<times> nat) list \<Rightarrow> (nat \<times> nat) list) \<Rightarrow> stmt \<Rightarrow> gval list \<Rightarrow> store \<Rightarrow> 'p conn \<Rightarrow>
    (rows go_result \<times> store \<times> 'p conn) option" where
  "QueryLegacy lib srv scan shuffle s args = QueryStmt lib srv scan shuffle Background s (valuesToNamed args)"

section \<open>Batches\<close>

definition batch_count :: "gval list \<Rightarrow> i64 list" where
  "batch_count row = (case row of VInt64 v # _ \<Rightarrow> [v] | VGoInt v # _ \<Rightarrow> [v] | _ \<Rightarrow> [])"

definition batchCounts :: "'a message_scheme \<Rightarrow> i64 list" where
  "batchCounts res = (case RowSet res of None \<Rightarrow> [] | Some rs \<Rightarrow> concat (map batch_count (Rows rs)))"

definition batch_meta :: "i32 \<Rightarrow> column_type list \<Rightarrow> metadata" where
  "batch_meta count types = zero_meta\<lparr>MetaType := MetaSimpleResult, ColumnCount := count, Types := types\<rparr>"

definition batch_direct_request :: "string list \<Rightarrow> message" where
  "batch_direct_request sqls = (NewResult ModeBatchExecDirect)\<lparr>Meta := Some (batch_meta 1 [type_of_code SQLVarchar]),
     BatchRows := map (\<lambda>sql. [VString sql]) sqls\<rparr>"

definition ExecBatch :: "text_lib \<Rightarrow> 'p server \<Rightarrow> ctx \<Rightarrow> string list \<Rightarrow> ('p, i64 list) conn_op" where
  "ExecBatch lib srv ctx sqls c =
     (if conn_closed c \<or> broken c then Some (Inl ErrBadConn, c)
      else andThen (execCtx (FormatV lib) srv ctx (batch_direct_request sqls)) (\<lambda>res. ok (batchCounts res)) c)"

definition batch_execute_request :: "i64 \<Rightarrow> metadata \<Rightarrow> gval list list \<Rightarrow> message" where
  "batch_execute_request i m argRows = (NewResult ModeBatchExecute)\<lparr>StatementID := i,
     Meta := Some (batch_meta (ColumnCount m) (Types m)), BatchRows := argRows\<rparr>"

text \<open>The statement is closed on every path; the error of closing it is dropped.\<close>

definition ExecPreparedBatch :: "text_lib \<Rightarrow> 'p server \<Rightarrow> ctx \<Rightarrow> string \<Rightarrow> gval list list \<Rightarrow> ('p, i64 list) conn_op" where
  "ExecPreparedBatch lib srv ctx query argRows c =
     (if conn_closed c \<or> broken c then Some (Inl ErrBadConn, c)
      else andThen (PrepareContext lib srv ctx query) (\<lambda>s c.
        do { m \<leftarrow> stmt_paramMeta s;
             (res, c) \<leftarrow> execCtx (FormatV lib) srv ctx (batch_execute_request (stmt_id s) m argRows) c;
             (_, _, c) \<leftarrow> CloseStmt lib srv s c;
             Some (map_sum id batchCounts res, c) }) c)"

end
