(* ===== verification/Arguments.thy ===== *)
theory Arguments
  imports LobCreate Statements Dialogue
begin

unbundle bit_operations_syntax

text \<open>
  From the arguments of a prepared statement to what a server finds in the request: binding
  (\<^verbatim>\<open>array_param.go\<close>, \<^verbatim>\<open>lob.go\<close>), encoding (\<^verbatim>\<open>result.go\<close>) and framing put together.
\<close>

section \<open>Making LOB and ARRAY arguments\<close>

text \<open>\<^verbatim>\<open>NewBlob\<close>, \<^verbatim>\<open>NewClob\<close> and \<^verbatim>\<open>NewArray\<close>.\<close>

definition NewBlob :: "go_reader \<Rightarrow> i64 \<Rightarrow> gval" where
  "NewBlob rd n = VBlob (Some rd) n"

definition NewClob :: "go_reader \<Rightarrow> i64 \<Rightarrow> gval" where
  "NewClob rd n = VClob (Some rd) n"

definition NewArray :: "gval list \<Rightarrow> gval" where
  "NewArray vs = VArray vs"

section \<open>The server's reading of an EXECUTE request\<close>

text \<open>
  The fields of the payload in the order in which \<^verbatim>\<open>EncodePayload\<close> writes them: update count, fetch size,
  statement id, properties, timeout, number of rows, and the values by the types of the parameters.  The
  last component tells that the payload is read to its end without an error.
\<close>

definition read_execute :: "column_type list \<Rightarrow> byte list \<Rightarrow> i32 \<times> i64 \<times> byte \<times> i32 \<times> gval list \<times> bool" where
  "read_execute types payload =
     (let (_, r) = ReadInt (NewRowInput payload); (size, r) = ReadInt r; (i, r) = ReadLong r; (props, r) = ReadU8 r;
          (_, r) = ReadShort r; (n, r) = ReadInt r; (cells, r) = read_row types r
      in (size, i, props, n, cells, in_err r = None \<and> in_pos r = length payload))"

section \<open>What is bound\<close>

definition lob_slot :: "column_type \<Rightarrow> gval \<Rightarrow> bool" where
  "lob_slot t v \<longleftrightarrow> v \<noteq> VNil \<and> (Code t = SQLBlob \<or> Code t = SQLClob) \<and> \<not> is_lob_ref v"

definition lob_of :: "column_type \<Rightarrow> gval \<Rightarrow> pending_lob go_result" where
  "lob_of t v = (if Code t = SQLBlob then blobParam v else clobParam v)"

text \<open>An argument of ARRAY type is bound by its elements.\<close>

definition bound_array :: "column_type \<Rightarrow> gval \<Rightarrow> gval" where
  "bound_array t v = (if v \<noteq> VNil \<and> Code t = SQLArray then (case array_param v of Inr x \<Rightarrow> x | Inl _ \<Rightarrow> v) else v)"

text \<open>
  \<open>bound_as f types args cells lobs\<close>: the cells of the row stand for the arguments.  In the place of the
  content of a LOB the cell has the id of one of the \<open>lobs\<close>, which are those of the arguments in their order;
  every other argument is there itself, in the normal form of its type.
\<close>

fun bound_as :: "(gval \<Rightarrow> string) \<Rightarrow> column_type list \<Rightarrow> gval list \<Rightarrow> gval list \<Rightarrow> pending_lob list \<Rightarrow> bool" where
  "bound_as f [] [] [] lobs = (lobs = [])"
| "bound_as f (t # ts) (v # vs) (x # xs) lobs =
     (if lob_slot t v
      then (case lobs of
          [] \<Rightarrow> False
        | lob # lobs \<Rightarrow> lob_of t v = Inr (lob\<lparr>lob_id := 0\<rparr>) \<and> x = VLobRef (lob_id lob) (Code t = SQLClob) \<and>
            bound_as f ts vs xs lobs)
      else x = wire_norm f t (bound_array t v) \<and> bound_as f ts vs xs lobs)"
| "bound_as f _ _ _ _ = False"

section \<open>Binding\<close>

lemma array_params_bound:
  "array_params ts vs = Inr ws \<Longrightarrow> length ts = length vs \<Longrightarrow> ws = map2 bound_array ts vs"
proof (induction ts arbitrary: vs ws)
  case (Cons t ts)
  obtain v vs' where vs: "vs = v # vs'" "length ts = length vs'" using Cons.prems(2) by (cases vs) auto
  obtain ws' where w: "array_params ts vs' = Inr ws'" "ws = bound_array t v # ws'"
    using Cons.prems(1) vs
    by (cases "array_params ts vs'") (auto simp: bound_array_def split: if_splits sum.splits)
  then show ?case using Cons.IH[OF w(1) vs(2)] vs by simp
qed simp

lemma lob_of_zero_id: "lob_of t v = Inr lob \<Longrightarrow> lob_id lob = 0"
  by (auto simp: lob_of_def blobParam_def clobParam_def zero_lob_def split: gval.splits option.splits if_splits)

lemma lob_code: "Code t = SQLBlob \<or> Code t = SQLClob \<Longrightarrow> Code t \<noteq> SQLArray"
  by auto

lemma norm_lob_ref: "Code t = SQLBlob \<or> Code t = SQLClob \<Longrightarrow> wire_norm f t (VLobRef i b) = VLobRef i (Code t = SQLClob)"
  by (auto simp: wire_norm.simps scalar_norm_def)

lemma fits_lob_ref: "Code t = SQLBlob \<or> Code t = SQLClob \<Longrightarrow> wire_fits f t (VLobRef i b)"
  by (auto simp: wire_fits.simps scalar_fits_def)

lemma lob_params_bound:
  assumes "lob_params ts (map2 bound_array ts vs) seq = (Inr (ws, lobs), seq')"
    and "list_all2 (\<lambda>t v. lob_slot t v \<or> wire_fits f t (bound_array t v)) ts vs"
  shows "list_all2 (wire_fits f) ts ws \<and> bound_as f ts vs (map2 (wire_norm f) ts ws) lobs"
  using assms
proof (induction ts arbitrary: vs seq ws lobs)
  case (Cons t ts)
  obtain v vs' where vs: "vs = v # vs'" "list_all2 (\<lambda>t v. lob_slot t v \<or> wire_fits f t (bound_array t v)) ts vs'"
    and fit: "lob_slot t v \<or> wire_fits f t (bound_array t v)"
    using Cons.prems(2) by (cases vs) auto
  show ?case
  proof (cases "lob_slot t v")
    case True
    then have b: "bound_array t v = v" using lob_code by (auto simp: lob_slot_def bound_array_def)
    from True obtain lob where l: "lob_of t v = Inr lob"
      using Cons.prems(1) vs b by (auto simp: lob_slot_def lob_of_def split: sum.splits)
    obtain ws' lobs' where r: "lob_params ts (map2 bound_array ts vs') (seq - 1) = (Inr (ws', lobs'), seq')"
      "ws = VLobRef seq (Code t = SQLClob) # ws'" "lobs = lob\<lparr>lob_id := seq\<rparr> # lobs'"
      using Cons.prems(1) vs b True l
      by (auto simp: lob_slot_def lob_of_def nextLobID_def split: sum.splits prod.splits)
    have "lob\<lparr>lob_id := 0\<rparr> = lob" using lob_of_zero_id[OF l] by (cases lob) simp
    then show ?thesis using Cons.IH[OF r(1) vs(2)] vs r True l norm_lob_ref[of t f] fits_lob_ref[of t f]
      by (auto simp: lob_slot_def)
  next
    case False
    then obtain ws' where r: "lob_params ts (map2 bound_array ts vs') seq = (Inr (ws', lobs), seq')" "ws = bound_array t v # ws'"
      using Cons.prems(1) vs by (auto simp: lob_slot_def bound_array_def split: sum.splits prod.splits if_splits)
    then show ?thesis using Cons.IH[OF r(1) vs(2)] vs False fit by simp
  qed
qed (simp add: bound_as.simps)

section \<open>The payload\<close>

lemma write_cells_fine:
  "write_cells f types row is w = Some (None, w') \<Longrightarrow> i \<in> set is \<Longrightarrow>
    i < length types \<and> value_error f (types ! i) (if i < length row then row ! i else VNil) = None"
proof (induction "is" arbitrary: w)
  case (Cons j "is")
  let ?v = "if j < length row then row ! j else VNil"
  have e: "WriteValue f (types ! j) ?v w =
      (value_error f (types ! j) ?v, w\<lparr>out_buf := out_buf w @ value_bytes f (types ! j) ?v\<rparr>)"
    by (rule emitsD[OF emits_value])
  have "j < length types" using Cons.prems(1) by (auto split: if_splits)
  moreover have "value_error f (types ! j) ?v = None"
    using Cons.prems(1) e by (cases "value_error f (types ! j) ?v") (auto split: if_splits)
  ultimately show ?case using Cons e by (cases "i = j") (auto split: if_splits)
qed simp

lemma execute_payload:
  assumes "EncodePayload f (execute_request s c vs) NewRowOutput = Some (None, w)" "stmt_paramMeta s = Some m"
    and "sint (ColumnCount m) = int (length (Types m))" "length vs = length (Types m)" "list_all2 (wire_fits f) (Types m) vs"
  shows "read_execute (Types m) (out_buf w) = (word_of_int (cfgFetchSize (cfg c)), stmt_id s, DefaultRSProperties, 1,
    map2 (wire_norm f) (Types m) vs, True)"
proof -
  let ?n = "length (Types m)"
  let ?h = "written (WriteInt 0) @ written (WriteInt (word_of_int (cfgFetchSize (cfg c)))) @ written (WriteLong (stmt_id s)) @
    written (WriteU8 DefaultRSProperties) @ written (WriteShort 0) @ written (WriteInt 1)"
  have h: "WriteInt 1 (WriteShort 0 (WriteU8 DefaultRSProperties (WriteLong (stmt_id s)
      (WriteInt (word_of_int (cfgFetchSize (cfg c))) (WriteInt 0 NewRowOutput))))) = \<lparr>out_buf = ?h\<rparr>"
    by (intro row_output_eqI) (simp add: writes NewRowOutput_def)
  have wc: "write_cells f (Types m) vs [0..<?n] \<lparr>out_buf = ?h\<rparr> = Some (None, w)"
    using assms(1-3) unfolding h[symmetric]
    by (simp add: EncodePayload_def execute_request_def writeParams_def NewResult_def)
  have cells: "row_cells ?n vs = vs" by (rule row_cells_all[OF assms(4)])
  have "value_error f (Types m ! i) (vs ! i) = None" if "i < ?n" for i
    using write_cells_fine[OF wc, of i] that assms(4) by simp
  then have ok: "cells_ok f (Types m) (row_cells ?n vs)"
    using assms(4,5) by (auto simp: cells cells_ok_def list_all2_conv_all_nth)
  have w: "out_buf w = ?h @ cells_bytes f (Types m) vs"
    using write_row_bytes[OF ok refl] wc by (auto simp: cells)
  have "read_row (Types m) (reading ?h (cells_bytes f (Types m) vs)) =
      (map2 (wire_norm f) (Types m) vs, reading (?h @ cells_bytes f (Types m) vs) [])"
    using read_row_bytes[OF ok[unfolded cells], of ?h "[]"] by simp
  then show ?thesis
    by (simp add: read_execute_def w reading_New reads Let_def reading_def[of _ "[]"])
qed

section \<open>The transmission\<close>

lemma lobs_written:
  "writeLobs lobs c = (None, c') \<Longrightarrow> werr (net c) = None \<Longrightarrow>
    \<exists>bss. list_all2 (delivers (databaseID c, sessionID c)) lobs bss \<and>
      c' = c\<lparr>net := (net c)\<lparr>pend := pend (net c) @ concat bss\<rparr>\<rparr>"
proof (induction lobs arbitrary: c)
  case (Cons lob lobs)
  obtain n where w: "writeLobCreate (databaseID c, sessionID c) lob (net c) = (None, n)"
    and r: "writeLobs lobs (c\<lparr>net := n\<rparr>) = (None, c')"
    using Cons.prems(1) by (auto simp: Let_def split: prod.splits if_splits)
  obtain bs where bs: "n = (net c)\<lparr>pend := pend (net c) @ bs\<rparr>" "delivers (databaseID c, sessionID c) lob bs"
    using lob_delivered[OF w Cons.prems(2)] by blast
  obtain bss where "list_all2 (delivers (databaseID c, sessionID c)) lobs bss"
    "c' = c\<lparr>net := n\<lparr>pend := pend n @ concat bss\<rparr>\<rparr>"
    using Cons.IH[OF r] Cons.prems(2) bs(1) by auto
  then show ?case using bs by (intro exI[of _ "bs # bss"]) simp
qed simp

lemma transmitted:
  assumes "transmit srv mode lobs c = (None, c')" "pend (net c) = []" "werr (net c) = None"
  shows "\<exists>bss. list_all2 (delivers (databaseID c, sessionID c)) lobs bss \<and>
    sent (net c') = sent (net c) @ frame_bytes mode (out_buf (rowOut c)) @ concat bss @ [ModeNone]"
proof -
  let ?n = "(net c)\<lparr>pend := frame_bytes mode (out_buf (rowOut c))\<rparr>"
  obtain c2 where l: "writeLobs lobs (c\<lparr>net := ?n\<rparr>) = (None, c2)"
    and t: "(let (err, n) = WriteTerminator (net c2); c = c2\<lparr>net := n\<rparr> in
      if err \<noteq> None then (err, c) else let (err, n) = bw_flush srv (net c) in (err, c\<lparr>net := n\<rparr>)) = (None, c')"
    using assms by (auto simp: transmit_def WriteFrame_ok Bytes_def Let_def split: prod.splits if_splits)
  obtain bss where b: "list_all2 (delivers (databaseID c, sessionID c)) lobs bss"
    "c2 = c\<lparr>net := ?n\<lparr>pend := pend ?n @ concat bss\<rparr>\<rparr>"
    using lobs_written[OF l] assms(3) by auto
  have "sent (net c') = sent (net c) @ pend ?n @ concat bss @ [ModeNone]"
    using t b(2) assms(3)
    by (auto simp: WriteTerminator_def bw_write_def bw_flush_def Let_def split: prod.splits sum.splits if_splits)
  then show ?thesis using b(1) by auto
qed

section \<open>The request\<close>

lemma execute_slots:
  assumes "stmt_paramMeta s = Some m" "sint (ColumnCount m) = int (length (Types m))"
  shows "requestParamSlots (execute_request s c vs) = Some (Types m, vs)"
  using assms by (simp add: requestParamSlots_def slice_types_def execute_request_def NewResult_def)

lemma execute_set [simp]: "set_slots ws (execute_request s c vs) = execute_request s c ws"
  by (simp add: set_slots_def execute_request_def NewResult_def)

lemma bound_lobs: "bound_as f ts vs xs lobs \<Longrightarrow> length lobs \<le> length ts"
  by (induction f ts vs xs lobs rule: bound_as.induct) (auto split: if_splits list.splits)

lemma execute_bound:
  assumes "stmt_paramMeta s = Some m" "sint (ColumnCount m) = int (length (Types m))"
    and "list_all2 (\<lambda>t v. lob_slot t v \<or> wire_fits f t (bound_array t v)) (Types m) args"
    and "prepareArrayParams (execute_request s c args) = Some (Inr req1)"
    and "prepareLobParams req1 seq = Some (Inr (req2, lobs), seq')"
  obtains ws where "req2 = execute_request s c ws" "list_all2 (wire_fits f) (Types m) ws"
    "bound_as f (Types m) args (map2 (wire_norm f) (Types m) ws) lobs" "distinct (map lob_id lobs)"
proof -
  have len: "length (Types m) = length args" using assms(3) by (rule list_all2_lengthD)
  have r1: "req1 = execute_request s c (map2 bound_array (Types m) args)"
    using assms(4) array_params_bound[of "Types m" args] len
    by (cases "array_params (Types m) args")
      (auto simp: prepareArrayParams_def execute_slots[OF assms(1,2)] split: if_splits)
  obtain ws where ws: "lob_params (Types m) (map2 bound_array (Types m) args) seq = (Inr (ws, lobs), seq')"
    "req2 = execute_request s c ws"
    using assms(5) unfolding r1
    by (auto simp: prepareLobParams_def execute_slots[OF assms(1,2)] split: if_splits prod.splits sum.splits)
  note b = lob_params_bound[OF ws(1) assms(3)]
  have "sint (ColumnCount m) < 2 ^ 31" using sint_lt[of "ColumnCount m"] by simp
  then have "length lobs \<le> 2 ^ 31" using bound_lobs b assms(2) by fastforce
  then have "inj_on (\<lambda>k. seq - word_of_nat k) {0..<length lobs}"
    by (auto simp: inj_on_def word_of_nat_eq_iff take_bit_nat_eq_self)
  then have "distinct (map lob_id lobs)"
    using lob_params_ids[OF ws(1)] by (simp add: distinct_map)
  then show ?thesis using that ws(2) b by blast
qed

text \<open>C9: what is bound is what arrives.  When an EXECUTE on a live connection leaves it valid, whatever the
  server answered, then what went out is one transmission, a frame whose payload a server reads, to its end,
  as the statement's id and one row in which every argument has its place: arrays with their elements and
  every scalar in the normal form of the parameter's type, and a LOB by an id of its own under which the
  frames that follow rebuild its content.\<close>

theorem arguments_arrive:
  assumes "live c" "ctx_entry ctx (sent (net c)) = None" "execCtx f srv ctx (execute_request s c args) c = Some (res, c')" "IsValid c'"
    and "stmt_paramMeta s = Some m" "sint (ColumnCount m) = int (length (Types m))"
    and "list_all2 (\<lambda>t v. lob_slot t v \<or> wire_fits f t (bound_array t v)) (Types m) args"
  shows "\<exists>payload cells lobs bss.
    sent (net c') = sent (net c) @ frame_bytes ModeExecute payload @ concat bss @ [ModeNone] \<and>
    read_execute (Types m) payload = (word_of_int (cfgFetchSize (cfg c)), stmt_id s, DefaultRSProperties, 1, cells, True) \<and>
    bound_as f (Types m) args cells lobs \<and> distinct (map lob_id lobs) \<and>
    list_all2 (delivers (databaseID c, sessionID c)) lobs bss"
proof -
  have ok: "\<not> unusable c" "pend (net c) = []" "werr (net c) = None"
    using assms(1) by (auto simp: live_def IsValid_def unusable_def in_sync_def)
  obtain r c1 where x: "exchange f srv (execute_request s c args) c = Some (Inr r, c1)" "net c' = net c1"
    using assms(2-4) ok(1) by (auto simp: execCtx_def unusable_def IsValid_def split: bind_splits sum.splits)
  then obtain c2 where sd: "send f srv (execute_request s c args) c = Some (None, c2)" and "receive c2 = Some (Inr r, c1)"
    by (auto elim: exchange_cases)
  then have sent: "sent (net c') = sent (net c2)" using receive_net consumes_sent x(2) by fastforce
  from sd show ?thesis
  proof (cases rule: send_cases)
    case (sent req1 req2 lobs seq w)
    obtain ws where ws: "req2 = execute_request s c ws" "list_all2 (wire_fits f) (Types m) ws"
      "bound_as f (Types m) args (map2 (wire_norm f) (Types m) ws) lobs" "distinct (map lob_id lobs)"
      using execute_bound[OF assms(5-7) sent(1,2)] by blast
    have "length ws = length (Types m)" using ws(2) by (simp add: list_all2_lengthD)
    then have p: "read_execute (Types m) (out_buf w) = (word_of_int (cfgFetchSize (cfg c)), stmt_id s, DefaultRSProperties, 1,
        map2 (wire_norm f) (Types m) ws, True)"
      using execute_payload[OF _ assms(5,6)] sent(3) ws(1,2) by simp
    have "Mode req2 = ModeExecute" by (simp add: ws(1) execute_request_def NewResult_def)
    then obtain bss where "list_all2 (delivers (databaseID c, sessionID c)) lobs bss"
      "sent (net c2) = sent (net c) @ frame_bytes ModeExecute (out_buf w) @ concat bss @ [ModeNone]"
      using transmitted[OF sent(4)] ok(2,3) by auto
    then show ?thesis using p ws(3,4) \<open>sent (net c') = sent (net c2)\<close> by metis
  qed simp_all
qed

section \<open>A concrete request\<close>

definition lob_stmt :: stmt where
  "lob_stmt = \<lparr>stmt_id = 5, stmt_meta = None, stmt_paramMeta = Some (zero_meta\<lparr>MetaType := MetaParam, ColumnCount := 3,
     Types := map type_of_code [SQLInteger, SQLBlob, SQLClob]\<rparr>), stmt_closed = False\<rparr>"
definition lob_args :: "gval list" where
  "lob_args = [VInt64 42, VBytes [1, 2], VString ''a'']"
definition lob_cells :: "gval list" where
  "lob_cells = [VInt64 42, VLobRef (-1) False, VLobRef (-2) True]"
definition lob_pending :: "pending_lob list" where
  "lob_pending = [zero_lob\<lparr>lob_id := -1, lob_bytes := [1, 2]\<rparr>, zero_lob\<lparr>lob_id := -2, lob_isClob := True, lob_chars := [97]\<rparr>]"

lemma lob_prepared:
  "prepareArrayParams (execute_request lob_stmt sample_conn lob_args) = Some (Inr (execute_request lob_stmt sample_conn lob_args))"
  "prepareLobParams (execute_request lob_stmt sample_conn lob_args) (-1) =
     Some (Inr (execute_request lob_stmt sample_conn lob_cells, lob_pending), -3)"
  "fst (the (EncodePayload (\<lambda>_. '''') (execute_request lob_stmt sample_conn lob_cells) NewRowOutput)) = None"
  "EncodePayload (\<lambda>_. '''') (execute_request lob_stmt sample_conn lob_cells) NewRowOutput \<noteq> None"
  by code_simp+

lemma lob_exec:
  obtains res c' where "execCtx (\<lambda>_. '''') count_server Background (execute_request lob_stmt sample_conn lob_args) sample_conn =
      Some (res, c')" "IsValid c'"
proof -
  obtain w where en: "EncodePayload (\<lambda>_. '''') (execute_request lob_stmt sample_conn lob_cells) NewRowOutput = Some (None, w)"
    using lob_prepared(3,4) by (metis option.collapse prod.collapse)
  have w: "werr (idle_net ()) = None" "pend (idle_net ()) = []" "inp (idle_net ()) = []" by (simp_all add: idle_net_def)
  obtain c2 where s: "send (\<lambda>_. '''') count_server (execute_request lob_stmt sample_conn lob_args) sample_conn = Some (None, c2)"
    and i: "inp (net c2) = transmission count_reply @ []" and v: "IsValid c2"
    using lob_prepared(1,2) en w
    by (simp add: send_def sample_conn_def new_conn_def transmit_def WriteFrame_ok lob_pending_def writeLobCreate_def zero_lob_def
      bytes_frame_ok chars_frame_ok WriteTerminator_def bw_write_def bw_flush_def count_server_def Let_def IsValid_def)
  have d: "decodes ((ModeUpdateCount, [0, 0, 0, 1]) # []) ((NewResult ModeUpdateCount)\<lparr>UpdateCount := 1\<rparr> # [])"
    using count_reply_decodes by (simp add: count_reply_def)
  from receive_transmission[OF d i[unfolded count_reply_def]] show ?thesis
    using that s v by (auto simp: execCtx_def exchange_def Background_def IsValid_def)
qed

theorem arguments_arrive_witness:
  "\<exists>res c' payload cells lobs bss.
    execCtx (\<lambda>_. '''') count_server Background (execute_request lob_stmt sample_conn lob_args) sample_conn = Some (res, c') \<and>
    sent (net c') = frame_bytes ModeExecute payload @ concat bss @ [ModeNone] \<and>
    read_execute (map type_of_code [SQLInteger, SQLBlob, SQLClob]) payload = (0, 5, DefaultRSProperties, 1, cells, True) \<and>
    bound_as (\<lambda>_. '''') (map type_of_code [SQLInteger, SQLBlob, SQLClob]) lob_args cells lobs \<and>
    list_all2 (delivers (0, 0)) lobs bss"
proof -
  obtain res c' where x: "execCtx (\<lambda>_. '''') count_server Background (execute_request lob_stmt sample_conn lob_args) sample_conn =
      Some (res, c')" "IsValid c'"
    by (rule lob_exec)
  let ?m = "zero_meta\<lparr>MetaType := MetaParam, ColumnCount := 3, Types := map type_of_code [SQLInteger, SQLBlob, SQLClob]\<rparr>"
  have l: "live sample_conn" by (simp add: sample_conn_def new_conn_def live_def IsValid_def in_sync_def idle_net_def)
  have f: "list_all2 (\<lambda>t v. lob_slot t v \<or> wire_fits (\<lambda>_. '''') t (bound_array t v)) (Types ?m) lob_args"
    by (simp add: lob_args_def lob_slot_def is_lob_ref_def bound_array_def wire_fits.simps scalar_fits_def type_of_code_def)
  have m: "ctx_entry Background (sent (net sample_conn)) = None" "stmt_paramMeta lob_stmt = Some ?m" "sint (ColumnCount ?m) = int (length (Types ?m))"
    by (simp_all add: lob_stmt_def Background_def)
  have z: "stmt_id lob_stmt = 5" "cfgFetchSize (cfg sample_conn) = 0" "databaseID sample_conn = 0" "sessionID sample_conn = 0"
      "sent (net sample_conn) = []" "Types ?m = map type_of_code [SQLInteger, SQLBlob, SQLClob]"
    by (simp_all add: lob_stmt_def sample_conn_def new_conn_def idle_net_def sample_config_def)
  from arguments_arrive[OF l m(1) x m(2,3) f] x(1) show ?thesis unfolding z of_int_0 append_Nil by blast
qed
end
