(* ===== verification/Dsn.thy ===== *)
theory Dsn
  imports Session
begin

text \<open>
  Connection strings (\<^verbatim>\<open>dsn.go\<close>), the registry of TLS configurations (\<^verbatim>\<open>tls_config.go\<close>) and the entry
  points of the driver (\<^verbatim>\<open>hsql.go\<close>).  The parser of URLs, \<^verbatim>\<open>net/url\<close>, is a parameter: its result is a
  record with what the code reads of it.
\<close>

section \<open>The registry of TLS configurations\<close>

text \<open>The registry is a map; configurations are cloned on the way in and out, so they are values here.\<close>

type_synonym tls_registry = "string \<rightharpoonup> tls_config"

definition RegisterTLSConfig :: "string \<Rightarrow> tls_config option \<Rightarrow> tls_registry \<Rightarrow> unit go_result \<times> tls_registry" where
  "RegisterTLSConfig name tls reg =
     (if name = [] then (Inl (Errorf ''hsql: TLS config name is empty''), reg)
      else case tls of
          None \<Rightarrow> (Inl (Errorf ''hsql: TLS config is nil''), reg)
        | Some t \<Rightarrow> (Inr (), reg(name \<mapsto> t)))"

definition DeregisterTLSConfig :: "string \<Rightarrow> tls_registry \<Rightarrow> tls_registry" where
  "DeregisterTLSConfig name reg = reg(name := None)"

definition lookupTLSConfig :: "string \<Rightarrow> tls_registry \<Rightarrow> tls_config option" where
  "lookupTLSConfig name reg = reg name"

section \<open>Connection strings\<close>

text \<open>
  A parsed URL: \<^verbatim>\<open>Scheme\<close>, \<^verbatim>\<open>Hostname()\<close>, \<^verbatim>\<open>Port()\<close>, \<^verbatim>\<open>User\<close> (name and optional password), \<^verbatim>\<open>Path\<close> and the first value
  of each query parameter (\<^verbatim>\<open>Query().Get\<close>, empty when absent).
\<close>

record url =
  Scheme :: string
  Hostname :: string
  Port :: string
  UserInfo :: "(string \<times> string option) option"
  UrlPath :: string
  QueryGet :: "string \<Rightarrow> string"

text \<open>\<^verbatim>\<open>strings.ToLower\<close> of an ASCII text: the scheme of a URL has only letters, digits and \<^verbatim>\<open>+-.\<close>.\<close>

definition lower_char :: "char \<Rightarrow> char" where
  "lower_char c = (if 65 \<le> (of_char c :: nat) \<and> (of_char c :: nat) \<le> 90 then char_of ((of_char c :: nat) + 32) else c)"

definition ToLower :: "string \<Rightarrow> string" where
  "ToLower s = map lower_char s"

definition TrimPrefix :: "string \<Rightarrow> string \<Rightarrow> string" where
  "TrimPrefix s p = (if HasPrefix s p then drop (length p) s else s)"

abbreviation DefaultPort :: int where "DefaultPort \<equiv> 9001"

definition scheme_tls :: "string \<Rightarrow> bool go_result" where
  "scheme_tls scheme =
     (if ToLower scheme = ''hsql'' then Inr False
      else if ToLower scheme = ''hsqls'' then Inr True
      else Inl (Errorf ''hsql: unsupported scheme (want hsql:// or hsqls://)''))"

definition port_number :: "string \<Rightarrow> int go_result" where
  "port_number port =
     (if port = [] then Inr DefaultPort
      else case ParseInt64 port of None \<Rightarrow> Inl (Errorf ''hsql: invalid port'') | Some p \<Rightarrow> Inr p)"

text \<open>The query parameters, applied to the configuration one after the other.\<close>

definition set_zone :: "string \<Rightarrow> config \<Rightarrow> config" where
  "set_zone v cf = (if v \<noteq> [] then cf\<lparr>cfgZone := v\<rparr> else cf)"

definition set_tzoffset :: "string \<Rightarrow> config \<Rightarrow> config go_result" where
  "set_tzoffset v cf =
     (if v = [] then Inr cf
      else case ParseInt64 v of
          None \<Rightarrow> Inl (Errorf ''hsql: invalid tzoffset'')
        | Some n \<Rightarrow> Inr (cf\<lparr>cfgTimeZoneSeconds := n\<rparr>))"

definition set_fetchsize :: "string \<Rightarrow> config \<Rightarrow> config go_result" where
  "set_fetchsize v cf =
     (if v = [] then Inr cf
      else case ParseInt64 v of
          None \<Rightarrow> Inl (Errorf ''hsql: invalid fetchsize'')
        | Some n \<Rightarrow> if n < 0 then Inl (Errorf ''hsql: invalid fetchsize'') else Inr (cf\<lparr>cfgFetchSize := n\<rparr>))"

definition set_tlsconfig :: "tls_registry \<Rightarrow> string \<Rightarrow> config \<Rightarrow> config go_result" where
  "set_tlsconfig reg v cf =
     (if v = [] then Inr cf
      else if \<not> cfgTLS cf then Inl (Errorf ''hsql: tlsconfig requires hsqls://'')
      else case lookupTLSConfig v reg of
          None \<Rightarrow> Inl (Errorf ''hsql: unknown TLS config'')
        | Some t \<Rightarrow> Inr (cf\<lparr>cfgTLSConfigName := v, cfgTLSConfig := Some t\<rparr>))"

definition and_then :: "'a go_result \<Rightarrow> ('a \<Rightarrow> 'b go_result) \<Rightarrow> 'b go_result" where
  "and_then r f = (case r of Inl e \<Rightarrow> Inl e | Inr x \<Rightarrow> f x)"

definition user_of :: "(string \<times> string option) option \<Rightarrow> string \<times> string" where
  "user_of info =
     (let (name, pw) = (case info of None \<Rightarrow> ([], []) | Some (name, None) \<Rightarrow> (name, []) | Some (name, Some pw) \<Rightarrow> (name, pw))
      in (if name = [] then ''SA'' else name, pw))"

definition config_of_url :: "tls_registry \<Rightarrow> url \<Rightarrow> config go_result" where
  "config_of_url reg u =
     and_then (scheme_tls (Scheme u)) (\<lambda>tls.
     and_then (port_number (Port u)) (\<lambda>port.
       let (user, password) = user_of (UserInfo u); db = TrimPrefix (UrlPath u) ''/'' in
       if db = [] then Inl (Errorf ''hsql: DSN missing database alias (e.g. hsql://host/mydb)'')
       else
         let cf = \<lparr>cfgHost = (if Hostname u = [] then ''localhost'' else Hostname u), cfgPort = port,
               cfgUser = user, cfgPassword = password, cfgDatabase = db, cfgTLS = tls, cfgTLSConfig = None,
               cfgTLSConfigName = [], cfgZone = ''UTC'', cfgTimeZoneSeconds = 0, cfgFetchSize = 0\<rparr>;
             cf = set_zone (QueryGet u ''zone'') cf
         in and_then (set_tzoffset (QueryGet u ''tzoffset'') cf) (\<lambda>cf.
            and_then (set_fetchsize (QueryGet u ''fetchsize'') cf) (\<lambda>cf.
              set_tlsconfig reg (QueryGet u ''tlsconfig'') cf))))"

definition ParseDSN :: "(string \<Rightarrow> url go_result) \<Rightarrow> tls_registry \<Rightarrow> string \<Rightarrow> config go_result" where
  "ParseDSN parse_url reg dsn =
     (case parse_url dsn of
        Inl e \<Rightarrow> Inl (Wrapf ''hsql: invalid DSN'' e)
      | Inr u \<Rightarrow> config_of_url reg u)"

section \<open>Opening a connection\<close>

definition Connect :: "(gval \<Rightarrow> string) \<Rightarrow> 'p server \<Rightarrow> 'p dialer \<Rightarrow> config \<Rightarrow> 'p connected option" where
  "Connect fmt_v srv dial cf = connect fmt_v srv dial cf"

definition OpenConnector :: "(string \<Rightarrow> url go_result) \<Rightarrow> tls_registry \<Rightarrow> string \<Rightarrow> config go_result" where
  "OpenConnector parse_url reg dsn = ParseDSN parse_url reg dsn"

definition Open :: "(gval \<Rightarrow> string) \<Rightarrow> 'p server \<Rightarrow> (string \<Rightarrow> url go_result) \<Rightarrow> tls_registry \<Rightarrow> 'p dialer \<Rightarrow>
    string \<Rightarrow> 'p connected option" where
  "Open fmt_v srv parse_url reg dial dsn =
     (case OpenConnector parse_url reg dsn of
        Inl e \<Rightarrow> Some (Inl (e, None))
      | Inr cf \<Rightarrow> Connect fmt_v srv dial cf)"

end
