(* ===== verification/DsnProps.thy ===== *)
theory DsnProps
  imports Dsn ResultSets
begin

unbundle bit_operations_syntax

text \<open>
  Which configurations come out of a connection string, and what becomes of a fetch size on the wire.
\<close>

definition int64_range :: "int \<Rightarrow> bool" where
  "int64_range n \<longleftrightarrow> - (2 ^ 63) \<le> n \<and> n < 2 ^ 63"

lemma int64_range_word: "int64_range n \<longleftrightarrow> (\<exists>x :: i64. n = sint x)"
proof
  assume "int64_range n"
  then have "sint (word_of_int n :: i64) = n"
    by (simp add: int64_range_def signed_of_int signed_take_bit_int_eq_self)
  then show "\<exists>x :: i64. n = sint x" by metis
next
  assume "\<exists>x :: i64. n = sint x"
  then show "int64_range n" using sint_lt[where 'a = 64] sint_ge[where 'a = 64] by (auto simp: int64_range_def)
qed

lemma ParseInt64_text: "int64_range n \<Longrightarrow> ParseInt64 (int_string n) = Some n"
  by (auto simp: int64_range_word ParseInt64_int_string)

lemma int_string_nonempty: "int64_range n \<Longrightarrow> int_string n \<noteq> []"
proof -
  have "ParseInt64 [] = None" by code_simp
  then show "int64_range n \<Longrightarrow> int_string n \<noteq> []" using ParseInt64_text[of n] by auto
qed

text \<open>
  What a connection string says, in the terms of the documentation of \<^verbatim>\<open>ParseDSN\<close> and independently of its
  code: a decimal numeral with an optional sign in the range of int64, a setting with its default, and
  the configuration that a parsed URL stands for.
\<close>

definition numeral_of :: "string \<Rightarrow> int \<Rightarrow> bool" where
  "numeral_of v n \<longleftrightarrow> int64_range n \<and> (\<exists>ds. ds \<noteq> [] \<and> list_all is_digit ds \<and>
     (v \<in> {ds, CHR ''+'' # ds} \<and> n = int (digits_val ds) \<or> v = CHR ''-'' # ds \<and> n = - int (digits_val ds)))"

definition setting :: "string \<Rightarrow> int \<Rightarrow> int \<Rightarrow> bool" where
  "setting v d n \<longleftrightarrow> (if v = [] then n = d else numeral_of v n)"

definition or_default :: "string \<Rightarrow> string \<Rightarrow> string" where
  "or_default v d = (if v = [] then d else v)"

definition dsn_means :: "tls_registry \<Rightarrow> url \<Rightarrow> config \<Rightarrow> bool" where
  "dsn_means reg u cf \<longleftrightarrow>
     ToLower (Scheme u) = (if cfgTLS cf then ''hsqls'' else ''hsql'') \<and>
     cfgHost cf = or_default (Hostname u) ''localhost'' \<and> setting (Port u) 9001 (cfgPort cf) \<and>
     cfgUser cf = or_default (case UserInfo u of None \<Rightarrow> '''' | Some (name, _) \<Rightarrow> name) ''SA'' \<and>
     cfgPassword cf = (case UserInfo u of Some (_, Some pw) \<Rightarrow> pw | _ \<Rightarrow> '''') \<and>
     cfgDatabase cf \<noteq> [] \<and> (UrlPath u = CHR ''/'' # cfgDatabase cf \<or> UrlPath u = cfgDatabase cf \<and> hd (UrlPath u) \<noteq> CHR ''/'') \<and>
     cfgZone cf = or_default (QueryGet u ''zone'') ''UTC'' \<and>
     setting (QueryGet u ''tzoffset'') 0 (cfgTimeZoneSeconds cf) \<and>
     setting (QueryGet u ''fetchsize'') 0 (cfgFetchSize cf) \<and> 0 \<le> cfgFetchSize cf \<and>
     cfgTLSConfigName cf = QueryGet u ''tlsconfig'' \<and>
     (if cfgTLSConfigName cf = [] then cfgTLSConfig cf = None
      else cfgTLS cf \<and> cfgTLSConfig cf \<noteq> None \<and> cfgTLSConfig cf = reg (cfgTLSConfigName cf))"

lemma digits_unsigned: "list_all is_digit ds \<Longrightarrow> ds \<noteq> [] \<Longrightarrow> hd ds \<noteq> CHR ''-'' \<and> hd ds \<noteq> CHR ''+''"
  by (cases ds) (auto simp: is_digit_def)

lemma SetString10_iff:
  "SetString10 v = Some n \<longleftrightarrow> (\<exists>ds. ds \<noteq> [] \<and> list_all is_digit ds \<and>
     (v \<in> {ds, CHR ''+'' # ds} \<and> n = int (digits_val ds) \<or> v = CHR ''-'' # ds \<and> n = - int (digits_val ds)))"
    (is "_ \<longleftrightarrow> ?rhs")
proof
  show "SetString10 v = Some n \<Longrightarrow> ?rhs"
    by (cases v) (auto simp: SetString10_def split: if_splits)
next
  assume ?rhs
  then obtain ds where "ds \<noteq> []" "list_all is_digit ds"
    "v \<in> {ds, CHR ''+'' # ds} \<and> n = int (digits_val ds) \<or> v = CHR ''-'' # ds \<and> n = - int (digits_val ds)" by blast
  then show "SetString10 v = Some n" using digits_unsigned[of ds] by (cases ds) (auto simp: SetString10_def)
qed

lemma ParseInt64_numeral: "ParseInt64 v = Some n \<longleftrightarrow> numeral_of v n"
  unfolding numeral_of_def SetString10_iff[symmetric] by (auto simp: ParseInt64_def int64_range_def split: option.splits)

lemma number_setting: "(if v = [] then Inr d else case ParseInt64 v of None \<Rightarrow> Inl e | Some n \<Rightarrow> Inr n) = Inr n \<longleftrightarrow> setting v d n"
  by (auto simp: setting_def ParseInt64_numeral[symmetric] split: option.splits)

lemma and_then_Inr: "and_then r f = Inr y \<longleftrightarrow> (\<exists>x. r = Inr x \<and> f x = Inr y)"
  by (simp add: and_then_def split: sum.split)

lemma settings:
  "port_number v = Inr n \<longleftrightarrow> setting v 9001 n"
  "set_tzoffset v cf = Inr cf1 \<longleftrightarrow> (\<exists>n. setting v (cfgTimeZoneSeconds cf) n \<and> cf1 = cf\<lparr>cfgTimeZoneSeconds := n\<rparr>)"
  "set_fetchsize v cf = Inr cf1 \<longleftrightarrow>
     (\<exists>n. setting v (cfgFetchSize cf) n \<and> (v = [] \<or> 0 \<le> n) \<and> cf1 = cf\<lparr>cfgFetchSize := n\<rparr>)"
  by (auto simp: port_number_def set_tzoffset_def set_fetchsize_def setting_def ParseInt64_numeral[symmetric]
      split: option.splits if_splits)

lemma tls_setting:
  "set_tlsconfig reg v cf = Inr cf1 \<longleftrightarrow> (if v = [] then cf1 = cf
     else cfgTLS cf \<and> reg v \<noteq> None \<and> cf1 = cf\<lparr>cfgTLSConfigName := v, cfgTLSConfig := reg v\<rparr>)"
  by (auto simp: set_tlsconfig_def lookupTLSConfig_def split: option.splits)

lemma zone_setting: "set_zone v cf = cf\<lparr>cfgZone := or_default v (cfgZone cf)\<rparr>"
  by (simp add: set_zone_def or_default_def)

lemma scheme_setting: "scheme_tls s = Inr tls \<longleftrightarrow> ToLower s = (if tls then ''hsqls'' else ''hsql'')"
  by (auto simp: scheme_tls_def)

lemma user_setting: "user_of info = (or_default (case info of None \<Rightarrow> '''' | Some (name, _) \<Rightarrow> name) ''SA'',
    case info of Some (_, Some pw) \<Rightarrow> pw | _ \<Rightarrow> '''')"
  by (auto simp: user_of_def or_default_def split: option.splits)

lemma path_setting: "db \<noteq> [] \<Longrightarrow>
    TrimPrefix p ''/'' = db \<longleftrightarrow> p = CHR ''/'' # db \<or> p = db \<and> hd p \<noteq> CHR ''/''"
  by (cases p) (auto simp: TrimPrefix_def HasPrefix_def)

lemma parameters:
  "(\<exists>cf1. set_tzoffset v1 cf = Inr cf1 \<and> (\<exists>cf2. set_fetchsize v2 cf1 = Inr cf2 \<and> set_tlsconfig reg v3 cf2 = Inr cf')) \<longleftrightarrow>
    (\<exists>tz fs. setting v1 (cfgTimeZoneSeconds cf) tz \<and> setting v2 (cfgFetchSize cf) fs \<and> (v2 = [] \<or> 0 \<le> fs) \<and>
      set_tlsconfig reg v3 (cf\<lparr>cfgTimeZoneSeconds := tz, cfgFetchSize := fs\<rparr>) = Inr cf')"
  by (fastforce simp: settings)

lemma config_of_url_iff:
  "config_of_url reg u = Inr cf \<longleftrightarrow> (\<exists>tls. scheme_tls (Scheme u) = Inr tls \<and> (\<exists>port. setting (Port u) 9001 port \<and>
    TrimPrefix (UrlPath u) ''/'' \<noteq> [] \<and> (\<exists>tz fs. setting (QueryGet u ''tzoffset'') 0 tz \<and>
      setting (QueryGet u ''fetchsize'') 0 fs \<and> (QueryGet u ''fetchsize'' = [] \<or> 0 \<le> fs) \<and>
      set_tlsconfig reg (QueryGet u ''tlsconfig'') \<lparr>cfgHost = or_default (Hostname u) ''localhost'', cfgPort = port,
        cfgUser = fst (user_of (UserInfo u)), cfgPassword = snd (user_of (UserInfo u)), cfgDatabase = TrimPrefix (UrlPath u) ''/'',
        cfgTLS = tls, cfgTLSConfig = None, cfgTLSConfigName = [], cfgZone = or_default (QueryGet u ''zone'') ''UTC'',
        cfgTimeZoneSeconds = tz, cfgFetchSize = fs\<rparr> = Inr cf)))"
proof -
  obtain user password where up: "user_of (UserInfo u) = (user, password)" by fastforce
  have h: "(if s = [] then d else s) = or_default s d" for s d :: string by (simp add: or_default_def)
  show ?thesis
    by (cases "TrimPrefix (UrlPath u) ''/'' = []")
      (simp_all add: config_of_url_def and_then_Inr settings(1) parameters zone_setting h up Let_def)
qed

lemma config_of_url_means: "config_of_url reg u = Inr cf \<longleftrightarrow> dsn_means reg u cf"
proof
  let ?db = "TrimPrefix (UrlPath u) ''/''" and ?v = "QueryGet u ''tlsconfig''"
  assume "config_of_url reg u = Inr cf"
  then obtain tls port tz fs where st: "scheme_tls (Scheme u) = Inr tls" "setting (Port u) 9001 port" "?db \<noteq> []"
      "setting (QueryGet u ''tzoffset'') 0 tz" "setting (QueryGet u ''fetchsize'') 0 fs" "QueryGet u ''fetchsize'' = [] \<or> 0 \<le> fs"
    and t: "set_tlsconfig reg ?v \<lparr>cfgHost = or_default (Hostname u) ''localhost'', cfgPort = port,
        cfgUser = fst (user_of (UserInfo u)), cfgPassword = snd (user_of (UserInfo u)), cfgDatabase = ?db,
        cfgTLS = tls, cfgTLSConfig = None, cfgTLSConfigName = [], cfgZone = or_default (QueryGet u ''zone'') ''UTC'',
        cfgTimeZoneSeconds = tz, cfgFetchSize = fs\<rparr> = Inr cf"
    unfolding config_of_url_iff by blast
  have "0 \<le> fs" using st(5,6) by (auto simp: setting_def)
  moreover have "cf = \<lparr>cfgHost = or_default (Hostname u) ''localhost'', cfgPort = port,
        cfgUser = fst (user_of (UserInfo u)), cfgPassword = snd (user_of (UserInfo u)), cfgDatabase = ?db,
        cfgTLS = tls, cfgTLSConfig = (if ?v = [] then None else reg ?v), cfgTLSConfigName = ?v,
        cfgZone = or_default (QueryGet u ''zone'') ''UTC'', cfgTimeZoneSeconds = tz, cfgFetchSize = fs\<rparr>"
      "?v \<noteq> [] \<longrightarrow> tls \<and> reg ?v \<noteq> None"
    using t by (simp_all add: tls_setting split: if_split_asm)
  moreover have "UrlPath u = CHR ''/'' # ?db \<or> UrlPath u = ?db \<and> hd (UrlPath u) \<noteq> CHR ''/''"
    using path_setting[OF st(3)] by blast
  ultimately show "dsn_means reg u cf"
    using st by (simp add: dsn_means_def scheme_setting user_setting)
next
  let ?db = "TrimPrefix (UrlPath u) ''/''" and ?v = "QueryGet u ''tlsconfig''"
  assume m: "dsn_means reg u cf"
  have "cfgDatabase cf \<noteq> []" "UrlPath u = CHR ''/'' # cfgDatabase cf \<or> UrlPath u = cfgDatabase cf \<and> hd (UrlPath u) \<noteq> CHR ''/''"
    using m unfolding dsn_means_def by blast+
  then have db: "?db = cfgDatabase cf" "?db \<noteq> []" by (metis path_setting)+
  have "cf = \<lparr>cfgHost = or_default (Hostname u) ''localhost'', cfgPort = cfgPort cf,
        cfgUser = fst (user_of (UserInfo u)), cfgPassword = snd (user_of (UserInfo u)), cfgDatabase = ?db,
        cfgTLS = cfgTLS cf, cfgTLSConfig = (if ?v = [] then None else reg ?v), cfgTLSConfigName = ?v,
        cfgZone = or_default (QueryGet u ''zone'') ''UTC'', cfgTimeZoneSeconds = cfgTimeZoneSeconds cf, cfgFetchSize = cfgFetchSize cf\<rparr>"
    unfolding config.equality db(1) using m by (simp add: dsn_means_def user_setting split: if_split_asm)
  moreover have "?v \<noteq> [] \<longrightarrow> cfgTLS cf \<and> reg ?v \<noteq> None" using m unfolding dsn_means_def by metis
  ultimately have "set_tlsconfig reg ?v \<lparr>cfgHost = or_default (Hostname u) ''localhost'', cfgPort = cfgPort cf,
        cfgUser = fst (user_of (UserInfo u)), cfgPassword = snd (user_of (UserInfo u)), cfgDatabase = ?db,
        cfgTLS = cfgTLS cf, cfgTLSConfig = None, cfgTLSConfigName = [], cfgZone = or_default (QueryGet u ''zone'') ''UTC'',
        cfgTimeZoneSeconds = cfgTimeZoneSeconds cf, cfgFetchSize = cfgFetchSize cf\<rparr> = Inr cf"
    unfolding tls_setting by (cases "?v = []") simp_all
  moreover have "scheme_tls (Scheme u) = Inr (cfgTLS cf)" "setting (Port u) 9001 (cfgPort cf)"
      "setting (QueryGet u ''tzoffset'') 0 (cfgTimeZoneSeconds cf)" "setting (QueryGet u ''fetchsize'') 0 (cfgFetchSize cf)"
      "0 \<le> cfgFetchSize cf"
    using m by (simp_all add: dsn_means_def scheme_setting)
  ultimately show "config_of_url reg u = Inr cf" unfolding config_of_url_iff using db(2) by blast
qed

text \<open>C22: \<^verbatim>\<open>ParseDSN\<close> accepts a string exactly when it parses as a URL that stands for a configuration, and the
  result is that configuration: the scheme, in any case, decides about TLS; the host defaults to
  localhost, the port to 9001, the user to SA, the password to none, the zone to UTC, offset and fetch size to
  0; numbers are decimal int64 numerals and a fetch size is not negative; the database is the path without
  one leading slash and not empty; and a TLS configuration is taken only from the registry and only for
  an encrypted connection.  Everything else is refused.\<close>

theorem ParseDSN_meaning:
  "(ParseDSN parse_url reg dsn = Inr cf) = (\<exists>u. parse_url dsn = Inr u \<and> dsn_means reg u cf)"
  by (simp add: ParseDSN_def config_of_url_means split: sum.split)

text \<open>The URL that \<^verbatim>\<open>net/url\<close> makes of the string below, by its documentation.\<close>

definition sample_url :: url where
  "sample_url = \<lparr>Scheme = ''hsqls'', Hostname = ''db.example'', Port = '''', UserInfo = Some (''app'', Some ''pw''), UrlPath = ''/mydb'',
     QueryGet = (\<lambda>k. if k = ''tzoffset'' then ''-3600'' else if k = ''fetchsize'' then ''100'' else '''')\<rparr>"

theorem ParseDSN_meaning_witness:
  "ParseDSN (\<lambda>_. Inr sample_url) (\<lambda>_. None) ''hsqls://app:pw@db.example/mydb?tzoffset=-3600&fetchsize=100'' =
     Inr \<lparr>cfgHost = ''db.example'', cfgPort = 9001, cfgUser = ''app'', cfgPassword = ''pw'', cfgDatabase = ''mydb'',
       cfgTLS = True, cfgTLSConfig = None, cfgTLSConfigName = [], cfgZone = ''UTC'', cfgTimeZoneSeconds = -3600, cfgFetchSize = 100\<rparr>"
proof -
  have "ParseInt64 ''-3600'' = Some (-3600)" "ParseInt64 ''100'' = Some 100" "ToLower ''hsqls'' = ''hsqls''" by code_simp+
  then show ?thesis
    unfolding ParseDSN_meaning
    by (simp add: dsn_means_def sample_url_def or_default_def setting_def ParseInt64_numeral)
qed

text \<open>C29: a fetch size is accepted up to the largest int, but travels as an int32: it reaches the server as it
  was given only below 2^31; the next one arrives as a negative number, and 2^32 as 0, the server's default.\<close>

theorem fetchsize_truncated:
  assumes "0 \<le> n" "n < 2 ^ 63"
  shows "\<exists>cf'. set_fetchsize (int_string n) cf = Inr cf' \<and>
    (\<forall>r c. cfg c = cf' \<longrightarrow> (sint (FetchSize (request_data r c)) = n \<longleftrightarrow> n < 2 ^ 31) \<and>
      sint (FetchSize (request_data r c)) = signed_take_bit 31 n)"
proof -
  have r: "int64_range n" using assms by (simp add: int64_range_def)
  have "set_fetchsize (int_string n) cf = Inr (cf\<lparr>cfgFetchSize := n\<rparr>)"
    using assms ParseInt64_text[OF r] int_string_nonempty[OF r] by (simp add: set_fetchsize_def)
  moreover have "signed_take_bit 31 n = n \<longleftrightarrow> n < 2 ^ 31"
    using assms signed_take_bit_int_less_exp[of 31 n] by (auto simp: signed_take_bit_int_eq_self)
  ultimately show ?thesis by (auto simp: request_data_def signed_of_int)
qed

theorem fetchsize_truncated_witness:
  "\<exists>cf'. set_fetchsize (int_string (2 ^ 32)) (cfg sample_conn) = Inr cf' \<and>
    (\<forall>r c. cfg (c :: unit conn) = cf' \<longrightarrow> sint (FetchSize (request_data r c)) = 0)"
  using fetchsize_truncated[of "2 ^ 32" "cfg sample_conn"] by (auto simp: signed_take_bit_eq_if_positive)

end
