(* ===== verification/Watch.thy ===== *)
theory Watch
  imports Prelude
begin

text \<open>
  \<^verbatim>\<open>watchCancel\<close> (\<^verbatim>\<open>conn.go\<close>): the goroutine that watches the context of a call, interleaved with the call.  Only
  what the two share is in the state: the channel \<^verbatim>\<open>done\<close>, the deadline of the socket, and the flag \<^verbatim>\<open>broken\<close>.
\<close>

section \<open>The call and its watcher\<close>

datatype deadline = NoDeadline | CtxDeadline | Expired

text \<open>
  The watcher waits in its \<^verbatim>\<open>select\<close>; if it takes the branch of the context, it runs \<^verbatim>\<open>fireCancel\<close>, which has asked
  the server to cancel when it returns (or has failed to), and then expires the deadline.
\<close>

datatype watcher = NotStarted | Selecting | Cancelling | Asked | Exited

text \<open>The call: before \<^verbatim>\<open>watchCancel\<close>, in the exchange, in the deferred \<^verbatim>\<open>stop\<close>, and after it.\<close>

datatype phase = Starting | Exchanging | Stopping | Stopped

record watch =
  cancellable :: bool
  has_deadline :: bool
  fired :: bool
  done_closed :: bool
  socket_deadline :: deadline
  watcher :: watcher
  asked :: bool
  phase :: phase
  call_broken :: bool

text \<open>
  \<open>cancellable\<close>: the context has a \<^verbatim>\<open>Done\<close> channel.  The background context has none: then there is no watcher, no
  deadline, and \<^verbatim>\<open>stop\<close> does nothing.
\<close>

definition watch_init :: "bool \<Rightarrow> bool \<Rightarrow> watch" where
  "watch_init can dl = \<lparr>cancellable = can, has_deadline = dl, fired = False, done_closed = False, socket_deadline = NoDeadline,
     watcher = NotStarted, asked = False, phase = Starting, call_broken = False\<rparr>"

text \<open>
  One action of the call, of the context or of the watcher.  \<^verbatim>\<open>select\<close> takes either branch when both channels
  are ready.
\<close>

inductive watch_step :: "watch \<Rightarrow> watch \<Rightarrow> bool" where
  unwatched: "phase s = Starting \<Longrightarrow> \<not> cancellable s \<Longrightarrow> watch_step s (s\<lparr>phase := Exchanging\<rparr>)"
| start: "phase s = Starting \<Longrightarrow> cancellable s \<Longrightarrow> watch_step s (s\<lparr>phase := Exchanging, watcher := Selecting,
    socket_deadline := (if has_deadline s then CtxDeadline else socket_deadline s)\<rparr>)"
| succeed: "phase s = Exchanging \<Longrightarrow> watch_step s (s\<lparr>phase := Stopping\<rparr>)"
| fail: "phase s = Exchanging \<Longrightarrow> watch_step s (s\<lparr>phase := Stopping, call_broken := True\<rparr>)"
| stop_nothing: "phase s = Stopping \<Longrightarrow> \<not> cancellable s \<Longrightarrow> watch_step s (s\<lparr>phase := Stopped\<rparr>)"
| close_done: "phase s = Stopping \<Longrightarrow> cancellable s \<Longrightarrow> \<not> done_closed s \<Longrightarrow> watch_step s (s\<lparr>done_closed := True\<rparr>)"
| clear: "phase s = Stopping \<Longrightarrow> done_closed s \<Longrightarrow> watch_step s (s\<lparr>phase := Stopped,
    socket_deadline := (if call_broken s then socket_deadline s else NoDeadline)\<rparr>)"
| fires: "cancellable s \<Longrightarrow> \<not> fired s \<Longrightarrow> watch_step s (s\<lparr>fired := True\<rparr>)"
| sees_ctx: "watcher s = Selecting \<Longrightarrow> fired s \<Longrightarrow> watch_step s (s\<lparr>watcher := Cancelling\<rparr>)"
| sees_done: "watcher s = Selecting \<Longrightarrow> done_closed s \<Longrightarrow> watch_step s (s\<lparr>watcher := Exited\<rparr>)"
| asks: "watcher s = Cancelling \<Longrightarrow> watch_step s (s\<lparr>watcher := Asked, asked := True\<rparr>)"
| expires: "watcher s = Asked \<Longrightarrow> watch_step s (s\<lparr>watcher := Exited, socket_deadline := Expired\<rparr>)"

inductive_cases watch_stepE: "watch_step s s'"

definition watch_reach :: "bool \<Rightarrow> bool \<Rightarrow> watch \<Rightarrow> bool" where
  "watch_reach can dl s \<longleftrightarrow> watch_step\<^sup>*\<^sup>* (watch_init can dl) s"

section \<open>The invariant\<close>

definition watch_inv :: "watch \<Rightarrow> bool" where
  "watch_inv s \<longleftrightarrow> (watcher s = NotStarted \<longleftrightarrow> phase s = Starting \<or> \<not> cancellable s) \<and>
     (\<not> cancellable s \<longrightarrow> \<not> fired s \<and> \<not> done_closed s \<and> socket_deadline s = NoDeadline) \<and>
     (phase s = Stopped \<longrightarrow> done_closed s \<or> \<not> cancellable s) \<and>
     (done_closed s \<longrightarrow> phase s = Stopping \<or> phase s = Stopped) \<and>
     (call_broken s \<longrightarrow> phase s = Stopping \<or> phase s = Stopped) \<and>
     (watcher s = Cancelling \<or> watcher s = Asked \<or> asked s \<longrightarrow> fired s) \<and>
     (watcher s = Asked \<longrightarrow> asked s) \<and> (socket_deadline s = Expired \<longrightarrow> asked s) \<and>
     (phase s = Stopped \<and> \<not> call_broken s \<longrightarrow> socket_deadline s \<noteq> CtxDeadline)"

lemma watch_inv_init: "watch_inv (watch_init can dl)"
  by (simp add: watch_inv_def watch_init_def)

lemma watch_inv_step: "watch_step s s' \<Longrightarrow> watch_inv s \<Longrightarrow> watch_inv s'"
  by (induction rule: watch_step.induct) (auto simp: watch_inv_def)

lemma watch_inv_reach: "watch_reach can dl s \<Longrightarrow> watch_inv s"
  unfolding watch_reach_def by (induction rule: rtranclp_induct) (auto simp: watch_inv_init intro: watch_inv_step)

text \<open>C24: when a call that did not break the connection is over and its watcher, if it had one, is gone, the
  socket has no deadline, unless the watcher took the branch of the context: then the context was done, the server was
  asked to cancel, and a deadline that has passed may be left on the socket.\<close>

theorem watched_call_outcome:
  assumes "watch_reach can dl s" "phase s = Stopped" "watcher s \<in> {Exited, NotStarted}" "\<not> call_broken s"
  shows "socket_deadline s = NoDeadline \<or> (fired s \<and> asked s \<and> socket_deadline s = Expired)"
  using watch_inv_reach[OF assms(1)] assms(2-4) by (cases "socket_deadline s") (auto simp: watch_inv_def)

section \<open>The watcher goes away\<close>

text \<open>How many actions are left at most.\<close>

definition watch_rank :: "watch \<Rightarrow> nat" where
  "watch_rank s =
     (case phase s of Starting \<Rightarrow> 7 | Exchanging \<Rightarrow> 3 | Stopping \<Rightarrow> (if done_closed s then 1 else 2) | Stopped \<Rightarrow> 0) +
     (case watcher s of NotStarted \<Rightarrow> 0 | Selecting \<Rightarrow> 3 | Cancelling \<Rightarrow> 2 | Asked \<Rightarrow> 1 | Exited \<Rightarrow> 0) +
     (if fired s then 0 else 1)"

lemma watch_rank_step: "watch_step s s' \<Longrightarrow> watch_inv s \<Longrightarrow> watch_rank s' < watch_rank s"
  by (induction rule: watch_step.induct) (auto simp: watch_inv_def watch_rank_def)

lemma watch_path: "(watch_step ^^ n) s s' \<Longrightarrow> watch_inv s \<Longrightarrow> watch_inv s' \<and> watch_rank s' + n \<le> watch_rank s"
proof (induction n arbitrary: s')
  case (Suc n)
  then obtain t where t: "(watch_step ^^ n) s t" "watch_step t s'" by auto
  have "watch_inv t" "watch_rank t + n \<le> watch_rank s" using Suc.IH[OF t(1) Suc.prems(2)] by auto
  then show ?case using watch_inv_step[OF t(2)] watch_rank_step[OF t(2)] by simp
qed simp

text \<open>Only the context may still become done.\<close>

definition quiescent :: "watch \<Rightarrow> bool" where
  "quiescent s \<longleftrightarrow> (\<forall>s'. watch_step s s' \<longrightarrow> s' = s\<lparr>fired := True\<rparr>)"

lemma quiescent_over:
  assumes "watch_inv s" "quiescent s"
  shows "phase s = Stopped \<and> watcher s = (if cancellable s then Exited else NotStarted)"
proof -
  have q: "watch_step s s' \<Longrightarrow> phase s' = phase s \<and> done_closed s' = done_closed s \<and> watcher s' = watcher s" for s'
    using assms(2) by (auto simp: quiescent_def)
  have "phase s \<noteq> Starting" using q[OF start[of s]] q[OF unwatched[of s]] by (cases "cancellable s") auto
  moreover have "phase s \<noteq> Exchanging" using q[OF succeed[of s]] by auto
  moreover have "phase s \<noteq> Stopping"
    using q[OF close_done[of s]] q[OF clear[of s]] q[OF stop_nothing[of s]] by (cases "cancellable s"; cases "done_closed s") auto
  moreover have "watcher s \<noteq> Selecting \<or> \<not> done_closed s" using q[OF sees_done[of s]] by auto
  moreover have "watcher s \<noteq> Cancelling" using q[OF asks[of s]] by auto
  moreover have "watcher s \<noteq> Asked" using q[OF expires[of s]] by auto
  ultimately show ?thesis using assms(1) by (cases "phase s"; cases "watcher s") (auto simp: watch_inv_def)
qed

lemma cancellable_step: "watch_step s s' \<Longrightarrow> cancellable s' = cancellable s"
  by (induction rule: watch_step.induct) simp_all

lemma cancellable_path: "(watch_step ^^ n) s s' \<Longrightarrow> cancellable s' = cancellable s"
  by (induction n arbitrary: s') (auto dest: cancellable_step)

text \<open>C23: no goroutine is leaked.  However the call, the context and the watcher are interleaved, they take at
  most eight actions together; and when nothing can happen any more, but for the context to be cancelled,
  the call has returned and its watcher is gone, also when the context is never cancelled; under a context
  that cannot be cancelled there never was one.\<close>

theorem watcher_exits:
  assumes "(watch_step ^^ n) (watch_init can dl) s"
  shows "n \<le> 8 \<and> (quiescent s \<longrightarrow> phase s = Stopped \<and> watcher s = (if can then Exited else NotStarted))"
proof -
  have "watch_rank (watch_init can dl) = 8" "cancellable (watch_init can dl) = can" by (simp_all add: watch_rank_def watch_init_def)
  then show ?thesis using watch_path[OF assms watch_inv_init] quiescent_over[of s] cancellable_path[OF assms] by simp
qed

section \<open>A late cancellation\<close>

text \<open>The state of a call that has returned successfully while its watcher is still in the \<^verbatim>\<open>select\<close>.\<close>

definition returned :: "bool \<Rightarrow> watch" where
  "returned dl = (watch_init True dl)\<lparr>done_closed := True, watcher := Selecting, phase := Stopped\<rparr>"

definition poisoned :: "bool \<Rightarrow> watch" where
  "poisoned dl = (returned dl)\<lparr>fired := True, asked := True, watcher := Exited, socket_deadline := Expired\<rparr>"

lemma returned_path: "(watch_step ^^ 4) (watch_init True dl) (returned dl)"
proof -
  let ?a = "(watch_init True dl)\<lparr>phase := Exchanging, watcher := Selecting, socket_deadline := (if dl then CtxDeadline else NoDeadline)\<rparr>"
  have "watch_step (watch_init True dl) ?a" using start[of "watch_init True dl"] by (cases dl) (simp_all add: watch_init_def)
  moreover have "watch_step ?a (?a\<lparr>phase := Stopping\<rparr>)" by (rule succeed) simp
  moreover have "watch_step (?a\<lparr>phase := Stopping\<rparr>) (?a\<lparr>phase := Stopping, done_closed := True\<rparr>)"
    using close_done[of "?a\<lparr>phase := Stopping\<rparr>"] by (simp add: watch_init_def)
  moreover have "watch_step (?a\<lparr>phase := Stopping, done_closed := True\<rparr>) (returned dl)"
    using clear[of "?a\<lparr>phase := Stopping, done_closed := True\<rparr>"] by (simp add: watch_init_def returned_def)
  ultimately show ?thesis by (auto simp: numeral_eq_Suc)
qed

lemma poisoned_path: "(watch_step ^^ 4) (returned dl) (poisoned dl)"
proof -
  let ?a = "(returned dl)\<lparr>fired := True\<rparr>"
  have "watch_step (returned dl) ?a" by (rule fires) (simp_all add: returned_def watch_init_def)
  moreover have "watch_step ?a (?a\<lparr>watcher := Cancelling\<rparr>)" by (rule sees_ctx) (simp_all add: returned_def)
  moreover have "watch_step (?a\<lparr>watcher := Cancelling\<rparr>) (?a\<lparr>watcher := Asked, asked := True\<rparr>)"
    using asks[of "?a\<lparr>watcher := Cancelling\<rparr>"] by simp
  moreover have "watch_step (?a\<lparr>watcher := Asked, asked := True\<rparr>) (poisoned dl)"
    using expires[of "?a\<lparr>watcher := Asked, asked := True\<rparr>"] by (simp add: poisoned_def)
  ultimately show ?thesis by (auto simp: numeral_eq_Suc)
qed

text \<open>C25: \<^verbatim>\<open>stop\<close> does not wait for the watcher.  A call can return successfully, on a connection that counts as
  valid and with the deadline cleared, before its context is done; if the context is then cancelled, as a
  deferred \<^verbatim>\<open>cancel\<close> does, the watcher may still ask the server to abort whatever the session is running by
  then and leave an expired deadline on the socket.\<close>

theorem late_cancellation:
  "\<exists>s t. watch_reach True dl s \<and> phase s = Stopped \<and> \<not> call_broken s \<and> \<not> fired s \<and> socket_deadline s = NoDeadline \<and>
     watch_step\<^sup>*\<^sup>* s t \<and> \<not> call_broken t \<and> asked t \<and> socket_deadline t = Expired"
proof -
  have "watch_reach True dl (returned dl)" "watch_step\<^sup>*\<^sup>* (returned dl) (poisoned dl)"
    using returned_path poisoned_path by (auto simp: watch_reach_def intro: relpowp_imp_rtranclp)
  then show ?thesis
    by (intro exI[of _ "returned dl"] exI[of _ "poisoned dl"]) (simp add: returned_def poisoned_def watch_init_def)
qed

section \<open>Witnesses\<close>

theorem watched_call_outcome_witness:
  "\<exists>s. watch_reach True True s \<and> socket_deadline s = Expired \<and>
    (socket_deadline s = NoDeadline \<or> (fired s \<and> asked s \<and> socket_deadline s = Expired))"
proof -
  have "watch_step\<^sup>*\<^sup>* (watch_init True True) (poisoned True)"
    using returned_path[of True] poisoned_path[of True] by (meson relpowp_imp_rtranclp rtranclp_trans)
  then have r: "watch_reach True True (poisoned True)" by (simp add: watch_reach_def)
  have "phase (poisoned True) = Stopped" "watcher (poisoned True) = Exited" "\<not> call_broken (poisoned True)"
    by (simp_all add: poisoned_def returned_def watch_init_def)
  then show ?thesis
    using watched_call_outcome[OF r] r by (intro exI[of _ "poisoned True"]) (simp add: poisoned_def)
qed

theorem watcher_exits_witness:
  "(watch_step ^^ 8) (watch_init True False) (poisoned False) \<and> (8::nat) \<le> 8 \<and> quiescent (poisoned False) \<and>
    watcher (poisoned False) = Exited"
proof -
  have r: "(watch_step ^^ (4 + 4)) (watch_init True False) (poisoned False)"
    using returned_path[of False] poisoned_path[of False] unfolding relpowp_add by blast
  have "quiescent (poisoned False)"
    by (auto simp: quiescent_def poisoned_def returned_def watch_init_def elim: watch_stepE)
  then show ?thesis using watcher_exits[OF r] r by simp
qed

end
