(* ===== verification/Updatable.thy ===== *)
theory Updatable
  imports Statements
begin

unbundle bit_operations_syntax

text \<open>
  \<^verbatim>\<open>updatable.go\<close>: result sets that are changed through the cursor.  The comparison of column names,
  \<^verbatim>\<open>strings.EqualFold\<close>, is the parameter \<open>eq_fold\<close>; a Go map of new values is the list of its entries in the
  order in which it happens to be ranged over.
\<close>

section \<open>State\<close>

abbreviation SysOffsetRowID :: nat where "SysOffsetRowID \<equiv> 0"
abbreviation SysOffsetRowNum :: nat where "SysOffsetRowNum \<equiv> 2"

record updatable_rows =
  upd_stmt :: stmt
  upd_meta :: metadata
  upd_resultID :: i64
  upd_rows :: "gval list list"
  serverNums :: "i64 list"
  upd_pos :: int
  upd_closed :: bool

definition cursor_props :: byte where
  "cursor_props = RSUpdatable OR (RSScrollable OR RSHoldable)"

definition updatable_prepare :: "string \<Rightarrow> message" where
  "updatable_prepare query = (NewResult ModePrepare)\<lparr>SQL := query, StatementReturnType := StatementReturnResult,
     RSProperties := cursor_props, GenerateKeys := ReturnNoGeneratedKeys\<rparr>"

definition updatable_execute :: "stmt \<Rightarrow> gval list \<Rightarrow> message" where
  "updatable_execute st args = (NewResult ModeExecute)\<lparr>StatementID := stmt_id st,
     StatementReturnType := StatementReturnResult, RSProperties := cursor_props, FetchSize := 0,
     ParamMeta := stmt_paramMeta st, ParamValues := args\<rparr>"

text \<open>An error after the statement has been prepared: the statement is closed, and its error dropped.\<close>

definition close_and_fail :: "text_lib \<Rightarrow> 'p server \<Rightarrow> stmt \<Rightarrow> go_error \<Rightarrow> ('p, 'a) conn_op" where
  "close_and_fail lib srv st e c = do { (_, _, c) \<leftarrow> CloseStmt lib srv st c; Some (Inl e, c) }"

definition QueryUpdatable :: "text_lib \<Rightarrow> 'p server \<Rightarrow> ctx \<Rightarrow> string \<Rightarrow> gval list \<Rightarrow> ('p, updatable_rows) conn_op" where
  "QueryUpdatable lib srv ctx query args c =
     (if conn_closed c \<or> broken c then Some (Inl ErrBadConn, c)
      else andThen (execCtx (FormatV lib) srv ctx (updatable_prepare query)) (\<lambda>prep c.
        if Mode prep \<noteq> ModePrepareAck then Some (Inl (Errorf ''hsql: unexpected prepare response mode''), c)
        else
          let st = \<lparr>stmt_id = StatementID prep, stmt_meta = Meta prep, stmt_paramMeta = ParamMeta prep,
                stmt_closed = False\<rparr>
          in if RSProperties prep AND RSUpdatable = 0
             then close_and_fail lib srv st (Errorf ''hsql: query is not updatable'') c
             else
               do { (res, c) \<leftarrow> execCtx (FormatV lib) srv ctx (updatable_execute st args) c;
                    case res of
                      Inl e \<Rightarrow> close_and_fail lib srv st e c
                    | Inr res \<Rightarrow>
                        if \<not> isRowsResult res
                        then close_and_fail lib srv st (Errorf ''hsql: unexpected updatable query response mode'') c
                        else
                          let m = the (Meta res); rs = the (RowSet res) in
                          if ExtendedCount m <=s ColumnCount m
                          then close_and_fail lib srv st (Errorf ''hsql: server returned no updatable cursor metadata'') c
                          else Some (Inr \<lparr>upd_stmt = st, upd_meta = m, upd_resultID = SetID rs, upd_rows = Rows rs,
                            serverNums = map word_of_nat [0..<length (Rows rs)], upd_pos = -1, upd_closed = False\<rparr>, c) }) c)"

section \<open>Moving and reading\<close>

definition UpdColumns :: "updatable_rows \<Rightarrow> string list" where
  "UpdColumns u = map Label (Columns (upd_meta u))"

definition UpdLen :: "updatable_rows \<Rightarrow> nat" where
  "UpdLen u = length (upd_rows u)"

definition UpdNext :: "updatable_rows \<Rightarrow> bool \<times> updatable_rows" where
  "UpdNext u =
     (if upd_closed u \<or> int (length (upd_rows u)) \<le> upd_pos u + 1 then (False, u)
      else (True, u\<lparr>upd_pos := upd_pos u + 1\<rparr>))"

definition current :: "updatable_rows \<Rightarrow> gval list go_result" where
  "current u =
     (if upd_closed u then Inl ErrRowsClosed
      else if upd_pos u < 0 \<or> int (length (upd_rows u)) \<le> upd_pos u then Inl ErrNoCurrentRow
      else Inr (upd_rows u ! nat (upd_pos u)))"

text \<open>The loop of \<^verbatim>\<open>Scan\<close>: values are resolved in the cached row itself.\<close>

fun scan_cells :: "text_lib \<Rightarrow> 'p server \<Rightarrow> (nat \<Rightarrow> gval \<Rightarrow> go_error option \<times> elem_val) \<Rightarrow> out_dest list \<Rightarrow> gval list \<Rightarrow>
    store \<Rightarrow> 'p conn \<Rightarrow> (go_error option \<times> gval list \<times> store \<times> 'p conn) option" where
  "scan_cells lib srv scan [] row st c = Some (None, row, st, c)"
| "scan_cells lib srv scan (d # ds) [] st c = None"
| "scan_cells lib srv scan (d # ds) (v # row) st c =
     do { (res, v, c) \<leftarrow> resolveValue lib srv v c;
          case res of
            Inl e \<Rightarrow> Some (Some e, v # row, st, c)
          | Inr x \<Rightarrow>
              do { (err, st) \<leftarrow> assign_dest lib scan d x st;
                   case err of
                     Some e \<Rightarrow> Some (Some (Wrapf ''hsql: column'' e), v # row, st, c)
                   | None \<Rightarrow>
                       do { (err, row, st, c) \<leftarrow> scan_cells lib srv scan ds row st c;
                            Some (err, v # row, st, c) } } }"

definition UpdScan :: "text_lib \<Rightarrow> 'p server \<Rightarrow> (nat \<Rightarrow> gval \<Rightarrow> go_error option \<times> elem_val) \<Rightarrow> out_dest list \<Rightarrow>
    updatable_rows \<Rightarrow> store \<Rightarrow> 'p conn \<Rightarrow> (go_error option \<times> updatable_rows \<times> store \<times> 'p conn) option" where
  "UpdScan lib srv scan dest u st c =
     (case current u of
        Inl e \<Rightarrow> Some (Some e, u, st, c)
      | Inr row \<Rightarrow>
          do { (err, row, st, c) \<leftarrow> scan_cells lib srv scan (take (length (Columns (upd_meta u))) dest) row st c;
               Some (err, u\<lparr>upd_rows := (upd_rows u)[nat (upd_pos u) := row]\<rparr>, st, c) })"

section \<open>Cursor actions\<close>

definition columnIndex :: "(string \<Rightarrow> string \<Rightarrow> bool) \<Rightarrow> updatable_rows \<Rightarrow> string \<Rightarrow> nat go_result" where
  "columnIndex eq_fold u name =
     (case find (\<lambda>i. eq_fold (Label (Columns (upd_meta u) ! i)) name \<or> eq_fold (ColName (Columns (upd_meta u) ! i)) name)
             [0..<length (Columns (upd_meta u))] of
        Some i \<Rightarrow> Inr i
      | None \<Rightarrow> Inl (Errorf ''hsql: no such column''))"

definition visible_columns :: "updatable_rows \<Rightarrow> nat" where
  "visible_columns u = nat (sint (ColumnCount (upd_meta u)))"

definition fillRowIdentity :: "updatable_rows \<Rightarrow> gval list \<Rightarrow> gval list \<Rightarrow> gval list" where
  "fillRowIdentity u values row =
     (let idIdx = visible_columns u + SysOffsetRowID; numIdx = visible_columns u + SysOffsetRowNum;
          values = (if idIdx < length row \<and> idIdx < length values then values[idIdx := row ! idIdx] else values)
      in if numIdx < length values then values[numIdx := VInt64 (serverNums u ! nat (upd_pos u))] else values)"

definition cursor_request :: "updatable_rows \<Rightarrow> i32 \<Rightarrow> column_type list \<Rightarrow> gval list \<Rightarrow> message" where
  "cursor_request u act types values = (NewResult ModeUpdateResult)\<lparr>ID := upd_resultID u, ActionType := act,
     Meta := Some (zero_meta\<lparr>MetaType := MetaUpdateResult, ColumnCount := word_of_nat (length types), Types := types\<rparr>),
     BatchRows := [values]\<rparr>"

definition sendCursorAction :: "text_lib \<Rightarrow> 'p server \<Rightarrow> ctx \<Rightarrow> updatable_rows \<Rightarrow> i32 \<Rightarrow> column_type list \<Rightarrow> gval list \<Rightarrow>
    ('p, response) conn_op" where
  "sendCursorAction lib srv ctx u act types values = execCtx (FormatV lib) srv ctx (cursor_request u act types values)"

text \<open>One row image of the answer: it replaces the cached row of the same server number.\<close>

definition merge_row :: "gval list \<Rightarrow> updatable_rows \<Rightarrow> updatable_rows" where
  "merge_row updated u =
     (let numIdx = visible_columns u + SysOffsetRowNum in
      if length updated \<le> numIdx then u
      else case updated ! numIdx of
          VInt64 n \<Rightarrow>
            (case find (\<lambda>i. serverNums u ! i = n) [0..<length (serverNums u)] of
               Some i \<Rightarrow> u\<lparr>upd_rows := (upd_rows u)[i := updated]\<rparr>
             | None \<Rightarrow> u)
        | _ \<Rightarrow> u)"

definition mergeUpdatedRows :: "'a message_scheme \<Rightarrow> updatable_rows \<Rightarrow> updatable_rows" where
  "mergeUpdatedRows res u = (case RowSet res of None \<Rightarrow> u | Some rs \<Rightarrow> fold merge_row (Rows rs) u)"

text \<open>
  The loop over the new values: the extended row and which columns are set; \<open>None\<close> is an index out of
  range.
\<close>

fun set_columns :: "(string \<Rightarrow> string \<Rightarrow> bool) \<Rightarrow> updatable_rows \<Rightarrow> (string \<times> gval) list \<Rightarrow> gval list \<Rightarrow> bool list \<Rightarrow>
    (gval list \<times> bool list) go_result option" where
  "set_columns eq_fold u [] values sets = Some (Inr (values, sets))"
| "set_columns eq_fold u ((name, v) # updates) values sets =
     (case columnIndex eq_fold u name of
        Inl e \<Rightarrow> Some (Inl e)
      | Inr i \<Rightarrow>
          if length values \<le> i \<or> length sets \<le> i then None
          else set_columns eq_fold u updates (values[i := v]) (sets[i := True]))"

text \<open>The request of an update: the columns that are not set are marked as such by their type.\<close>

definition update_request :: "updatable_rows \<Rightarrow> gval list \<Rightarrow> gval list \<Rightarrow> bool list \<Rightarrow> message" where
  "update_request u row values sets =
     (let types = Types (upd_meta u) in
      cursor_request u ActionUpdateCursor
        (map (\<lambda>i. if i < visible_columns u \<and> \<not> sets ! i then type_of_code SQLAllTypes else types ! i) [0..<length types])
        (fillRowIdentity u values row))"

definition UpdateRow :: "text_lib \<Rightarrow> 'p server \<Rightarrow> (string \<Rightarrow> string \<Rightarrow> bool) \<Rightarrow> ctx \<Rightarrow> (string \<times> gval) list \<Rightarrow> updatable_rows \<Rightarrow>
    'p conn \<Rightarrow> (unit go_result \<times> updatable_rows \<times> 'p conn) option" where
  "UpdateRow lib srv eq_fold ctx updates u c =
     (case current u of
        Inl e \<Rightarrow> Some (Inl e, u, c)
      | Inr row \<Rightarrow>
          if updates = [] then Some (Inr (), u, c)
          else if ColumnCount (upd_meta u) <s 0 then None
          else
            let types = Types (upd_meta u) in
            do { r \<leftarrow> set_columns eq_fold u updates (replicate (length types) VNil) (replicate (visible_columns u) False);
                 case r of
                   Inl e \<Rightarrow> Some (Inl e, u, c)
                 | Inr (values, sets) \<Rightarrow>
                     if \<exists>i\<in>{length types..<visible_columns u}. \<not> sets ! i then None
                     else
                       do { (res, c) \<leftarrow> execCtx (FormatV lib) srv ctx (update_request u row values sets) c;
                            Some (case res of
                                Inl e \<Rightarrow> (Inl e, u, c)
                              | Inr res \<Rightarrow> (Inr (), mergeUpdatedRows res u, c)) } })"

definition remove_at :: "nat \<Rightarrow> 'a list \<Rightarrow> 'a list" where
  "remove_at i xs = take i xs @ drop (Suc i) xs"

definition DeleteRow :: "text_lib \<Rightarrow> 'p server \<Rightarrow> ctx \<Rightarrow> updatable_rows \<Rightarrow> 'p conn \<Rightarrow>
    (unit go_result \<times> updatable_rows \<times> 'p conn) option" where
  "DeleteRow lib srv ctx u c =
     (case current u of
        Inl e \<Rightarrow> Some (Inl e, u, c)
      | Inr row \<Rightarrow>
          let types = Types (upd_meta u);
              values = fillRowIdentity u (replicate (length types) VNil) row
          in do { (res, c) \<leftarrow> sendCursorAction lib srv ctx u ActionDeleteCursor types values c;
                  Some (case res of
                      Inl e \<Rightarrow> (Inl e, u, c)
                    | Inr _ \<Rightarrow> (Inr (), u\<lparr>upd_rows := remove_at (nat (upd_pos u)) (upd_rows u),
                        serverNums := remove_at (nat (upd_pos u)) (serverNums u), upd_pos := upd_pos u - 1\<rparr>, c)) })"

definition InsertRow :: "text_lib \<Rightarrow> 'p server \<Rightarrow> (string \<Rightarrow> string \<Rightarrow> bool) \<Rightarrow> ctx \<Rightarrow> (string \<times> gval) list \<Rightarrow> updatable_rows \<Rightarrow>
    ('p, unit) conn_op" where
  "InsertRow lib srv eq_fold ctx values u c =
     (if upd_closed u then Some (Inl ErrRowsClosed, c)
      else
        let n = length (Types (upd_meta u)) in
        do { r \<leftarrow> set_columns eq_fold u values (replicate n VNil) (replicate n False);
             case r of
               Inl e \<Rightarrow> Some (Inl e, c)
             | Inr (row, _) \<Rightarrow>
                 andThen (sendCursorAction lib srv ctx u ActionInsertCursor (Types (upd_meta u)) row) (\<lambda>_. ok ()) c })"

definition CloseUpdatable :: "text_lib \<Rightarrow> 'p server \<Rightarrow> updatable_rows \<Rightarrow> 'p conn \<Rightarrow>
    (unit go_result \<times> updatable_rows \<times> 'p conn) option" where
  "CloseUpdatable lib srv u c =
     (if upd_closed u then Some (Inr (), u, c)
      else
        do { (first, c) \<leftarrow>
               (if \<not> conn_closed c \<and> upd_resultID u \<noteq> 0
                then do { (res, c) \<leftarrow> exec (FormatV lib) srv (close_request (upd_resultID u)) c;
                          Some (map_sum id (\<lambda>_. ()) res, c) }
                else Some (Inr (), c));
             (res, st, c) \<leftarrow> CloseStmt lib srv (upd_stmt u) c;
             Some (if isl first then first else res, u\<lparr>upd_closed := True, upd_stmt := st\<rparr>, c) })"

end
