(* ===== verification/Keeps.thy ===== *)
theory Keeps
  imports Session Updatable
begin

unbundle bit_operations_syntax

text \<open>
  Every operation of the driver is made of two kinds of exchange, the request of a message and the request
  of a LOB, and of changes to a few flags.  The locale \<open>conn_invariant\<close> states this once: what these keep,
  every public operation keeps.
\<close>

section \<open>Results that leave a good connection\<close>

text \<open>
  \<open>leaves I at q\<close>: the result \<open>q\<close> is a panic, or the connection, which is found in it by \<open>at\<close>, satisfies \<open>I\<close>.
\<close>

definition leaves :: "('p conn \<Rightarrow> bool) \<Rightarrow> ('x \<Rightarrow> 'p conn) \<Rightarrow> 'x option \<Rightarrow> bool" where
  "leaves I at q \<longleftrightarrow> (\<forall>x. q = Some x \<longrightarrow> I (at x))"

lemma leavesD: "leaves I at q \<Longrightarrow> q = Some x \<Longrightarrow> I (at x)"
  by (simp add: leaves_def)

lemma leaves_simps [simp]: "leaves I at None" "leaves I at (Some x) = I (at x)" "leaves I snd (ok y c) = I c"
  by (simp_all add: leaves_def ok_def)

lemma leaves_bind:
  "leaves I pos q \<Longrightarrow> (\<And>x. q = Some x \<Longrightarrow> I (pos x) \<Longrightarrow> leaves I at (f x)) \<Longrightarrow> leaves I at (Option.bind q f)"
  by (cases q) (auto simp: leaves_def)

lemma leaves_value: "(\<And>x. q = Some x \<Longrightarrow> leaves I at (f x)) \<Longrightarrow> leaves I at (Option.bind q f)"
  by (cases q) (auto simp: leaves_def)

lemma leaves_map: "leaves I (\<lambda>x. at (f x)) q \<Longrightarrow> leaves I at (map_option f q)"
  by (cases q) (auto simp: leaves_def)

lemma leaves_andThen:
  "leaves I snd (m c) \<Longrightarrow> (\<And>x c. I c \<Longrightarrow> leaves I snd (f x c)) \<Longrightarrow> leaves I snd (andThen m f c)"
  unfolding andThen_def by (rule leaves_bind) (auto split: sum.split)

section \<open>The modes of the requests\<close>

lemma Mode_NewResult [simp]: "Mode (NewResult m) = m"
  by (simp add: NewResult_def)

lemma request_modes [simp]:
  "Mode (newExecDirect c q) = ModeExecDirect" "Mode (NewSessionAttrRequest a v b s) = ModeSetSessionAttr"
  "Mode (request_data r c) = ModeRequestData" "Mode (close_request i) = ModeCloseResult"
  "Mode (execute_request st c vs) = ModeExecute" "Mode (batch_direct_request sqls) = ModeBatchExecDirect"
  "Mode (batch_execute_request j m rws) = ModeBatchExecute" "Mode (updatable_execute st vs) = ModeExecute"
  "Mode (prepare_request q) = ModePrepare" "Mode (updatable_prepare q) = ModePrepare" "Mode (free_request i) = ModeFreeStmt"
  "Mode (cursor_request u act types vs) = ModeUpdateResult" "Mode (update_request u vs ws bs) = ModeUpdateResult"
  by (simp_all add: newExecDirect_def NewSessionAttrRequest_def request_data_def close_request_def execute_request_def
      batch_direct_request_def batch_execute_request_def updatable_execute_def prepare_request_def updatable_prepare_def
      free_request_def cursor_request_def update_request_def Let_def)

section \<open>The contract\<close>

text \<open>
  A \<open>strict\<close> invariant is one that only the requests other than PREPARE and FREE_STMT keep: then the lemmas
  for the operations that prepare or free statements do not apply.
\<close>

locale conn_invariant =
  fixes lib :: text_lib and srv :: "'p server" and I :: "'p conn \<Rightarrow> bool" and strict :: bool
  assumes exec_keeps: "I c \<Longrightarrow> strict \<longrightarrow> Mode req \<notin> {ModePrepare, ModeFreeStmt} \<Longrightarrow>
      leaves I snd (execCtx (FormatV lib) srv ctx req c)"
    and length_keeps: "I c \<Longrightarrow> leaves I snd (lobExchange srv (lobLengthRequest i) c)"
    and block_keeps: "I c \<Longrightarrow> leaves I snd (lobExchange srv (lobBlockRequest q i off len) c)"
    and autocommit_keeps: "I c \<Longrightarrow> I (c\<lparr>autocommit := a\<rparr>)"
    and altered_keeps: "I c \<Longrightarrow> I (c\<lparr>txAlteredSession := a\<rparr>)"
    and ids_keep: "I c \<Longrightarrow> I (c\<lparr>lobIDSeq := s\<rparr>)"
    and broken_keeps: "I c \<Longrightarrow> I (c\<lparr>broken := True\<rparr>)"
begin

lemmas flags_keep = autocommit_keeps altered_keeps ids_keep broken_keeps

lemma plain_exec_keeps:
  "I c \<Longrightarrow> strict \<longrightarrow> Mode req \<notin> {ModePrepare, ModeFreeStmt} \<Longrightarrow> leaves I snd (exec (FormatV lib) srv req c)"
  by (simp add: exec_def exec_keeps)

lemma then_keeps:
  "I c \<Longrightarrow> strict \<longrightarrow> Mode req \<notin> {ModePrepare, ModeFreeStmt} \<Longrightarrow>
    leaves I snd (andThen (execCtx (FormatV lib) srv ctx req) (\<lambda>_. ok x) c)"
  by (auto intro: leaves_andThen exec_keeps)

lemma flag_step_keeps:
  "I c \<Longrightarrow> strict \<longrightarrow> Mode req \<notin> {ModePrepare, ModeFreeStmt} \<Longrightarrow> leaves I snd (andThen (execCtx (FormatV lib) srv ctx req) (\<lambda>_ c. Some (Inr (), c\<lparr>txAlteredSession := True\<rparr>)) c)"
  by (rule leaves_andThen) (auto intro: exec_keeps altered_keeps)

subsection \<open>Sessions\<close>

lemma attr_keeps:
  "I c \<Longrightarrow> leaves I snd (setSessionAttrBool (FormatV lib) srv ctx a b c)"
  "I c \<Longrightarrow> leaves I snd (setSessionAttrInt (FormatV lib) srv ctx a i c)"
  by (simp_all add: setSessionAttrBool_def setSessionAttrInt_def then_keeps)

lemma endTran_keeps: "I c \<Longrightarrow> leaves I snd (endTran (FormatV lib) srv t c)"
  by (simp add: endTran_def exec_def then_keeps)

lemma Ping_keeps: "I c \<Longrightarrow> leaves I snd (Ping (FormatV lib) srv ctx c)"
  by (simp add: Ping_def then_keeps)

lemma ResetSession_keeps: "I c \<Longrightarrow> leaves I snd (ResetSession (FormatV lib) srv ctx c)"
  unfolding ResetSession_def
  by (auto intro!: leaves_andThen exec_keeps) (metis autocommit_keeps ids_keep)

lemma settings_keep:
  "I c \<Longrightarrow> leaves I snd (setIsolation (FormatV lib) srv ctx lvl c)"
  "I c \<Longrightarrow> leaves I snd (setReadOnly (FormatV lib) srv ctx ro c)"
  by (auto simp: setIsolation_def setReadOnly_def flag_step_keeps split: sum.split)

lemma BeginTx_keeps: "I c \<Longrightarrow> leaves I snd (BeginTx (FormatV lib) srv ctx opts c)"
  unfolding BeginTx_def by (auto intro!: leaves_andThen settings_keep attr_keeps autocommit_keeps)

lemma reset_characteristics_keeps: "I c \<Longrightarrow> leaves I (\<lambda>c. c) (resetSessionCharacteristics (FormatV lib) srv c)"
  unfolding resetSessionCharacteristics_def
  by (auto intro!: leaves_bind[OF attr_keeps(1)] leaves_bind[OF attr_keeps(2)] flags_keep)

lemma finish_keeps: "I c \<Longrightarrow> leaves I snd (finish (FormatV lib) srv t c)"
  unfolding finish_def
  by (auto intro!: leaves_bind[OF endTran_keeps] leaves_bind[OF attr_keeps(1)]
      leaves_bind[OF reset_characteristics_keeps] flags_keep split: sum.split)

lemma savepoints_keep:
  "I c \<Longrightarrow> leaves I snd (Savepoint (FormatV lib) srv ctx name c)"
  "I c \<Longrightarrow> leaves I snd (savepointEnd (FormatV lib) srv ctx t name c)"
  "I c \<Longrightarrow> leaves I snd (PrepareCommit (FormatV lib) srv ctx c)"
  by (auto simp: Savepoint_def savepointEnd_def PrepareCommit_def then_keeps)

lemma attr_row_keeps: "I c \<Longrightarrow> leaves I snd (sessionAttrRow (FormatV lib) srv ctx a c)"
  unfolding sessionAttrRow_def by (auto intro!: leaves_andThen exec_keeps split: option.split list.split)

lemma SessionInfo_keeps: "I c \<Longrightarrow> leaves I snd (SessionInfo (FormatV lib) srv ctx c)"
  unfolding SessionInfo_def by (auto intro!: leaves_andThen attr_row_keeps)

subsection \<open>LOBs and rows\<close>

lemma loops_keep:
  "I c \<Longrightarrow> leaves I snd (lobBytesLoop srv i len out c)" "I c \<Longrightarrow> leaves I snd (lobCharsLoop srv i len us c)"
proof -
  show "I c \<Longrightarrow> leaves I snd (lobBytesLoop srv i len out c)"
  proof (induction srv\<equiv>srv i len out c rule: lobBytesLoop.induct)
    case (1 i len out c)
    show ?case
      by (subst lobBytesLoop.simps) (use 1 in \<open>fastforce intro!: leaves_bind[OF block_keeps] split: sum.split\<close>)
  qed
  show "I c \<Longrightarrow> leaves I snd (lobCharsLoop srv i len us c)"
  proof (induction srv\<equiv>srv i len us c rule: lobCharsLoop.induct)
    case (1 i len us c)
    show ?case
      by (subst lobCharsLoop.simps) (use 1 in \<open>fastforce intro!: leaves_bind[OF block_keeps] split: sum.split\<close>)
  qed
qed

lemma fetchLob_keeps: "I c \<Longrightarrow> leaves I snd (fetchLob srv i isClob c)"
  unfolding fetchLob_def lobLength_def lobGetChars_def[abs_def] lobGetBytes_def[abs_def]
  by (auto intro!: leaves_andThen length_keeps loops_keep)

lemma resolve_elems_keep: "I c \<Longrightarrow> leaves I (\<lambda>(_, _, c). c) (resolve_elems srv vs c)"
  by (induction srv\<equiv>srv vs c rule: resolve_elems.induct)
    (auto intro!: leaves_bind[OF fetchLob_keeps] leaves_bind[where pos = "\<lambda>(_, _, c). c"] split: gval.split sum.split)

lemma resolveValue_keeps: "I c \<Longrightarrow> leaves I (\<lambda>(_, _, c). c) (resolveValue lib srv v c)"
  by (auto simp: resolveValue_def intro!: leaves_bind[OF fetchLob_keeps] leaves_bind[OF resolve_elems_keep] split: gval.split)

lemma resolve_cells_keep: "I c \<Longrightarrow> leaves I (\<lambda>(_, _, c). c) (resolve_cells lib srv k row c)"
proof (induction k arbitrary: row c)
  case (Suc k)
  then show ?case
    by (cases row) (auto intro!: leaves_bind[OF resolveValue_keeps] leaves_bind[OF Suc.IH] split: sum.split)
qed simp

lemma Next_keeps: "I c \<Longrightarrow> leaves I (\<lambda>(_, _, c). c) (Next lib srv n r c)"
proof -
  have d: "leaves I (\<lambda>(_, _, c). c) (deliver lib srv n r c)" if "I c" for r c
    using that by (auto simp: deliver_def intro!: leaves_value[where q = "rows_meta r"] leaves_bind[OF resolve_cells_keep])
  have f: "leaves I (\<lambda>(_, _, c). c) (fetchMore lib srv r c)" if "I c" for r c
    using that by (auto simp: fetchMore_def intro!: leaves_bind[OF plain_exec_keeps] split: sum.split option.split)
  show "I c \<Longrightarrow> leaves I (\<lambda>(_, _, c). c) (Next lib srv n r c)"
    by (auto simp: Next_def intro!: d leaves_bind[OF f] split: option.split)
qed

lemma closeCurrent_keeps: "I c \<Longrightarrow> leaves I snd (closeCurrent lib srv r c)"
  by (auto simp: closeCurrent_def intro!: leaves_andThen plain_exec_keeps)

lemma result_sets_keep:
  "I c \<Longrightarrow> leaves I (\<lambda>(_, _, c). c) (CloseRows lib srv r c)"
  "I c \<Longrightarrow> leaves I (\<lambda>(_, _, c). c) (NextResultSet lib srv r c)"
  by (auto simp: CloseRows_def NextResultSet_def Let_def intro!: leaves_bind[OF closeCurrent_keeps] split: list.split sum.split)

subsection \<open>Statements\<close>

lemma direct_keeps:
  "I c \<Longrightarrow> leaves I snd (ExecContext lib srv ctx q args c)" "I c \<Longrightarrow> leaves I snd (QueryContext lib srv ctx q args c)"
  by (auto simp: ExecContext_def QueryContext_def intro!: leaves_andThen exec_keeps)

lemma PrepareContext_keeps: "\<not> strict \<Longrightarrow> I c \<Longrightarrow> leaves I snd (PrepareContext lib srv ctx q c)"
  by (auto simp: PrepareContext_def intro!: leaves_andThen exec_keeps)

lemma CloseStmt_keeps: "\<not> strict \<Longrightarrow> I c \<Longrightarrow> leaves I (\<lambda>(_, _, c). c) (CloseStmt lib srv s c)"
  by (auto simp: CloseStmt_def intro!: leaves_bind[OF plain_exec_keeps])

lemma assign_outs_keep: "I c \<Longrightarrow> leaves I (\<lambda>(_, _, c). c) (assign_outs lib srv scan row outs st c)"
  by (induction lib\<equiv>lib srv\<equiv>srv scan row outs st c rule: assign_outs.induct)
    (auto simp: Let_def intro!: leaves_bind[OF resolveValue_keeps] split: sum.split option.split prod.split)

lemma execute_keeps: "I c \<Longrightarrow> leaves I (\<lambda>(_, _, c). c) (execute lib srv scan shuffle ctx s args st c)"
proof -
  have a: "leaves I (\<lambda>(_, _, c). c) (applyOutParams lib srv scan res outs st c)" if "I c" for res outs st c
    using that by (auto simp: applyOutParams_def intro!: assign_outs_keep split: option.split list.split)
  show "I c \<Longrightarrow> leaves I (\<lambda>(_, _, c). c) (execute lib srv scan shuffle ctx s args st c)"
    by (auto simp: execute_def intro!: leaves_bind[OF exec_keeps] leaves_bind[OF a] split: sum.split)
qed

lemma statements_keep:
  "I c \<Longrightarrow> leaves I (\<lambda>(_, _, c). c) (ExecStmt lib srv scan shuffle ctx s args st c)"
  "I c \<Longrightarrow> leaves I (\<lambda>(_, _, c). c) (QueryStmt lib srv scan shuffle ctx s args st c)"
  by (auto simp: ExecStmt_def QueryStmt_def intro!: leaves_bind[OF execute_keeps])

lemma ExecBatch_keeps: "I c \<Longrightarrow> leaves I snd (ExecBatch lib srv ctx sqls c)"
  by (auto simp: ExecBatch_def intro!: leaves_andThen exec_keeps)

lemma ExecPreparedBatch_keeps:
  assumes "\<not> strict"
  shows "I c \<Longrightarrow> leaves I snd (ExecPreparedBatch lib srv ctx q rows c)"
proof -
  have "leaves I snd (do { m \<leftarrow> stmt_paramMeta s; (res, c) \<leftarrow> execCtx (FormatV lib) srv ctx (req s m) c;
      (_, _, c) \<leftarrow> CloseStmt lib srv s c; Some (f res, c) })" if "I c" for s c req and f :: "_ \<Rightarrow> 'b"
    using that assms
    by (auto intro!: leaves_value[where q = "stmt_paramMeta s"] leaves_bind[OF exec_keeps] leaves_bind[OF CloseStmt_keeps])
  then show "I c \<Longrightarrow> leaves I snd (ExecPreparedBatch lib srv ctx q rows c)"
    using assms by (auto simp: ExecPreparedBatch_def intro!: leaves_andThen PrepareContext_keeps)
qed

subsection \<open>Updatable results\<close>

lemma QueryUpdatable_keeps:
  assumes "\<not> strict"
  shows "I c \<Longrightarrow> leaves I snd (QueryUpdatable lib srv ctx q args c)"
proof -
  have f: "leaves I snd (close_and_fail lib srv st e c)" if "I c" for st e c
    using that assms by (auto simp: close_and_fail_def intro!: leaves_bind[OF CloseStmt_keeps])
  show "I c \<Longrightarrow> leaves I snd (QueryUpdatable lib srv ctx q args c)"
    using assms by (auto simp: QueryUpdatable_def Let_def intro!: leaves_andThen exec_keeps f leaves_bind[OF exec_keeps] split: sum.split)
qed

lemma UpdScan_keeps: "I c \<Longrightarrow> leaves I (\<lambda>(_, _, _, c). c) (UpdScan lib srv scan dest u st c)"
proof -
  have s: "leaves I (\<lambda>(_, _, _, c). c) (scan_cells lib srv scan ds row st c)" if "I c" for ds row st c
    using that
    by (induction lib\<equiv>lib srv\<equiv>srv scan ds row st c rule: scan_cells.induct)
      (auto simp: Let_def intro!: leaves_bind[OF resolveValue_keeps] leaves_bind[where pos = "\<lambda>(_, _, _, c). c"]
        leaves_value[where q = "assign_dest _ _ _ _ _"] split: sum.split option.split prod.split)
  show "I c \<Longrightarrow> leaves I (\<lambda>(_, _, _, c). c) (UpdScan lib srv scan dest u st c)"
    by (auto simp: UpdScan_def intro!: leaves_bind[OF s] split: sum.split)
qed

lemma cursor_keeps:
  "I c \<Longrightarrow> leaves I (\<lambda>(_, _, c). c) (UpdateRow lib srv eq_fold ctx updates u c)"
  "I c \<Longrightarrow> leaves I (\<lambda>(_, _, c). c) (DeleteRow lib srv ctx u c)"
  "I c \<Longrightarrow> leaves I snd (InsertRow lib srv eq_fold ctx values u c)"
proof -
  have s: "leaves I at (do { y \<leftarrow> set_columns eq_fold u vs ws bs; f y })" if "\<And>y. leaves I at (f y)"
    for at :: "'x \<Rightarrow> 'p conn" and f vs ws bs
    using that by (rule leaves_value)
  show "I c \<Longrightarrow> leaves I (\<lambda>(_, _, c). c) (UpdateRow lib srv eq_fold ctx updates u c)"
    by (auto simp: UpdateRow_def Let_def intro!: s leaves_bind[OF exec_keeps] split: sum.split)
  show "I c \<Longrightarrow> leaves I (\<lambda>(_, _, c). c) (DeleteRow lib srv ctx u c)"
    by (auto simp: DeleteRow_def sendCursorAction_def Let_def intro!: leaves_bind[OF exec_keeps] split: sum.split)
  show "I c \<Longrightarrow> leaves I snd (InsertRow lib srv eq_fold ctx values u c)"
    by (auto simp: InsertRow_def sendCursorAction_def[abs_def] Let_def intro!: s leaves_andThen exec_keeps split: sum.split)
qed

lemma CloseUpdatable_keeps:
  assumes "\<not> strict"
  shows "I c \<Longrightarrow> leaves I (\<lambda>(_, _, c). c) (CloseUpdatable lib srv u c)"
proof -
  have "leaves I snd (if \<not> conn_closed c \<and> upd_resultID u \<noteq> 0
      then do { (res, c) \<leftarrow> exec (FormatV lib) srv (close_request (upd_resultID u)) c; Some (map_sum id (\<lambda>_. ()) res, c) }
      else Some (Inr (), c))" if "I c" for c
    using that by (auto intro!: leaves_bind[OF plain_exec_keeps])
  note f = this
  show "leaves I (\<lambda>(_, _, c). c) (CloseUpdatable lib srv u c)" if "I c"
  proof (cases "upd_closed u")
    case False
    show ?thesis
      unfolding CloseUpdatable_def using False
      by (simp only: if_False) (rule leaves_bind[OF f[OF that]], use assms in \<open>auto intro!: leaves_bind[OF CloseStmt_keeps]\<close>)
  qed (simp add: CloseUpdatable_def that)
qed

end

end
