(* ===== verification/Orderly.thy ===== *)
theory Orderly
  imports Keeps LobProps
begin

unbundle bit_operations_syntax

text \<open>
  A server that answers every flush of the driver with one complete answer of the kind the protocol
  provides, whatever the answer says, and what the two kinds of exchange make of it: an exchange that
  leaves the connection usable has read the answer to its last byte.
\<close>

section \<open>Complete answers\<close>

definition whole_frame :: "byte \<times> byte list \<Rightarrow> bool" where
  "whole_frame f \<longleftrightarrow> fst f \<noteq> ModeNone \<and> frame_fits (snd f)"

text \<open>
  The answers to a LOB request: a length or an acknowledgement, a block of bytes, a block of UTF-16 units,
  or an error message.
\<close>

definition whole_lob_answer :: "byte list \<Rightarrow> bool" where
  "whole_lob_answer ans \<longleftrightarrow>
     (\<exists>h sub v. length h = 20 \<and> sub \<in> {LobRespSet, LobRespCreateBytes, LobRespCreateChars, LobRespTruncate} \<and>
        ans = lob_answer h sub [v] []) \<or>
     (\<exists>h off b. length h = 20 \<and> length b < 2 ^ 62 \<and>
        ans = lob_answer h LobRespGetBytes [off, word_of_nat (length b)] b) \<or>
     (\<exists>h off us. length h = 20 \<and> length us < 2 ^ 62 \<and>
        ans = lob_answer h LobRespGetChars [off, word_of_nat (length us)] (utf16_bytes us)) \<or>
     (\<exists>bs. ans = ModeError # bs)"

text \<open>
  Nothing answers the version number that opens the handshake; a LOB request has a LOB answer, every other
  request one transmission of at least one frame.
\<close>

definition answers :: "byte list \<Rightarrow> byte list \<Rightarrow> bool" where
  "answers req ans \<longleftrightarrow>
     (if req = int32_bytes NetworkCompatibilityVersionInt then ans = []
      else if hd req = ModeLargeObjectOp then whole_lob_answer ans
      else \<exists>f fs. ans = transmission (f # fs) \<and> list_all whole_frame (f # fs))"

text \<open>A write may fail at any time, and so may the read after the answer; frames need not decode.\<close>

definition orderly :: "'p server \<Rightarrow> bool" where
  "orderly srv \<longleftrightarrow> (\<forall>p req p' ans e. req \<noteq> [] \<longrightarrow> srv p req = (p', Inr (ans, e)) \<longrightarrow> answers req ans)"

lemma version_hd [simp]: "hd (int32_bytes NetworkCompatibilityVersionInt) = 0xFF"
  by code_simp

lemma not_version: "b \<noteq> 0xFF \<Longrightarrow> b # bs \<noteq> int32_bytes NetworkCompatibilityVersionInt"
  by (metis list.sel(1) version_hd)

lemma answers_frame:
  assumes "whole_frame f" "hd req \<noteq> 0xFF" "hd req \<noteq> ModeLargeObjectOp"
  shows "answers req (transmission [f])"
proof -
  have "\<exists>g fs. transmission [f] = transmission (g # fs) \<and> list_all whole_frame (g # fs)"
    by (intro exI[of _ f] exI[of _ "[]"]) (use assms(1) in simp)
  then show ?thesis using assms(2,3) by (auto simp: answers_def)
qed

section \<open>Sending\<close>

lemma queues_writeLobs: "writeLobs lobs c = (e, c') \<Longrightarrow> queues (net c) (net c')"
proof (induction lobs arbitrary: c)
  case (Cons lob lobs)
  obtain err n where w: "writeLobCreate (databaseID c, sessionID c) lob (net c) = (err, n)" by fastforce
  have q: "queues (net c) n" by (rule queues_lob[OF w])
  have "writeLobs lobs (c\<lparr>net := n\<rparr>) = (e, c') \<Longrightarrow> queues n (net c')" using Cons.IH[of "c\<lparr>net := n\<rparr>"] by simp
  then show ?case using Cons.prems w q by (cases err) (auto intro: queues_trans)
qed simp

lemma flush_cases:
  assumes "bw_flush srv n = (None, n')" "pend n \<noteq> []"
  obtains p ans e where "srv (peer n) (pend n) = (p, Inr (ans, e))"
    "n' = n\<lparr>peer := p, sent := sent n @ pend n, pend := [], inp := inp n @ ans, inp_end := e\<rparr>" "werr n = None"
  using assms by (auto simp: bw_flush_def split: option.splits prod.splits sum.splits)

text \<open>A request that went out: one flush, which begins with the frame of the request and ends after it.\<close>

lemma transmit_flushes:
  assumes "transmit srv mode lobs c = (None, c')" "in_sync (net c)"
  shows "\<exists>req p ans e. srv (peer (net c)) (mode # req) = (p, Inr (ans, e)) \<and> 4 \<le> length req \<and>
    net c' = (net c)\<lparr>peer := p, sent := sent (net c) @ mode # req, inp := ans, inp_end := e\<rparr> \<and>
    (lobs = [] \<longrightarrow> mode # req = transmission [(mode, Bytes (rowOut c))])"
proof -
  obtain e1 n1 where f: "WriteFrame mode (Bytes (rowOut c)) (net c) = (e1, n1)" by fastforce
  obtain e2 c2 where l: "writeLobs lobs (c\<lparr>net := n1\<rparr>) = (e2, c2)" by fastforce
  obtain e3 n3 where t: "WriteTerminator (net c2) = (e3, n3)" by fastforce
  have n1: "n1 = (net c)\<lparr>pend := frame_bytes mode (Bytes (rowOut c))\<rparr>"
    using f assms(2) by (simp add: WriteFrame_ok in_sync_def)
  have "queues n1 n3"
    using queues_writeLobs[OF l] queues_write[OF t[unfolded WriteTerminator_def]] queues_trans by fastforce
  then obtain bs where n3: "n3 = (net c)\<lparr>pend := frame_bytes mode (Bytes (rowOut c)) @ bs\<rparr>"
    using n1 by (auto simp: queues_def)
  let ?req = "int32_bytes (word_of_nat (4 + length (Bytes (rowOut c)))) @ Bytes (rowOut c) @ bs"
  have p3: "pend n3 = mode # ?req" by (simp add: n3 frame_bytes_def)
  have b: "lobs = [] \<longrightarrow> mode # ?req = transmission [(mode, Bytes (rowOut c))]"
  proof -
    have "lobs = [] \<longrightarrow> pend n3 = frame_bytes mode (Bytes (rowOut c)) @ [ModeNone]"
      using l t n1 assms(2) by (auto simp: WriteTerminator_def bw_write_def in_sync_def)
    then show ?thesis using p3 by (simp add: transmission_def)
  qed
  from assms(1) f l t obtain n4 where u: "bw_flush srv n3 = (None, n4)" "net c' = n4"
    by (auto simp: transmit_def Let_def split: prod.splits if_splits)
  have ne: "pend n3 \<noteq> []" by (simp add: p3)
  obtain p ans e where a: "srv (peer n3) (pend n3) = (p, Inr (ans, e))"
    "n4 = n3\<lparr>peer := p, sent := sent n3 @ pend n3, pend := [], inp := inp n3 @ ans, inp_end := e\<rparr>"
    by (rule flush_cases[OF u(1) ne])
  have "srv (peer (net c)) (mode # ?req) = (p, Inr (ans, e))"
    using a(1) unfolding p3 by (simp add: n3)
  moreover have "net c' = (net c)\<lparr>peer := p, sent := sent (net c) @ mode # ?req, inp := ans, inp_end := e\<rparr>"
    using assms(2) unfolding u(2) a(2) p3 by (simp add: n3 in_sync_def)
  ultimately show ?thesis
    using b by (intro exI[of _ ?req] exI[of _ p] exI[of _ ans] exI[of _ e]) simp
qed

lemma encoded_mode: "EncodePayload fmt_v req w = Some (None, w') \<Longrightarrow> Mode req \<noteq> ModeLargeObjectOp"
  by (auto simp: EncodePayload_def)

section \<open>Receiving\<close>

lemma map_sum_Inr: "map_sum f g x = Inr z \<longleftrightarrow> (\<exists>y. x = Inr y \<and> z = g y)"
  by (cases x) auto

lemma read_whole_frame:
  "whole_frame (mode, payload) \<Longrightarrow> ReadFrame (n\<lparr>inp := frame_bytes mode payload @ s\<rparr>) = (Inr (mode, payload), n\<lparr>inp := s\<rparr>)"
  by (rule ReadFrame_bytes) (simp_all add: whole_frame_def)

lemma chained_reads_all:
  assumes "list_all whole_frame fs" "receive_chained (n\<lparr>inp := transmission fs @ s\<rparr>) = Some (Inr rs, n')"
  shows "n' = n\<lparr>inp := s\<rparr>"
  using assms
proof (induction fs arbitrary: n rs)
  case Nil
  then show ?case by (simp add: transmission_def receive_chained.simps ReadFrame_none)
next
  case (Cons f fs)
  obtain mode payload where f: "f = (mode, payload)" by fastforce
  have w: "whole_frame (mode, payload)" "list_all whole_frame fs" using Cons.prems(1) f by simp_all
  note rd = read_whole_frame[OF w(1), where n = n and s = "transmission fs @ s"]
  have m: "mode \<noteq> ModeNone" using w(1) by (simp add: whole_frame_def)
  have t: "transmission (f # fs) @ s = frame_bytes mode payload @ transmission fs @ s" by (simp add: transmission_def f)
  show ?case
    using Cons.prems(2) Cons.IH[OF w(2)] rd m unfolding t
    by (auto simp: map_sum_Inr receive_chained.simps[of "n\<lparr>inp := frame_bytes mode payload @ transmission fs @ s\<rparr>"]
        split: bind_splits sum.splits)
qed

lemma receive_reads_all:
  assumes "inp (net c) = transmission (f # fs)" "list_all whole_frame (f # fs)" "receive c = Some (Inr r, c')"
  shows "c' = c\<lparr>net := (net c)\<lparr>inp := []\<rparr>\<rparr> \<and>
    (\<exists>m rs. DecodeResult (fst f) (snd f) = Some (Inr m) \<and> r = message.extend m \<lparr>Chained = rs\<rparr>)"
proof -
  obtain mode payload where f: "f = (mode, payload)" by fastforce
  have "ReadFrame ((net c)\<lparr>inp := frame_bytes mode payload @ transmission fs\<rparr>) =
      (Inr (mode, payload), (net c)\<lparr>inp := transmission fs\<rparr>)"
    using assms(2) f by (intro read_whole_frame) simp
  moreover have "(net c)\<lparr>inp := frame_bytes mode payload @ transmission fs\<rparr> = net c"
    using assms(1) f by (simp add: transmission_def)
  ultimately have "ReadFrame (net c) = (Inr (mode, payload), (net c)\<lparr>inp := transmission fs\<rparr>)" by simp
  then show ?thesis
    using assms(2,3) f chained_reads_all[where fs = fs and n = "net c" and s = "[]"]
    by (auto simp: receive_def map_sum_Inr split: bind_splits sum.splits)
qed

lemma lob_response_reads_all:
  assumes "whole_lob_answer ans" "readLobResponse (n\<lparr>inp := ans\<rparr>) = Some (Inr r, n')"
  shows "n' = n\<lparr>inp := []\<rparr>"
  using assms(1) unfolding whole_lob_answer_def
proof (elim disjE exE conjE)
  fix h sub v
  assume a: "length h = 20" "sub \<in> {LobRespSet, LobRespCreateBytes, LobRespCreateChars, LobRespTruncate}"
    "ans = lob_answer h sub [v] []"
  then show ?thesis
    using response_header[OF a(1), where n = n and sub = sub and rest = "int64_bytes v @ [ModeNone]"] assms(2)
    by (auto simp: lob_answer_def readLobBody_def readI64_bytes br_byte_def)
next
  fix h off b
  assume a: "length h = 20" "length (b :: byte list) < 2 ^ 62" "ans = lob_answer h LobRespGetBytes [off, word_of_nat (length b)] b"
  then show ?thesis using read_bytes_answer[OF a(1,2), where s = "[]" and n = n] assms(2) by simp
next
  fix h off us
  assume a: "length h = 20" "length (us :: u16 list) < 2 ^ 62"
    "ans = lob_answer h LobRespGetChars [off, word_of_nat (length us)] (utf16_bytes us)"
  then show ?thesis using read_chars_answer[OF a(1,2), where s = "[]" and n = n] assms(2) by simp
next
  fix bs assume "ans = ModeError # bs"
  then show ?thesis using assms(2)
    by (auto simp: readLobResponse_def br_byte_def readLobError_def Let_def split: sum.splits if_splits prod.splits bind_splits)
qed

section \<open>Valid connections are in sync\<close>

definition sound :: "'p conn \<Rightarrow> bool" where
  "sound c \<longleftrightarrow> (IsValid c \<longrightarrow> in_sync (net c))"

lemma sound_flags [simp]:
  "sound (c\<lparr>autocommit := a\<rparr>) = sound c" "sound (c\<lparr>txAlteredSession := b\<rparr>) = sound c"
  "sound (c\<lparr>lobIDSeq := s\<rparr>) = sound c" "sound (c\<lparr>broken := True\<rparr>)"
  by (simp_all add: sound_def IsValid_def)

text \<open>The socket after one flush that was answered and whose answer was read to its end.\<close>

definition exchanged :: "'p server \<Rightarrow> byte list \<Rightarrow> byte list \<Rightarrow> 'p net \<Rightarrow> 'p net \<Rightarrow> bool" where
  "exchanged srv req ans n n' \<longleftrightarrow> (\<exists>p e. srv (peer n) req = (p, Inr (ans, e)) \<and>
     n' = n\<lparr>peer := p, sent := sent n @ req, inp := [], inp_end := e\<rparr>)"

lemma exchanged_in_sync: "exchanged srv req ans n n' \<Longrightarrow> in_sync n \<Longrightarrow> in_sync n'"
  by (auto simp: exchanged_def in_sync_def)

lemma set_slots_mode [simp]: "Mode (set_slots vs req) = Mode req"
  by (simp add: set_slots_def)

lemma prepared_mode:
  "prepareArrayParams req = Some (Inr req1) \<Longrightarrow> Mode req1 = Mode req"
  "prepareLobParams req seq = Some (Inr (req2, lobs), seq') \<Longrightarrow> Mode req2 = Mode req"
  by (auto simp: prepareArrayParams_def prepareLobParams_def map_sum_Inr split: bind_splits if_splits sum.splits prod.splits)

lemma send_step:
  assumes "in_sync (net c)" "send fmt_v srv req c = Some (None, c')"
  shows "\<exists>bs p ans e. srv (peer (net c)) (Mode req # bs) = (p, Inr (ans, e)) \<and> 4 \<le> length bs \<and>
    net c' = (net c)\<lparr>peer := p, sent := sent (net c) @ Mode req # bs, inp := ans, inp_end := e\<rparr> \<and>
    Mode req \<noteq> ModeLargeObjectOp \<and> (\<forall>payload. encodes fmt_v req payload \<longrightarrow> Mode req # bs = transmission [(Mode req, payload)])"
  using assms(2)
proof (cases rule: send_cases)
  case (sent req1 req2 lobs seq w)
  have m: "Mode req2 = Mode req" using prepared_mode sent(1,2) by metis
  let ?c = "c\<lparr>lobIDSeq := seq, rowOut := w\<rparr>"
  obtain bs p ans e where t: "srv (peer (net c)) (Mode req # bs) = (p, Inr (ans, e))" "4 \<le> length bs"
    "net c' = (net c)\<lparr>peer := p, sent := net.sent (net c) @ Mode req # bs, inp := ans, inp_end := e\<rparr>"
    "lobs = [] \<longrightarrow> Mode req # bs = transmission [(Mode req, Bytes w)]"
    using transmit_flushes[OF sent(4)] assms(1) m by auto
  have "Mode req # bs = transmission [(Mode req, payload)]" if "encodes fmt_v req payload" for payload
    using that prepare_plain[of req] sent(1-3) t(4) by (auto simp: encodes_def Bytes_def)
  then show ?thesis using t(1-3) encoded_mode[OF sent(3)] m by metis
qed auto

text \<open>One request and its answer, the first message of which is \<open>m\<close>.\<close>

definition answered :: "'p server \<Rightarrow> (gval \<Rightarrow> string) \<Rightarrow> message \<Rightarrow> 'p net \<Rightarrow> 'p net \<Rightarrow> message \<Rightarrow> bool" where
  "answered srv fmt_v req n n' m \<longleftrightarrow> (\<exists>bs f fs. exchanged srv (Mode req # bs) (transmission (f # fs)) n n' \<and>
     Mode req \<noteq> ModeLargeObjectOp \<and> list_all whole_frame (f # fs) \<and> DecodeResult (fst f) (snd f) = Some (Inr m) \<and>
     (\<forall>payload. encodes fmt_v req payload \<longrightarrow> Mode req # bs = transmission [(Mode req, payload)]))"

lemma answered_in_sync: "answered srv fmt_v req n n' m \<Longrightarrow> in_sync n \<Longrightarrow> in_sync n'"
  using exchanged_in_sync by (auto simp: answered_def)

lemma exchange_step:
  assumes "orderly srv" "in_sync (net c)" "exchange fmt_v srv req c = Some (Inr r, c')"
  shows "\<exists>m rs. answered srv fmt_v req (net c) (net c') m \<and> r = message.extend m \<lparr>Chained = rs\<rparr>"
  using assms(3)
proof (cases rule: exchange_cases)
  case (received c1)
  obtain bs p ans e where t: "srv (peer (net c)) (Mode req # bs) = (p, Inr (ans, e))" "4 \<le> length bs"
    "net c1 = (net c)\<lparr>peer := p, sent := sent (net c) @ Mode req # bs, inp := ans, inp_end := e\<rparr>"
    "Mode req \<noteq> ModeLargeObjectOp" "\<forall>payload. encodes fmt_v req payload \<longrightarrow> Mode req # bs = transmission [(Mode req, payload)]"
    using send_step[OF assms(2) received(1)] by blast
  have "Mode req # bs \<noteq> int32_bytes NetworkCompatibilityVersionInt"
    using t(2) length_int32_bytes[of NetworkCompatibilityVersionInt] by (metis Suc_n_not_le_n length_Cons)
  moreover have "answers (Mode req # bs) ans" using assms(1) t(1) unfolding orderly_def by blast
  ultimately obtain f fs where a: "ans = transmission (f # fs)" "list_all whole_frame (f # fs)"
    using t(4) by (auto simp: answers_def)
  have i: "inp (net c1) = transmission (f # fs)" using t(3) a(1) by simp
  note rd = receive_reads_all[OF i a(2) received(2)]
  have "exchanged srv (Mode req # bs) ans (net c) (net c')"
    using t(1,3) rd unfolding exchanged_def by (intro exI[of _ p] exI[of _ e]) simp
  then show ?thesis using a rd t(4,5) unfolding answered_def by blast
qed simp

lemma exchange_in_sync:
  "orderly srv \<Longrightarrow> in_sync (net c) \<Longrightarrow> exchange fmt_v srv req c = Some (Inr r, c') \<Longrightarrow> in_sync (net c')"
  using exchange_step[of srv c fmt_v req r c'] answered_in_sync by blast

text \<open>A call that leaves the connection valid: nothing was done, or one exchange, whose first message decides the result.\<close>

lemma exec_step:
  assumes "orderly srv" "sound c" "execCtx fmt_v srv ctx req c = Some (res, c')" "IsValid c'"
  shows "ctx_entry ctx (sent (net c)) \<noteq> None \<and> c' = c \<and> isl res \<or>
    (\<exists>m rs. answered srv fmt_v req (net c) (net c') m \<and>
      res = (if Mode m = ModeError then Inl (ServerError (MessageText m) (SQLState m) (ErrorCode m))
        else Inr (message.extend m \<lparr>Chained = rs\<rparr>)))"
proof -
  have v: "\<not> conn_closed c" "\<not> broken c" using assms(3,4) evolves_execCtx[OF assms(3)] by (auto simp: IsValid_def evolves_def)
  then have s: "in_sync (net c)" using assms(2) by (simp add: sound_def IsValid_def)
  show ?thesis
  proof (cases "ctx_entry ctx (sent (net c))")
    case None
    from assms(3,4) v None obtain r where x: "exchange fmt_v srv req c = Some (Inr r, c')"
      and r: "res = (if Mode r = ModeError then Inl (errorFromResult r) else Inr r)"
      by (auto simp: execCtx_def IsValid_def split: bind_splits sum.splits)
    show ?thesis using exchange_step[OF assms(1) s x] r by (auto simp: errorFromResult_def)
  qed (use assms(3) v in \<open>auto simp: execCtx_def\<close>)
qed

lemma exec_sound:
  assumes "orderly srv" "sound c"
  shows "leaves sound snd (execCtx fmt_v srv ctx req c)"
proof -
  have "in_sync (net c')" if x: "execCtx fmt_v srv ctx req c = Some (res, c')" "IsValid c'" for res c'
  proof -
    have "in_sync (net c)"
      using assms(2) x evolves_execCtx[OF x(1)] by (auto simp: sound_def IsValid_def evolves_def)
    then show ?thesis using exec_step[OF assms x] answered_in_sync by blast
  qed
  then show ?thesis by (auto simp: leaves_def sound_def)
qed

lemma lob_step:
  assumes "orderly srv" "live c" "writeReq c = (net c)\<lparr>pend := q\<rparr>" "q \<noteq> []" "hd q = ModeLargeObjectOp"
    and "lobExchange srv writeReq c = Some (Inr r, c')"
  shows "\<exists>ans. exchanged srv (q @ [ModeNone]) ans (net c) (net c')"
proof -
  have s: "pend (net c) = []" "werr (net c) = None" "inp (net c) = []" "\<not> conn_closed c" "\<not> broken c"
    using assms(2) live_not_unusable by (auto simp: live_def in_sync_def)
  let ?n = "(net c)\<lparr>pend := q @ [ModeNone]\<rparr>"
  obtain n1 n2 where f: "bw_flush srv ?n = (None, n1)" and r: "readLobResponse n1 = Some (Inr r, n2)" "net c' = n2"
    using assms(3,6) s
    by (auto simp: lobExchange_def WriteTerminator_def bw_write_def split: option.splits prod.splits bind_splits sum.splits)
  have ne: "pend ?n \<noteq> []" by simp
  obtain p ans e where a: "srv (peer ?n) (pend ?n) = (p, Inr (ans, e))"
    "n1 = ?n\<lparr>peer := p, sent := sent ?n @ pend ?n, pend := [], inp := inp ?n @ ans, inp_end := e\<rparr>"
    by (rule flush_cases[OF f ne])
  have "answers (pend ?n) ans" using assms(1) a(1) ne unfolding orderly_def by blast
  moreover have "hd (pend ?n) = ModeLargeObjectOp" using assms(4,5) by simp
  moreover have "hd (int32_bytes NetworkCompatibilityVersionInt) \<noteq> ModeLargeObjectOp" by simp
  ultimately have "whole_lob_answer ans" unfolding answers_def by (metis (full_types))
  moreover have "n1 = (net c)\<lparr>peer := p, sent := sent (net c) @ q @ [ModeNone], inp_end := e, inp := ans\<rparr>"
    using a(2) s by (cases "net c") simp
  ultimately have "n2 = (net c)\<lparr>peer := p, sent := sent (net c) @ q @ [ModeNone], inp_end := e, inp := []\<rparr>"
    using lob_response_reads_all r(1) by fastforce
  then show ?thesis using r(2) a(1) unfolding exchanged_def by auto
qed

lemma lob_sound:
  assumes "orderly srv" "sound c" "\<And>c. live c \<Longrightarrow> \<exists>q. writeReq c = (net c)\<lparr>pend := q\<rparr> \<and> q \<noteq> [] \<and> hd q = ModeLargeObjectOp"
  shows "leaves sound snd (lobExchange srv writeReq c)"
proof (cases "IsValid c")
  case True
  then have l: "live c" using assms(2) by (simp add: live_def sound_def)
  obtain q where q: "writeReq c = (net c)\<lparr>pend := q\<rparr>" "q \<noteq> []" "hd q = ModeLargeObjectOp" using assms(3)[OF l] by blast
  have "in_sync (net c')" if "lobExchange srv writeReq c = Some (Inr r, c')" for r c'
    using lob_step[OF assms(1) l q that] l exchanged_in_sync by (auto simp: live_def)
  moreover have "broken c'" if "lobExchange srv writeReq c = Some (Inl e, c')" for e c'
    using that True
    by (auto simp: lobExchange_def IsValid_def split: option.splits prod.splits bind_splits sum.splits)
  ultimately show ?thesis by (auto simp: leaves_def sound_def IsValid_def split: sum.splits) (metis sum.exhaust)
next
  case False
  then show ?thesis using assms(2) by (auto simp: IsValid_def lobExchange_def)
qed

lemma lob_requests:
  assumes "live c"
  shows "\<exists>b. lobLengthRequest i c = (net c)\<lparr>pend := b\<rparr> \<and> b \<noteq> [] \<and> hd b = ModeLargeObjectOp"
    and "\<exists>b. lobBlockRequest q i off len c = (net c)\<lparr>pend := b\<rparr> \<and> b \<noteq> [] \<and> hd b = ModeLargeObjectOp"
proof -
  have b: "butlast (lob_frame s r i vs) \<noteq> [] \<and> hd (butlast (lob_frame s r i vs)) = ModeLargeObjectOp" for s r vs
    by (auto simp: lob_frame_def butlast_append)
  show "\<exists>b. lobLengthRequest i c = (net c)\<lparr>pend := b\<rparr> \<and> b \<noteq> [] \<and> hd b = ModeLargeObjectOp"
    "\<exists>b. lobBlockRequest q i off len c = (net c)\<lparr>pend := b\<rparr> \<and> b \<noteq> [] \<and> hd b = ModeLargeObjectOp"
    using request_bytes[OF assms] b by blast+
qed

lemma leaves_under: "(P \<Longrightarrow> leaves I pos q) \<Longrightarrow> leaves (\<lambda>c. P \<longrightarrow> I c) pos q"
  by (auto simp: leaves_def)

interpretation sync: conn_invariant lib srv "\<lambda>c. orderly srv \<longrightarrow> sound c" False
  by unfold_locales (auto intro!: leaves_under exec_sound lob_sound lob_requests)

section \<open>Other invariants of the exchanges\<close>

lemma queues_lob_requests: "queues (net c) (lobLengthRequest i c)" "queues (net c) (lobBlockRequest q i off len c)"
  unfolding lobLengthRequest_def lobBlockRequest_def
  by (meson queues_header queues_ints(1) queues_trans)+

lemma same_broken: "c\<lparr>net := n, broken := broken c\<rparr> = c\<lparr>net := n\<rparr>"
  by (cases c) simp

lemma lobExchange_grows:
  assumes "lobExchange srv writeReq c = Some (res, c')" "queues (net c) (writeReq c)"
  shows "c' = c\<lparr>net := net c', broken := broken c'\<rparr> \<and> net_grows (net c) (net c')"
proof (cases "unusable c")
  case False
  obtain e1 n1 where w: "WriteTerminator (writeReq c) = (e1, n1)" by fastforce
  obtain e2 n2 where f: "bw_flush srv n1 = (e2, n2)" by fastforce
  have 1: "net_grows (net c) n1"
    using assms(2) queues_write[OF w[unfolded WriteTerminator_def]] queues_trans queues_grows by blast
  have 2: "net_grows (net c) n2" using 1 net_grows_flush[OF f] net_grows_trans by blast
  then have "net_grows n2 n \<Longrightarrow> net_grows (net c) n" for n using net_grows_trans by blast
  then show ?thesis
    using assms(1) False w f 1 2
    by (auto simp: lobExchange_def unusable_def same_broken dest!: consumes_lob_response net_grows_consumes
        split: option.splits bind_splits sum.splits)
qed (use assms(1) in \<open>auto simp: lobExchange_def unusable_def\<close>)

text \<open>\<open>belongs c0 c\<close>: \<open>c\<close> is the session of \<open>c0\<close>, and nothing that was sent is unsent.\<close>

definition belongs :: "'p conn \<Rightarrow> 'p conn \<Rightarrow> bool" where
  "belongs c0 c \<longleftrightarrow> cfg c = cfg c0 \<and> sessionID c = sessionID c0 \<and> databaseID c = databaseID c0 \<and>
     randomID c = randomID c0 \<and> serverProps c = serverProps c0 \<and> (\<exists>bs. sent (net c) = sent (net c0) @ bs)"

lemma belongs_refl [simp]: "belongs c c"
  by (simp add: belongs_def)

lemma belongs_exec: "execCtx fmt_v srv ctx req c = Some (res, c') \<Longrightarrow> belongs c0 c \<Longrightarrow> belongs c0 c'"
  using evolves_execCtx[of fmt_v srv ctx req c res c'] same_session_execCtx[of fmt_v srv ctx req c res c']
  by (auto simp: belongs_def evolves_def same_session_def net_grows_def)

lemma belongs_lob:
  "lobExchange srv writeReq c = Some (res, c') \<Longrightarrow> queues (net c) (writeReq c) \<Longrightarrow> belongs c0 c \<Longrightarrow> belongs c0 c'"
  using lobExchange_grows[of srv writeReq c res c'] by (cases c; cases c') (auto simp: belongs_def net_grows_def)

interpretation owned: conn_invariant lib srv "belongs c0" False
  by unfold_locales
    (auto simp: leaves_def intro: belongs_exec belongs_lob queues_lob_requests, auto simp: belongs_def)

text \<open>An unusable connection is left as it is.\<close>

interpretation silent: conn_invariant lib srv "\<lambda>c. unusable c \<and> net c = n0 \<and> (conn_closed c \<longleftrightarrow> closed)" False
  by unfold_locales (auto simp: leaves_def unusable_def execCtx_def lobExchange_def)

end
