(* ===== verification/ArrayProps.thy ===== *)
theory ArrayProps
  imports ArrayText
begin

unbundle bit_operations_syntax

text \<open>
  The text form of arrays is lossless: what \<^verbatim>\<open>encodeArrayText\<close> writes, \<^verbatim>\<open>ScanArray\<close> reads back, whatever
  commas, quotes, brackets or bytes the strings hold; and where it is not.
\<close>

section \<open>Characters and bytes\<close>

lemma string_of_bytes_simps [simp]:
  "string_of_bytes [] = []" "string_of_bytes (b # bs) = char_of (unat b) # string_of_bytes bs"
  "string_of_bytes (xs @ ys) = string_of_bytes xs @ string_of_bytes ys" "length (string_of_bytes bs) = length bs"
  by (simp_all add: string_of_bytes_def)

definition harmless :: "byte \<Rightarrow> bool" where
  "harmless b \<longleftrightarrow> b \<noteq> 0x22 \<and> b \<noteq> 0x5C"

lemma quote_chars [simp]: "char_of (34::nat) = CHR 0x22" "char_of (92::nat) = CHR 0x5C"
  by code_simp+

lemma harmless_char: "harmless b \<Longrightarrow> char_of (unat b) \<noteq> CHR 0x22 \<and> char_of (unat b) \<noteq> CHR 0x5C"
  using of_char_char_of[of b] by (auto simp: harmless_def)

lemma harmless_digit: "d < 16 \<Longrightarrow> harmless (hex_digit d)"
  using unat_hex_digit[of d] by (auto simp: harmless_def split: if_splits)

lemma harmless_digits: "list_all harmless (hex_digits k v)"
  by (induction k arbitrary: v) (simp_all add: harmless_digit)

lemma encode_rune_bytes:
  assumes "scalar r"
  shows "encode_rune r = [ucast r] \<and> unat (ucast r :: byte) = unat r \<and> unat r < 128 \<or> (\<forall>b\<in>set (encode_rune r). 0x80 \<le> b)"
  using assms by (auto simp: encode_rune_cases word_le_nat_alt rune_fields byte_or_lead unat_drop_bit_div scalar_def
      unsigned_ucast_eq take_bit_eq_mod)

lemma harmless_rune:
  assumes "scalar r" "r \<noteq> 0x22" "r \<noteq> 0x5C"
  shows "list_all harmless (encode_rune r)"
  using encode_rune_bytes[OF assms(1)]
proof
  assume *: "encode_rune r = [ucast r] \<and> unat (ucast r :: byte) = unat r \<and> unat r < 128"
  have "unat r \<noteq> 34 \<and> unat r \<noteq> 92" using assms(2,3) by (auto simp: word_unat_eq_iff)
  then show ?thesis using * by (auto simp: harmless_def word_unat_eq_iff)
next
  assume "\<forall>b\<in>set (encode_rune r). 0x80 \<le> b"
  then show ?thesis by (auto simp: list_all_iff harmless_def)
qed

section \<open>Finding the closing quote\<close>

lemma close_quote_harmless:
  "list_all harmless bs \<Longrightarrow> close_quote (string_of_bytes bs @ t) = map_option (\<lambda>k. length bs + k) (close_quote t)"
  by (induction bs; cases "close_quote t") (auto dest!: harmless_char)

lemma close_quote_hidden: "close_quote (CHR 0x5C # d # t) = map_option (\<lambda>k. k + 2) (close_quote t)"
  by simp

definition skips :: "byte list \<Rightarrow> bool" where
  "skips bs \<longleftrightarrow> (\<forall>t. close_quote (string_of_bytes bs @ t) = map_option (\<lambda>k. length bs + k) (close_quote t))"

lemma skipsI: "list_all harmless bs \<Longrightarrow> skips bs" "list_all harmless bs \<Longrightarrow> skips (0x5C # b # bs)"
proof -
  assume "list_all harmless bs"
  then show "skips bs" "skips (0x5C # b # bs)"
    by (auto simp: skips_def close_quote_harmless option.map_comp comp_def)
qed

lemma skips_append: "skips xs \<Longrightarrow> skips ys \<Longrightarrow> skips (xs @ ys)"
  by (auto simp: skips_def option.map_comp comp_def add.assoc)

lemma skips_escape: "scalar r \<Longrightarrow> skips (escape_rune p r)"
  by (auto simp: escape_rune_def intro!: skipsI harmless_rune harmless_digits)

lemma skips_quote: "skips (quote_bytes p bs)"
proof (induction p bs rule: quote_bytes.induct)
  case (1 p)
  then show ?case by (simp add: skipsI)
next
  case (2 p b bs)
  obtain r w where d: "DecodeRune (b # bs) = (r, w)" by fastforce
  have "scalar r" using DecodeRune_scalar[of "b # bs"] d by simp
  note q = quote_bytes.simps(2)[of p b bs, unfolded d prod.case Let_def]
  show ?case
  proof (cases "w = 1 \<and> r = RuneError")
    case True
    have "skips ((0x5C # 0x78 # hex_digits 2 (unat b)) @ quote_bytes p bs)"
      using 2(1)[OF d[symmetric] refl True] by (intro skips_append skipsI(2) harmless_digits)
    then show ?thesis unfolding q if_P[OF True] by simp
  next
    case False
    then show ?thesis using 2(2)[OF d[symmetric] refl False] \<open>scalar r\<close> unfolding q if_not_P[OF False]
      by (intro skips_append skips_escape)
  qed
qed

lemma close_quote_quote: "close_quote (string_of_bytes (quote_bytes p bs) @ CHR 0x22 # t) = Some (length (quote_bytes p bs))"
  using skips_quote[of p bs] by (simp add: skips_def)

section \<open>Parsing one element\<close>

text \<open>Text that is an element of its own: not empty, without blanks, commas and an opening quote.\<close>

definition bare :: "string \<Rightarrow> bool" where
  "bare t \<longleftrightarrow> t \<noteq> [] \<and> list_all (\<lambda>c. inky c \<and> c \<noteq> CHR '','') t \<and> hd t \<noteq> CHR 0x22"

text \<open>What follows an element: nothing, or a comma and the rest.\<close>

definition follows :: "string \<Rightarrow> string \<Rightarrow> bool" where
  "follows u rest \<longleftrightarrow> (u = [] \<and> rest = []) \<or> u = CHR '','' # rest"

lemma parse_quoted:
  assumes "\<not> p 0x0A" "follows u rest"
  shows "parse_element (Quote p x @ u) = Inr (\<lparr>raw = x, quoted = True, null = False\<rparr>, rest)"
proof -
  define q where "q = string_of_bytes (quote_bytes p (bytes_of_string x))"
  have Q: "Quote p x = CHR 0x22 # q @ [CHR 0x22]" by (simp add: Quote_def q_def)
  have c: "close_quote (q @ CHR 0x22 # u) = Some (length q)"
    using close_quote_quote[of p "bytes_of_string x" u] by (simp add: q_def)
  have b: "dropWhile blank (Quote p x @ u) = Quote p x @ u" by (simp add: Q blank_def)
  have t: "take (length q + 2) (Quote p x @ u) = Quote p x" "drop (length q + 2) (Quote p x @ u) = u"
    by (simp_all add: Q)
  have d: "drop 1 (dropWhile (\<lambda>c. c \<noteq> CHR '','') u) = rest" using assms(2) by (auto simp: follows_def)
  have h: "Quote p x @ u \<noteq> []" "hd (Quote p x @ u) = CHR 0x22" "tl (Quote p x @ u) = q @ CHR 0x22 # u" by (simp_all add: Q)
  show ?thesis
    unfolding parse_element_def Let_def b h(2,3) c option.case t d Unquote_Quote[of p, OF assms(1)] using h(1) by simp
qed

lemma parse_bare:
  assumes "bare t" "follows u rest"
  shows "parse_element (t @ u) = Inr (if t = arrayNullToken then \<lparr>raw = [], quoted = False, null = True\<rparr>
    else \<lparr>raw = t, quoted = False, null = False\<rparr>, rest)"
proof -
  have t: "t \<noteq> []" "hd t \<noteq> CHR 0x22" "CHR '','' \<notin> set t" "\<forall>c\<in>set t. inky c" using assms(1) by (auto simp: bare_def list_all_iff)
  have "\<not> blank (hd t)" using t(1,4) by (cases t) (auto simp: blank_def inky_def)
  then have b: "dropWhile blank (t @ u) = t @ u" using t(1) by (cases t) auto
  have s: "TrimSpace t = t" using t(1,4) by (intro TrimSpace_inky) auto
  have "hd (t @ u) \<noteq> CHR 0x22" using t(1,2) by simp
  moreover have "(case IndexByte (t @ u) (CHR '','') of None \<Rightarrow> (t @ u, []) | Some j \<Rightarrow> (take j (t @ u), drop (j + 1) (t @ u))) = (t, rest)"
    using assms(2) t(3) by (auto simp: follows_def IndexByte_None IndexByte_at)
  ultimately show ?thesis unfolding parse_element_def Let_def b by (simp add: s)
qed

section \<open>Parsing the whole text\<close>

text \<open>The values whose text can be told apart again, and the element each of them becomes.\<close>

fun elem_of :: "text_lib \<Rightarrow> gval \<Rightarrow> array_elem" where
  "elem_of lib VNil = \<lparr>raw = [], quoted = False, null = True\<rparr>"
| "elem_of lib (VString x) = \<lparr>raw = x, quoted = True, null = False\<rparr>"
| "elem_of lib (VTime x) = \<lparr>raw = FormatTime lib x, quoted = True, null = False\<rparr>"
| "elem_of lib v = \<lparr>raw = encodeArrayElement lib v, quoted = False, null = False\<rparr>"

definition textual :: "text_lib \<Rightarrow> gval \<Rightarrow> bool" where
  "textual lib v \<longleftrightarrow> (case v of
      VNil \<Rightarrow> True | VString _ \<Rightarrow> True | VTime _ \<Rightarrow> True | VInt64 _ \<Rightarrow> True | VBool _ \<Rightarrow> True
    | VBytes b \<Rightarrow> b \<noteq> []
    | VFloat64 x \<Rightarrow> bare (FormatFloat lib x) \<and> FormatFloat lib x \<noteq> arrayNullToken
    | _ \<Rightarrow> False)"

lemma bare_int: "bare (int_string v) \<and> int_string v \<noteq> arrayNullToken"
proof -
  have d: "is_digit c \<Longrightarrow> inky c \<and> c \<noteq> CHR '','' \<and> c \<noteq> CHR 0x22 \<and> c \<noteq> CHR ''N''" for c
    using is_digit_inky by (auto simp: is_digit_def)
  have n: "list_all (\<lambda>c. inky c \<and> c \<noteq> CHR '','') (nat_string n)" "hd (nat_string n) \<noteq> CHR 0x22" "hd (nat_string n) \<noteq> CHR ''N''" for n
    using nat_string_is_digit[of _ n] d d[OF nat_string_is_digit[OF hd_in_set[OF nat_string_not_Nil, of n]]]
    by (auto simp: list_all_iff)
  have "nat_string n \<noteq> arrayNullToken" for n using n(3)[of n] by auto
  moreover have "bare (nat_string n)" for n using n by (simp add: bare_def)
  moreover have "bare (CHR ''-'' # nat_string n)" for n using n by (simp add: bare_def inky_def)
  ultimately show ?thesis by (simp add: int_string_def)
qed

lemma hex_char: "d < 16 \<Longrightarrow> inky (char_of (unat (hex_digit d))) \<and> char_of (unat (hex_digit d)) \<noteq> CHR '','' \<and>
    char_of (unat (hex_digit d)) \<noteq> CHR 0x22 \<and> char_of (unat (hex_digit d)) \<noteq> CHR ''N''"
  by (simp add: unat_hex_digit inky_def) (auto simp: char_of_eq_iff take_bit_nat_eq_self)

lemma bare_hex:
  assumes "b \<noteq> []"
  shows "bare (string_of_bytes (hex_encode b)) \<and> string_of_bytes (hex_encode b) \<noteq> arrayNullToken"
proof -
  have two: "hex_digits 2 v = [hex_digit (v div 16 mod 16), hex_digit (v mod 16)]" for v by (simp add: numeral_2_eq_2)
  have "list_all (\<lambda>c. inky c \<and> c \<noteq> CHR '','' \<and> c \<noteq> CHR 0x22 \<and> c \<noteq> CHR ''N'') (string_of_bytes (hex_encode b))"
    by (induction b) (simp_all add: hex_encode_def two hex_char)
  moreover have "string_of_bytes (hex_encode b) \<noteq> []" using assms by (cases b) (simp_all add: hex_encode_def two)
  ultimately show ?thesis by (cases "string_of_bytes (hex_encode b)") (auto simp: bare_def list_all_iff)
qed

lemma parse_encoded:
  assumes "textual lib v" "\<not> IsPrint lib 0x0A" "follows u rest"
  shows "parse_element (encodeArrayElement lib v @ u) = Inr (elem_of lib v, rest)"
proof -
  have b: "bare ''NULL''" "bare ''true''" "bare ''false''" by (simp_all add: bare_def inky_def)
  show ?thesis
    using assms(1) parse_quoted[of "IsPrint lib", OF assms(2,3)] parse_bare[OF _ assms(3)] bare_int bare_hex
      b[THEN parse_bare[OF _ assms(3)], simplified]
    by (cases v) (auto simp: textual_def)
qed

lemma encoded_start: "textual lib v \<Longrightarrow> encodeArrayElement lib v \<noteq> [] \<and> inky (hd (encodeArrayElement lib v))"
proof -
  assume t: "textual lib v"
  have n: "bare s \<Longrightarrow> s \<noteq> [] \<and> inky (hd s)" for s by (cases s) (auto simp: bare_def)
  show ?thesis
    using t n[of "int_string i" for i] n[of "string_of_bytes (hex_encode b)" for b] n[of "FormatFloat lib x" for x] bare_int bare_hex
    by (cases v) (auto simp: textual_def Quote_def inky_def)
qed

lemma parse_elements_joined:
  assumes "list_all (textual lib) (v # vs)" "\<not> IsPrint lib 0x0A"
  shows "parse_elements (Join '','' (map (encodeArrayElement lib) (v # vs))) = Inr (map (elem_of lib) (v # vs))"
  using assms(1)
proof (induction vs arbitrary: v)
  case Nil
  have "parse_element (encodeArrayElement lib v @ []) = Inr (elem_of lib v, [])"
    using Nil assms(2) by (intro parse_encoded) (simp_all add: follows_def)
  moreover have "parse_elements [] = Inr []" by (simp add: parse_elements.simps)
  ultimately show ?case using Nil encoded_start[of lib v] by (simp add: parse_elements.simps[of "encodeArrayElement lib v"])
next
  case (Cons w vs)
  let ?rest = "Join '','' (map (encodeArrayElement lib) (w # vs))"
  have "parse_element (encodeArrayElement lib v @ '','' @ ?rest) = Inr (elem_of lib v, ?rest)"
    using Cons(2) assms(2) by (intro parse_encoded) (simp_all add: follows_def)
  moreover have "parse_elements ?rest = Inr (map (elem_of lib) (w # vs))" using Cons by simp
  ultimately show ?case
    using Cons(2) encoded_start[of lib v] by (simp add: parse_elements.simps[of "encodeArrayElement lib v @ _"])
qed

lemma drop_prefixes_inky:
  "\<forall>p\<in>set ps. \<forall>c\<in>set p. \<not> inky c \<Longrightarrow> drop_prefixes ps s = [] \<Longrightarrow> \<forall>c\<in>set s. \<not> inky c"
proof (induction ps s rule: drop_prefixes.induct)
  case (1 ps s)
  show ?case
  proof (cases "find (\<lambda>p. p \<noteq> [] \<and> HasPrefix s p) ps")
    case None
    then show ?thesis using 1(3) by (subst (asm) drop_prefixes.simps) simp
  next
    case (Some p)
    then have "p \<in> set ps" "take (length p) s = p" by (auto simp: find_Some_iff HasPrefix_def)
    moreover have "drop_prefixes ps (drop (length p) s) = []" using 1(3) Some by (subst (asm) drop_prefixes.simps) simp
    then have "\<forall>c\<in>set (drop (length p) s). \<not> inky c" using 1(1)[OF Some 1(2)] by blast
    moreover have "set s = set (take (length p) s) \<union> set (drop (length p) s)"
      by (simp only: set_append[symmetric] append_take_drop_id)
    ultimately show ?thesis using 1(2) by auto
  qed
qed

lemma TrimSpace_start:
  assumes "s \<noteq> []" "inky (hd s)"
  shows "TrimSpace s \<noteq> []"
proof
  assume *: "TrimSpace s = []"
  have "drop_prefixes space_bytes s = s"
  proof (rule drop_prefixes_none)
    fix p assume "p \<in> set space_bytes"
    then have "p \<noteq> []" "\<not> inky (hd p)" using space_first_last by auto
    then show "p = [] \<or> \<not> HasPrefix s p"
      using assms by (cases p; cases s) (auto simp: HasPrefix_def)
  qed
  then have "drop_prefixes (map rev space_bytes) (rev s) = []" using * by (simp add: TrimSpace_def)
  moreover have "\<forall>p\<in>set (map rev space_bytes). \<forall>c\<in>set p. \<not> inky c" by (simp add: space_bytes_def inky_def)
  ultimately have "\<forall>c\<in>set (rev s). \<not> inky c" using drop_prefixes_inky by blast
  then show False using assms by (cases s) auto
qed

lemma Join_start: "Join sep (x # xs) \<noteq> [] \<and> hd (Join sep (x # xs)) = hd x" if "x \<noteq> []"
  using that by (cases xs) auto

lemma array_text_elements:
  assumes "list_all (textual lib) vs" "\<not> IsPrint lib 0x0A"
  shows "parseArrayElements (encodeArrayText lib vs) = Inr (map (elem_of lib) vs)"
proof -
  let ?body = "Join '','' (map (encodeArrayElement lib) vs)"
  have t: "encodeArrayText lib vs = ''['' @ ?body @ '']''" by (simp add: encodeArrayText_def)
  have "TrimSpace (''['' @ ?body @ '']'') = ''['' @ ?body @ '']''" by (rule TrimSpace_inky) (simp_all add: inky_def)
  then have p: "parseArrayElements (encodeArrayText lib vs) = (if TrimSpace ?body = [] then Inr [] else parse_elements ?body)"
    by (simp add: parseArrayElements_def t HasPrefix_def HasSuffix_def Let_def)
  show ?thesis
  proof (cases vs)
    case Nil
    then show ?thesis using p by simp
  next
    case (Cons v ws)
    have "encodeArrayElement lib v \<noteq> [] \<and> inky (hd (encodeArrayElement lib v))" using assms(1) Cons by (intro encoded_start) simp
    then have "TrimSpace ?body \<noteq> []"
      using Join_start[of "encodeArrayElement lib v" "'',''" "map (encodeArrayElement lib) ws"] Cons
      by (intro TrimSpace_start) simp_all
    then show ?thesis using parse_elements_joined[of lib v ws] assms Cons p by simp
  qed
qed

section \<open>Scanning back\<close>

lemma hex_decode_encode: "hex_decode (hex_encode b) = Some b"
proof (induction b)
  case (Cons x b)
  have "unat x div 16 < 16" "unat x mod 16 < 16" using byte_lt[of x] by simp_all
  moreover have "16 * (unat x div 16) + unat x mod 16 = unat x" by simp
  ultimately show ?case using Cons by (simp add: hex_encode_def numeral_2_eq_2)
qed (simp add: hex_encode_def)

text \<open>
  The element that a value of an array is scanned back to, per type of the slice.  Integers have to fit the
  element type, floats and times have to be printed by the library so that it can read them again, and
  for a \<^verbatim>\<open>[]any\<close> the text must not read as a value of another type: a float not as an integer, a bool not
  as a float.  There is no such element for nested arrays, for the empty byte string and where the types
  do not match.
\<close>

definition scans_to :: "text_lib \<Rightarrow> elem_kind \<Rightarrow> gval \<Rightarrow> elem_val \<Rightarrow> bool" where
  "scans_to lib k v x \<longleftrightarrow> (case (k, v) of
      (_, VNil) \<Rightarrow> x = zero_elem k
    | (KString, VString s) \<Rightarrow> x = DString s
    | (KInt w, VInt64 n) \<Rightarrow> 0 < w \<and> - (2 ^ (w - 1)) \<le> sint n \<and> sint n < 2 ^ (w - 1) \<and> x = DInt (sint n)
    | (KUint w, VInt64 n) \<Rightarrow> 0 \<le> sint n \<and> sint n < 2 ^ w \<and> x = DUint (sint n)
    | (KBool, VBool b) \<Rightarrow> x = DBool b
    | (KBytes, VBytes b) \<Rightarrow> b \<noteq> [] \<and> x = DBytes b
    | (KFloat64, VFloat64 f) \<Rightarrow> textual lib v \<and> ParseFloat lib (FormatFloat lib f) = Some f \<and> x = DFloat64 f
    | (KTime, VTime t) \<Rightarrow> ParseTime lib (FormatTime lib t) = Some t \<and> x = DTime t
    | (KInterface, VString s) \<Rightarrow> x = DInterface v
    | (KInterface, VInt64 n) \<Rightarrow> x = DInterface v
    | (KInterface, VFloat64 f) \<Rightarrow> textual lib v \<and> ParseInt64 (FormatFloat lib f) = None \<and>
        ParseFloat lib (FormatFloat lib f) = Some f \<and> x = DInterface v
    | (KInterface, VBool b) \<Rightarrow> ParseFloat lib (if b then ''true'' else ''false'') = None \<and> x = DInterface v
    | _ \<Rightarrow> False)"

lemma scans_textual: "scans_to lib k v x \<Longrightarrow> textual lib v"
  by (auto simp: scans_to_def textual_def split: gval.splits elem_kind.splits)

lemma ParseUint64_int_string: "0 \<le> sint n \<Longrightarrow> ParseUint64 (int_string (sint (n :: i64))) = Some (sint n)"
  using sint_lt[of n] by (simp add: ParseUint64_def int_string_def)

lemma scans_element:
  assumes "scans_to lib k v x"
  shows "(if null (elem_of lib v) then Inr (zero_elem k) else setArrayElement lib k (elem_of lib v)) = Inr x"
proof -
  have s: "signed_take_bit (w - Suc 0) (sint n) = sint n" if "- (2 ^ (w - Suc 0)) \<le> sint n" "sint n < 2 ^ (w - Suc 0)" for n :: i64 and w
    using that by (simp add: signed_take_bit_int_eq_self)
  have u: "take_bit w (sint n) = sint n" if "0 \<le> sint n" "sint n < 2 ^ w" for n :: i64 and w
    using that by (simp add: take_bit_int_eq_self)
  have b: "ParseBool ''true'' = Some True" "ParseBool ''false'' = Some False"
    "ParseInt64 ''true'' = None" "ParseInt64 ''false'' = None" by code_simp+
  show ?thesis
    using assms
    by (cases v; cases k)
      (auto simp: scans_to_def setArrayElement_def inferArrayElement_def parsed_def ParseInt64_int_string ParseUint64_int_string
        s u b hex_decode_encode)
qed

lemma scan_elements_back:
  "list_all2 (scans_to lib k) vs xs \<Longrightarrow> scan_elements lib k (map (elem_of lib) vs) = Inr xs"
  by (induction rule: list_all2_induct) (simp_all add: scans_element)

text \<open>C19: an ARRAY whose elements, NULLs among them, are strings, integers that fit the element type of the
  slice, booleans, times, floats or non-empty byte strings comes back from its text exactly as it was,
  whatever characters or invalid bytes the strings hold; a NULL is the zero value.  Into a \<^verbatim>\<open>[]any\<close> this holds
  for strings, integers, booleans and floats that are not printed as an integer.\<close>

theorem array_text_roundtrip:
  assumes "list_all2 (scans_to lib k) vs xs" "\<not> IsPrint lib 0x0A"
  shows "Scan lib (Some k) (VString (encodeArrayText lib vs)) = Inr (Some xs)"
proof -
  have "list_all (textual lib) vs"
    using assms(1) by (induction rule: list_all2_induct) (simp_all add: scans_textual)
  from array_text_elements[OF this assms(2)] show ?thesis
    by (simp add: Scan_def scan_elements_back[OF assms(1)])
qed

text \<open>A library with the documented tables on the values used here.\<close>

definition ascii_lib :: text_lib where
  "ascii_lib = \<lparr>IsPrint = (\<lambda>r. 0x20 \<le> r \<and> r < 0x7F), FormatFloat = (\<lambda>_. ''0''), ParseFloat = (\<lambda>_. None),
     FormatTime = (\<lambda>_. []), ParseTime = (\<lambda>_. None), FormatV = (\<lambda>_. [])\<rparr>"

theorem array_text_roundtrip_witness:
  "Scan ascii_lib (Some KInterface) (VString (encodeArrayText ascii_lib
     [VString ''a,b'', VNil, VString [CHR 0x22, CHR 0x0A, CHR 0xFF], VString ''NULL'', VInt64 (-5), VBool True])) =
   Inr (Some (map DInterface [VString ''a,b'', VNil, VString [CHR 0x22, CHR 0x0A, CHR 0xFF], VString ''NULL'', VInt64 (-5), VBool True]))"
  by (rule array_text_roundtrip) (simp_all add: scans_to_def zero_elem_def ascii_lib_def)

text \<open>An empty byte string has an empty text, which is lost: at the end of an array it vanishes, so two
  elements come back as one, and an array of one empty byte string comes back empty.\<close>

theorem empty_bytes_lost:
  assumes "b \<noteq> []"
  shows "Scan lib (Some KBytes) (VString (encodeArrayText lib [VBytes b, VBytes []])) = Inr (Some [DBytes b]) \<and>
    Scan lib (Some KBytes) (VString (encodeArrayText lib [VBytes []])) = Inr (Some [])"
proof -
  let ?h = "string_of_bytes (hex_encode b)"
  have h: "bare ?h" "?h \<noteq> arrayNullToken" using bare_hex[OF assms] by auto
  have e: "string_of_bytes (hex_encode []) = []" by (simp add: hex_encode_def)
  have t: "encodeArrayText lib [VBytes b, VBytes []] = ''['' @ (?h @ '','') @ '']''" "encodeArrayText lib [VBytes []] = ''[]''"
    by (simp_all add: encodeArrayText_def e)
  have hd: "?h @ '','' \<noteq> []" "inky (hd (?h @ '',''))" using h(1) by (cases ?h; auto simp: bare_def)+
  have pe: "parse_element (?h @ '','') = Inr (\<lparr>raw = ?h, quoted = False, null = False\<rparr>, [])"
    using parse_bare[OF h(1), of "'',''" "[]"] h(2) by (simp add: follows_def)
  have "parse_elements (?h @ '','') = Inr [\<lparr>raw = ?h, quoted = False, null = False\<rparr>]"
    by (simp add: parse_elements.simps[of "?h @ '',''"] parse_elements.simps[of "[]"] pe)
  moreover have "TrimSpace (''['' @ (?h @ '','') @ '']'') = ''['' @ (?h @ '','') @ '']''"
    by (rule TrimSpace_inky) (simp_all add: inky_def)
  ultimately have "parseArrayElements (encodeArrayText lib [VBytes b, VBytes []]) = Inr [\<lparr>raw = ?h, quoted = False, null = False\<rparr>]"
    using TrimSpace_start[OF hd] by (simp add: parseArrayElements_def t HasPrefix_def HasSuffix_def Let_def)
  moreover have "parseArrayElements ''[]'' = Inr []"
    using TrimSpace_inky[of "''[]''"] by (simp add: parseArrayElements_def HasPrefix_def HasSuffix_def Let_def inky_def)
  ultimately show ?thesis
    by (simp add: Scan_def t(2) setArrayElement_def parsed_def hex_decode_encode)
qed

theorem empty_bytes_lost_witness:
  "Scan ascii_lib (Some KBytes) (VString (encodeArrayText ascii_lib [VBytes [97], VBytes []])) = Inr (Some [DBytes [97]])"
  using empty_bytes_lost[of "[97]" ascii_lib] by simp

text \<open>Scanned into a slice of narrow integers, a value that does not fit is not refused: it is cut to the
  width without an error, where the scalar destinations of OUT parameters report an overflow.\<close>

theorem narrow_scan_wraps:
  "Scan lib (Some (KInt w)) (VString (encodeArrayText lib [VInt64 n])) =
     Inr (Some [DInt (signed_take_bit (w - 1) (sint n))])"
proof -
  have "textual lib' (VInt64 n)" for lib' by (simp add: textual_def)
  moreover define lib' where "lib' = lib\<lparr>IsPrint := (\<lambda>_. False)\<rparr>"
  moreover have "encodeArrayText lib [VInt64 n] = encodeArrayText lib' [VInt64 n]" by (simp add: encodeArrayText_def lib'_def)
  ultimately have "parseArrayElements (encodeArrayText lib [VInt64 n]) = Inr [elem_of lib' (VInt64 n)]"
    using array_text_elements[of lib' "[VInt64 n]"] by (simp add: lib'_def)
  then show ?thesis by (simp add: Scan_def setArrayElement_def parsed_def ParseInt64_int_string)
qed

end
