(* ===== verification/Runs.thy ===== *)
theory Runs
  imports Orderly ArrayProps SessionProps
begin

unbundle bit_operations_syntax

text \<open>
  A connection under any sequence of calls that \<^verbatim>\<open>database/sql\<close> and the extension interfaces make on it: the
  step relation of the public operations, and what holds after every run of them, whatever arguments,
  contexts, statements, result sets and destinations they are given and however each of them ends.
\<close>

section \<open>Runs\<close>

text \<open>
  One call that neither prepares nor frees a statement, from the connection before it to the one after it.  \<^verbatim>\<open>Begin\<close>, \<^verbatim>\<open>Prepare\<close> and the
  legacy \<^verbatim>\<open>Exec\<close> and \<^verbatim>\<open>Query\<close> of a statement are the calls with the background context.
\<close>

inductive quiet_step :: "text_lib \<Rightarrow> 'p server \<Rightarrow> 'p conn \<Rightarrow> 'p conn \<Rightarrow> bool" for lib srv where
  ping: "Ping (FormatV lib) srv ctx c = Some (res, c') \<Longrightarrow> quiet_step lib srv c c'"
| reset: "ResetSession (FormatV lib) srv ctx c = Some (res, c') \<Longrightarrow> quiet_step lib srv c c'"
| begin_tx: "BeginTx (FormatV lib) srv ctx opts c = Some (res, c') \<Longrightarrow> quiet_step lib srv c c'"
| commit: "Commit (FormatV lib) srv c = Some (res, c') \<Longrightarrow> quiet_step lib srv c c'"
| rollback: "Rollback (FormatV lib) srv c = Some (res, c') \<Longrightarrow> quiet_step lib srv c c'"
| savepoint: "Savepoint (FormatV lib) srv ctx name c = Some (res, c') \<Longrightarrow> quiet_step lib srv c c'"
| rollback_to: "RollbackToSavepoint (FormatV lib) srv ctx name c = Some (res, c') \<Longrightarrow> quiet_step lib srv c c'"
| release: "ReleaseSavepoint (FormatV lib) srv ctx name c = Some (res, c') \<Longrightarrow> quiet_step lib srv c c'"
| prepare_commit: "PrepareCommit (FormatV lib) srv ctx c = Some (res, c') \<Longrightarrow> quiet_step lib srv c c'"
| session_info: "SessionInfo (FormatV lib) srv ctx c = Some (res, c') \<Longrightarrow> quiet_step lib srv c c'"
| exec_context: "ExecContext lib srv ctx q args c = Some (xres, c') \<Longrightarrow> quiet_step lib srv c c'"
| query_context: "QueryContext lib srv ctx q args c = Some (rres, c') \<Longrightarrow> quiet_step lib srv c c'"
| next_row: "Next lib srv n r c = Some (vres, r', c') \<Longrightarrow> quiet_step lib srv c c'"
| close_rows: "CloseRows lib srv r c = Some (ures, r', c') \<Longrightarrow> quiet_step lib srv c c'"
| next_set: "NextResultSet lib srv r c = Some (ures, r', c') \<Longrightarrow> quiet_step lib srv c c'"
| exec_stmt: "ExecStmt lib srv scan shuffle ctx s nargs st c = Some (xres, st', c') \<Longrightarrow> quiet_step lib srv c c'"
| query_stmt: "QueryStmt lib srv scan shuffle ctx s nargs st c = Some (rres, st', c') \<Longrightarrow> quiet_step lib srv c c'"
| exec_batch: "ExecBatch lib srv ctx sqls c = Some (bres, c') \<Longrightarrow> quiet_step lib srv c c'"
| upd_scan: "UpdScan lib srv scan dest u st c = Some (err, u', st', c') \<Longrightarrow> quiet_step lib srv c c'"
| update_row: "UpdateRow lib srv eq_fold ctx upds u c = Some (ures, u', c') \<Longrightarrow> quiet_step lib srv c c'"
| delete_row: "DeleteRow lib srv ctx u c = Some (ures, u', c') \<Longrightarrow> quiet_step lib srv c c'"
| insert_row: "InsertRow lib srv eq_fold ctx upds u c = Some (res, c') \<Longrightarrow> quiet_step lib srv c c'"

text \<open>Any call: one of these, or one that prepares or frees a statement.\<close>

inductive call_step :: "text_lib \<Rightarrow> 'p server \<Rightarrow> 'p conn \<Rightarrow> 'p conn \<Rightarrow> bool" for lib srv where
  quiet: "quiet_step lib srv c c' \<Longrightarrow> call_step lib srv c c'"
| prepare: "PrepareContext lib srv ctx q c = Some (pres, c') \<Longrightarrow> call_step lib srv c c'"
| close_stmt: "CloseStmt lib srv s c = Some (ures, s', c') \<Longrightarrow> call_step lib srv c c'"
| exec_prepared: "ExecPreparedBatch lib srv ctx q rws c = Some (bres, c') \<Longrightarrow> call_step lib srv c c'"
| query_updatable: "QueryUpdatable lib srv ctx q args c = Some (qres, c') \<Longrightarrow> call_step lib srv c c'"
| close_updatable: "CloseUpdatable lib srv u c = Some (ures, u', c') \<Longrightarrow> call_step lib srv c c'"

text \<open>A step of the life of a connection: a call, or \<^verbatim>\<open>Close\<close>.\<close>

inductive driver_step :: "text_lib \<Rightarrow> 'p server \<Rightarrow> 'p conn \<Rightarrow> 'p conn \<Rightarrow> bool" for lib srv where
  call: "call_step lib srv c c' \<Longrightarrow> driver_step lib srv c c'"
| close: "Close (FormatV lib) srv c = Some (res, c') \<Longrightarrow> driver_step lib srv c c'"

text \<open>\<open>runs lib srv c c'\<close>: some calls, one after the other, lead from \<open>c\<close> to \<open>c'\<close>.\<close>

inductive runs :: "text_lib \<Rightarrow> 'p server \<Rightarrow> 'p conn \<Rightarrow> 'p conn \<Rightarrow> bool" for lib srv where
  none: "runs lib srv c c"
| step: "runs lib srv c c' \<Longrightarrow> driver_step lib srv c' c'' \<Longrightarrow> runs lib srv c c''"

section \<open>Invariants of runs\<close>

context conn_invariant begin

lemmas quiet_keep = Ping_keeps ResetSession_keeps BeginTx_keeps finish_keeps savepoints_keep SessionInfo_keeps
  direct_keeps Next_keeps result_sets_keep statements_keep ExecBatch_keeps UpdScan_keeps cursor_keeps

lemma quiet_keeps: "quiet_step lib srv c c' \<Longrightarrow> I c \<Longrightarrow> I c'"
  by (induction rule: quiet_step.induct)
    (auto simp: Commit_def Rollback_def RollbackToSavepoint_def ReleaseSavepoint_def dest!: quiet_keep[THEN leavesD, rotated])

lemma call_keeps: "call_step lib srv c c' \<Longrightarrow> \<not> strict \<Longrightarrow> I c \<Longrightarrow> I c'"
  by (erule call_step.cases)
    (auto intro: quiet_keeps dest: PrepareContext_keeps[THEN leavesD] CloseStmt_keeps[THEN leavesD]
      ExecPreparedBatch_keeps[THEN leavesD] QueryUpdatable_keeps[THEN leavesD] CloseUpdatable_keeps[THEN leavesD])

lemma runs_keep:
  assumes "runs lib srv c c'" "\<not> strict" "I c" "\<And>c res c'. I c \<Longrightarrow> Close (FormatV lib) srv c = Some (res, c') \<Longrightarrow> I c'"
  shows "I c'"
  using assms by (induction rule: runs.induct) (auto elim!: driver_step.cases dest: call_keeps)

end

lemma lax: "\<not> False"
  by simp

section \<open>The fresh connection\<close>

lemma connect_cases:
  assumes "connect fmt_v srv dial cf = Some (Inr c)"
  obtains n where "dial (address cf) (tls_settings cf) = Inr n" "handshake fmt_v srv (new_conn cf n) = Some (Inr (), c)"
  using assms by (auto simp: connect_def split: sum.splits bind_splits)

lemma handshake_step:
  assumes "orderly srv" "in_sync (net c)" "handshake fmt_v srv c = Some (Inr (), c')"
  shows "\<exists>n bs ans. exchanged srv (int32_bytes NetworkCompatibilityVersionInt) [] (net c) n \<and>
    exchanged srv (ModeConnect # bs) ans n (net c')"
proof -
  have s: "werr (net c) = None" "pend (net c) = []" "inp (net c) = []" using assms(2) by (simp_all add: in_sync_def)
  obtain p ans e where a: "srv (peer (net c)) (int32_bytes NetworkCompatibilityVersionInt) = (p, Inr (ans, e))"
  proof (cases "srv (peer (net c)) (int32_bytes NetworkCompatibilityVersionInt)")
    case (Pair p r)
    have "int32_bytes NetworkCompatibilityVersionInt \<noteq> []" by (simp add: int32_bytes_def)
    then have "handshake fmt_v srv c = Some (Inl x, c\<lparr>net := (net c)\<lparr>pend := int32_bytes NetworkCompatibilityVersionInt,
        peer := p, werr := Some x\<rparr>\<rparr>)" if "r = Inl x" for x
      using s that Pair by (simp add: handshake_def bw_write_def bw_flush_def)
    then show ?thesis using that Pair assms(3) by (cases r) auto
  qed
  let ?n = "(net c)\<lparr>peer := p, sent := sent (net c) @ int32_bytes NetworkCompatibilityVersionInt, inp := [], inp_end := e\<rparr>"
  have "answers (int32_bytes NetworkCompatibilityVersionInt) ans"
    using assms(1) a unfolding orderly_def by (metis length_0_conv length_int32_bytes zero_neq_numeral)
  then have ans: "ans = []" by (simp add: answers_def)
  with assms(3) handshake_steps[where srv = srv, OF s(1,2) a] s obtain r c1 where
    x: "exchange fmt_v srv (connect_request (cfg c)) (c\<lparr>net := ?n\<rparr>) = Some (Inr r, c1)" and c1: "net c' = net c1"
    by (auto simp: andThen_Inr split: if_splits)
  have "in_sync (net (c\<lparr>net := ?n\<rparr>))" using s by (simp add: in_sync_def)
  from exchange_step[OF assms(1) this x] obtain bs ans2 where "exchanged srv (ModeConnect # bs) ans2 ?n (net c')"
    by (auto simp: c1 connect_request_def answered_def)
  moreover have "exchanged srv (int32_bytes NetworkCompatibilityVersionInt) [] (net c) ?n"
    using a by (simp add: exchanged_def ans)
  ultimately show ?thesis by blast
qed

lemma handshake_in_sync:
  "orderly srv \<Longrightarrow> in_sync (net c) \<Longrightarrow> handshake fmt_v srv c = Some (Inr (), c') \<Longrightarrow> in_sync (net c')"
  using handshake_step exchanged_in_sync by blast

text \<open>
  \<^verbatim>\<open>Close\<close> never panics, and closes the connection and its socket whatever state they are in; over the socket go
  at most what was waiting in the write buffer and one DISCONNECT.
\<close>

definition disconnect_bytes :: "byte list" where
  "disconnect_bytes = frame_bytes ModeDisconnect [] @ [ModeNone]"

lemma send_disconnect:
  "\<exists>e c'. send fmt_v srv (NewResult ModeDisconnect) c = Some (e, c') \<and> conn_closed c' = conn_closed c \<and>
    (sent (net c') = sent (net c) \<or> sent (net c') = sent (net c) @ pend (net c) @ disconnect_bytes)"
proof -
  let ?req = "NewResult ModeDisconnect"
  have p: "plain_request ?req" by (simp add: plain_request_def NewResult_def)
  have w: "EncodePayload fmt_v ?req (Reset (rowOut c)) = Some (None, Reset (rowOut c))" "out_buf (Reset (rowOut c)) = []"
    by (simp_all add: EncodePayload_def NewResult_def Reset_def)
  show ?thesis
    using prepare_plain[OF p] w
    by (cases "werr (net c)")
      (auto simp: send_def transmit_def WriteFrame_ok WriteFrame_err Bytes_def WriteTerminator_def bw_write_def bw_flush_def
        disconnect_bytes_def Let_def split: prod.split sum.split)
qed

lemma Close_outcome:
  "\<exists>res c'. Close fmt_v srv c = Some (res, c') \<and> conn_closed c' \<and>
    (if conn_closed c then net c' = net c
     else shut (net c') \<and> (sent (net c') = sent (net c) \<or> sent (net c') = sent (net c) @ pend (net c) @ disconnect_bytes))"
  using send_disconnect[of fmt_v srv "c\<lparr>conn_closed := True\<rparr>"] by (auto simp: Close_def net_close_def)

lemma Close_closes: "Close fmt_v srv c = Some (res, c') \<Longrightarrow> conn_closed c'"
  using Close_outcome[of fmt_v srv c] by auto

lemma belongs_send: "send fmt_v srv req c = Some (e, c') \<Longrightarrow> belongs c0 c \<Longrightarrow> belongs c0 c'"
  using evolves_send[of fmt_v srv req c e c'] same_session_send[of fmt_v srv req c e c']
  by (auto simp: belongs_def evolves_def same_session_def net_grows_def)

lemma belongs_closed [simp]: "belongs c0 (c\<lparr>conn_closed := b\<rparr>) = belongs c0 c"
    "belongs c0 (c\<lparr>net := net c\<lparr>shut := b\<rparr>\<rparr>) = belongs c0 c"
  by (simp_all add: belongs_def)

lemma Close_belongs: "Close fmt_v srv c = Some (res, c') \<Longrightarrow> belongs c0 c \<Longrightarrow> belongs c0 c'"
  by (auto simp: Close_def net_close_def dest!: belongs_send[where ?c0.0 = c0] split: bind_splits if_splits)

lemma exchange_cfg: "exchange fmt_v srv req c = Some (res, c') \<Longrightarrow> cfg c' = cfg c"
  by (drule evolves_exchange) (simp add: evolves_def)

lemma connect_cfg: "connect fmt_v srv dial cf = Some (Inr c) \<Longrightarrow> cfg c = cf"
  by (erule connect_cases)
    (auto simp: handshake_def new_conn_def Let_def andThen_Inr dest!: exchange_cfg split: prod.splits option.splits if_splits)

section \<open>The properties\<close>

text \<open>C1: a connection never loses its place in the conversation.  Against every server that answers
  each request with one complete answer (whatever it says, in whatever frames, decodable or not, with
  writes that may fail), after any sequence of calls on a connection that was opened, either the
  connection reports itself invalid, so that the pool discards it, or nothing is half-written and
  nothing unread: the next answer that is read is the answer to the next request.\<close>

theorem never_desynchronised:
  assumes "connect (FormatV lib) srv dial cf = Some (Inr c0)" "\<And>a t n. dial a t = Inr n \<Longrightarrow> in_sync n"
    and "orderly srv" "runs lib srv c0 c" "IsValid c"
  shows "in_sync (net c)"
proof -
  obtain n where n: "dial (address cf) (tls_settings cf) = Inr n" "handshake (FormatV lib) srv (new_conn cf n) = Some (Inr (), c0)"
    using assms(1) by (rule connect_cases)
  have "in_sync (net (new_conn cf n))" using assms(2)[OF n(1)] by (simp add: new_conn_def)
  then have "sound c0" using handshake_in_sync[OF assms(3) _ n(2)] by (simp add: sound_def)
  moreover have "sound c'" if "Close (FormatV lib) srv c = Some (res, c')" for c res c'
    using Close_closes[OF that] by (simp add: sound_def IsValid_def)
  ultimately have "sound c" using sync.runs_keep[OF assms(4) lax] assms(3) by blast
  then show ?thesis using assms(5) by (simp add: sound_def)
qed

text \<open>C3: for its whole life a connection stays the session that the server acknowledged: no call changes
  its configuration, the session, database and random ids or the server's properties, and nothing sent
  is ever taken back.\<close>

theorem session_identity:
  assumes "connect (FormatV lib) srv dial cf = Some (Inr c0)" "runs lib srv c0 c"
  shows "cfg c = cf \<and> sessionID c = sessionID c0 \<and> databaseID c = databaseID c0 \<and> randomID c = randomID c0 \<and>
    ServerProperties c = ServerProperties c0 \<and> (\<exists>bs. sent (net c) = sent (net c0) @ bs)"
proof -
  have "belongs c0 c" by (rule owned.runs_keep[OF assms(2) lax belongs_refl]) (rule Close_belongs)
  then show ?thesis using connect_cfg[OF assms(1)] by (simp add: belongs_def net_grows_def ServerProperties_def)
qed

text \<open>C4: a connection that was closed or given up stays so, and no call sends a byte over it any more: what a
  run leaves of its socket is untouched, unless the run contains the first \<^verbatim>\<open>Close\<close> of a broken
  connection.  Over it go at most one DISCONNECT and, in front of it, what the failed request had left in
  the write buffer; nothing goes over it once the connection is closed.\<close>

theorem dead_is_silent:
  assumes "runs lib srv c c'" "unusable c"
  shows "unusable c' \<and> (conn_closed c \<longrightarrow> conn_closed c') \<and>
    (net c' = net c \<or> \<not> conn_closed c \<and> conn_closed c' \<and>
      (sent (net c') = sent (net c) \<or> sent (net c') = sent (net c) @ pend (net c) @ frame_bytes ModeDisconnect [] @ [ModeNone]))"
  using assms
proof (induction rule: runs.induct)
  case (step c c' c'')
  then have u: "unusable c'" by blast
  show ?case
    using step.hyps(2)
  proof cases
    case call
    have "unusable c'' \<and> net c'' = net c' \<and> (conn_closed c'' \<longleftrightarrow> conn_closed c')"
      by (rule silent.call_keeps[OF call lax]) (simp add: u)
    then show ?thesis using step.IH step.prems by auto
  next
    case (close res)
    then have "conn_closed c''" "if conn_closed c' then net c'' = net c'
      else sent (net c'') = sent (net c') \<or> sent (net c'') = sent (net c') @ pend (net c') @ disconnect_bytes"
      using Close_outcome[of "FormatV lib" srv c'] by (auto split: if_splits)
    then show ?thesis using step.IH step.prems by (auto simp: unusable_def disconnect_bytes_def split: if_splits)
  qed
qed simp

section \<open>Witnesses\<close>

text \<open>A server that acknowledges the login and answers everything else with an update count.\<close>

definition hello :: "byte \<times> byte list" where
  "hello = (ModeConnectAcknowledge,
     [0, 0, 0, 3] @ [0, 0, 0, 0, 0, 0, 0, 77] @ [0, 0, 0, 0] @ [0, 0, 0, 0] @ [0, 0, 0, 9])"

definition polite_server :: "unit server" where
  "polite_server p req = (p, Inr
     (if req = int32_bytes NetworkCompatibilityVersionInt then []
      else if hd req = ModeLargeObjectOp then lob_answer (replicate 20 0) LobRespSet [0] []
      else if hd req = ModeConnect then transmission [hello]
      else transmission count_reply, EOF))"

definition idle_dial :: "unit dialer" where
  "idle_dial a t = Inr (idle_net ())"

lemma polite_orderly: "orderly polite_server"
proof -
  have "whole_lob_answer (lob_answer (replicate 20 0) LobRespSet [0] [])"
    unfolding whole_lob_answer_def by (rule disjI1) (intro exI[of _ "replicate 20 0"] exI[of _ LobRespSet] exI[of _ 0], simp)
  moreover have "list_all whole_frame [f] \<Longrightarrow> \<exists>g fs. transmission [f] = transmission (g # fs) \<and> list_all whole_frame (g # fs)" for f
    by blast
  moreover have "list_all whole_frame [hello]" "list_all whole_frame count_reply"
    by (simp_all add: whole_frame_def hello_def frame_fits_def count_reply_def)
  ultimately show ?thesis by (simp add: orderly_def answers_def polite_server_def count_reply_def)
qed

text \<open>Such a login succeeds at every server that answers it with \<open>hello\<close>.\<close>

lemma login:
  fixes srv :: "'p server"
  assumes "\<And>p. srv p (int32_bytes NetworkCompatibilityVersionInt) = (p, Inr ([], EOF))"
    and "\<And>p bs. srv p (ModeConnect # bs) = (p, Inr (transmission [hello], EOF))"
  shows "\<exists>c. connect fmt_v srv (\<lambda>_ _. Inr (idle_net p)) sample_config = Some (Inr c) \<and> sessionID c = 77 \<and> IsValid c"
proof -
  let ?v = "int32_bytes NetworkCompatibilityVersionInt" and ?s = "new_conn sample_config (idle_net p)"
  let ?m = "(NewResult ModeConnectAcknowledge)\<lparr>DatabaseID := 3, SessionID := 77, RandomID := 9\<rparr>"
  let ?req = "connect_request sample_config"
  let ?c = "?s\<lparr>net := (idle_net p)\<lparr>sent := ?v\<rparr>\<rparr>"
  have n: "werr (net ?s) = None" "pend (net ?s) = []" "srv (peer (net ?s)) ?v = (p, Inr ([], EOF))"
    using assms(1) by (simp_all add: idle_net_def new_conn_def)
  have q: "plain_request ?req" by (simp add: plain_request_def connect_request_def NewResult_def)
  obtain w where w: "EncodePayload fmt_v ?req NewRowOutput = Some (None, w)"
    by (simp add: EncodePayload_def connect_request_def NewResult_def)
  have m: "Mode ?req = ModeConnect" by (simp add: connect_request_def NewResult_def)
  have sv: "srv (peer (net ?c)) (transmission [(Mode ?req, out_buf w)]) = (p, Inr (transmission [hello], EOF))"
    using assms(2) unfolding m by (simp add: transmission_def frame_bytes_def idle_net_def)
  have nc: "pend (net ?c) = []" "werr (net ?c) = None" by (simp_all add: idle_net_def)
  note s = send_plain[where srv = srv, OF q w nc sv]
  have "DecodeResult (fst hello) (snd hello) = Some (Inr ?m)" by code_simp
  then have d: "decodes [hello] [?m]" by (simp add: decodes_def hello_def)
  have i: "inp (net (?c\<lparr>rowOut := w, net := (net ?c)\<lparr>peer := p, sent := sent (net ?c) @ transmission [(Mode ?req, out_buf w)],
      inp := inp (net ?c) @ transmission [hello], inp_end := EOF\<rparr>\<rparr>)) = transmission [hello] @ []"
    by (simp add: idle_net_def)
  obtain c' where x: "exchange fmt_v srv ?req ?c = Some (Inr (message.extend ?m \<lparr>Chained = []\<rparr>), c')"
      "broken c' = False" "conn_closed c' = False"
    using s receive_transmission[OF d i] by (simp add: exchange_def new_conn_def)
  have "handshake fmt_v srv ?s = Some (Inr (), c'\<lparr>sessionID := 77, databaseID := 3, randomID := 9,
      serverProps := parseServerProperties []\<rparr>)"
    using handshake_steps[where srv = srv, OF n] x(1)
    by (simp add: idle_net_def andThen_def message.extend_def NewResult_def new_conn_def)
  then have "connect fmt_v srv (\<lambda>_ _. Inr (idle_net p)) sample_config = Some (Inr (c'\<lparr>sessionID := 77, databaseID := 3, randomID := 9,
      serverProps := parseServerProperties []\<rparr>))"
    by (simp add: connect_def)
  then show ?thesis using x(2,3) by (auto simp: IsValid_def)
qed

lemma login_live:
  assumes "connect fmt_v srv (\<lambda>_ _. Inr (idle_net p)) cf = Some (Inr c)" "orderly srv" "IsValid c"
  shows "live c"
proof -
  obtain n where n: "Inr (idle_net p) = (Inr n :: 'a net go_result)" "handshake fmt_v srv (new_conn cf n) = Some (Inr (), c)"
    using assms(1) by (rule connect_cases)
  have "in_sync (net (new_conn cf n))" using n(1) by (auto simp: new_conn_def idle_net_def in_sync_def)
  then show ?thesis using handshake_in_sync[OF assms(2) _ n(2)] assms(3) by (simp add: live_def)
qed

lemma polite_login:
  "\<exists>c. connect fmt_v polite_server idle_dial sample_config = Some (Inr c) \<and> sessionID c = 77 \<and> IsValid c"
  using login[of polite_server fmt_v "()"] not_version[of ModeConnect]
  by (simp add: polite_server_def idle_dial_def[abs_def])

lemma idle_dial_in_sync: "idle_dial a t = Inr n \<Longrightarrow> in_sync n"
  by (auto simp: idle_dial_def idle_net_def in_sync_def)

lemma polite_ping:
  assumes "live c"
  shows "\<exists>c'. Ping fmt_v polite_server Background c = Some (Inr (), c') \<and> IsValid c' \<and> sent (net c) \<noteq> sent (net c')"
proof -
  let ?req = "newExecDirect c ''VALUES(1)''" and ?m = "(NewResult ModeUpdateCount)\<lparr>UpdateCount := 1\<rparr>"
  obtain w where w: "EncodePayload fmt_v ?req NewRowOutput = Some (None, w)" using plain_direct(2) by blast
  have m: "Mode ?req = ModeExecDirect" by (simp add: newExecDirect_def NewResult_def)
  have "transmission [(Mode ?req, out_buf w)] \<noteq> int32_bytes NetworkCompatibilityVersionInt"
      "hd (transmission [(Mode ?req, out_buf w)]) = ModeExecDirect"
    unfolding m by (simp_all add: transmission_def frame_bytes_def int32_bytes_def)
  then have sv: "polite_server (peer (net c)) (transmission [(Mode ?req, out_buf w)]) =
      ((), Inr (transmission ((ModeUpdateCount, [0, 0, 0, 1]) # []), EOF))"
    by (simp add: polite_server_def count_reply_def)
  have d: "decodes ((ModeUpdateCount, [0, 0, 0, 1]) # []) (?m # [])"
    using count_reply_decodes by (simp add: count_reply_def)
  have l: "\<not> unusable c" "ctx_entry Background (sent (net c)) = None" "in_sync (net c)"
    using assms by (auto simp: live_def Background_def IsValid_def unusable_def)
  have "transmission fs \<noteq> []" for fs by (simp add: transmission_def)
  moreover have "Mode ?m \<noteq> ModeError" by (simp add: NewResult_def)
  ultimately show ?thesis
    using answered_exec[where srv = polite_server and fmt_v = fmt_v, OF l plain_direct(1) w sv d] l(1)
    by (auto simp: Ping_def unusable_def andThen_def ok_def)
qed

lemma polite_session:
  obtains c0 c where "connect (FormatV ascii_lib) polite_server idle_dial sample_config = Some (Inr c0)"
    "sessionID c0 = 77" "runs ascii_lib polite_server c0 c" "IsValid c" "sent (net c0) \<noteq> sent (net c)"
proof -
  obtain c0 where c0: "connect (FormatV ascii_lib) polite_server idle_dial sample_config = Some (Inr c0)" "sessionID c0 = 77" "IsValid c0"
    using polite_login by blast
  then have "live c0" using login_live[OF _ polite_orderly, of "FormatV ascii_lib" "()" sample_config c0] by (simp add: idle_dial_def[abs_def])
  then obtain c where c: "Ping (FormatV ascii_lib) polite_server Background c0 = Some (Inr (), c)" "IsValid c"
      "sent (net c0) \<noteq> sent (net c)"
    using polite_ping by blast
  have "runs ascii_lib polite_server c0 c"
    by (rule runs.step[OF runs.none driver_step.call[OF call_step.quiet[OF quiet_step.ping[OF c(1)]]]])
  then show ?thesis using that c0(1,2) c(2,3) by blast
qed

theorem never_desynchronised_witness:
  "\<exists>c0 c. connect (FormatV ascii_lib) polite_server idle_dial sample_config = Some (Inr c0) \<and>
    runs ascii_lib polite_server c0 c \<and> sent (net c0) \<noteq> sent (net c) \<and> IsValid c \<and> in_sync (net c)"
proof -
  obtain c0 c where r: "connect (FormatV ascii_lib) polite_server idle_dial sample_config = Some (Inr c0)"
      "runs ascii_lib polite_server c0 c" "IsValid c" "sent (net c0) \<noteq> sent (net c)"
    by (rule polite_session)
  have "in_sync (net c)"
    by (rule never_desynchronised[OF r(1) _ polite_orderly r(2,3)]) (erule idle_dial_in_sync)
  then show ?thesis using r by blast
qed

theorem session_identity_witness:
  "\<exists>c0 c. connect (FormatV ascii_lib) polite_server idle_dial sample_config = Some (Inr c0) \<and>
    runs ascii_lib polite_server c0 c \<and> sent (net c0) \<noteq> sent (net c) \<and> sessionID c = 77 \<and> cfg c = sample_config"
proof -
  obtain c0 c where r: "connect (FormatV ascii_lib) polite_server idle_dial sample_config = Some (Inr c0)"
      "sessionID c0 = 77" "runs ascii_lib polite_server c0 c" "sent (net c0) \<noteq> sent (net c)"
    by (rule polite_session)
  from session_identity[OF r(1,3)] r show ?thesis by auto
qed

text \<open>A broken connection with a byte of a failed request in its buffer: \<^verbatim>\<open>Close\<close> sends it.\<close>

theorem dead_is_silent_witness:
  "\<exists>c'. runs ascii_lib polite_server (sample_conn\<lparr>broken := True, net := (idle_net ())\<lparr>pend := [7]\<rparr>\<rparr>) c' \<and>
    unusable c' \<and> sent (net c') = [7, ModeDisconnect, 0, 0, 0, 4, ModeNone]"
proof -
  let ?c = "sample_conn\<lparr>broken := True, net := (idle_net ())\<lparr>pend := [7]\<rparr>\<rparr>"
  have u: "unusable ?c" by (simp add: unusable_def)
  have p: "prepareArrayParams (NewResult ModeDisconnect) = Some (Inr (NewResult ModeDisconnect)) \<and>
      prepareLobParams (NewResult ModeDisconnect) s = Some (Inr (NewResult ModeDisconnect, []), s)" for s
    by (rule prepare_plain) (simp add: plain_request_def NewResult_def)
  obtain res c' where c': "Close (FormatV ascii_lib) polite_server ?c = Some (res, c')"
      "sent (net c') \<noteq> sent (net ?c)"
    using p by (force simp: Close_def send_def EncodePayload_def transmit_def WriteFrame_ok Bytes_def WriteTerminator_def
        bw_write_def bw_flush_def polite_server_def net_close_def idle_net_def Let_def)
  have r: "runs ascii_lib polite_server ?c c'"
    by (rule runs.step[OF runs.none driver_step.close[OF c'(1)]])
  have "frame_bytes ModeDisconnect [] = [ModeDisconnect, 0, 0, 0, 4]" by (simp add: frame_bytes_def int32_bytes_def)
  with dead_is_silent[OF r u] c'(2) have "unusable c'" "sent (net c') = [7, ModeDisconnect, 0, 0, 0, 4, ModeNone]"
    by (auto simp: idle_net_def)
  with r show ?thesis by blast
qed

end
