(* ===== verification/Cancel.thy ===== *)
theory Cancel
  imports Runs
begin

unbundle bit_operations_syntax

text \<open>
  The cancellation side channel: what it sends, and that it names the session that the server
  acknowledged to the connection whatever has been called in the meantime.
\<close>

section \<open>The bytes of a cancellation\<close>

definition cancel_bytes :: "i32 \<Rightarrow> i64 \<Rightarrow> i32 \<Rightarrow> byte list" where
  "cancel_bytes db sess rand = int32_bytes NetworkCompatibilityVersionInt @
     transmission [(ModeSQLCancel, int32_bytes db @ int64_bytes sess @ int64_bytes 0 @ int32_bytes rand @ int32_bytes 0)]"

lemma cancel_payload:
  "EncodePayload fmt_v (cancel_request c) NewRowOutput = Some (None, \<lparr>out_buf =
     int32_bytes (databaseID c) @ int64_bytes (sessionID c) @ int64_bytes 0 @ int32_bytes (randomID c) @ int32_bytes 0\<rparr>)"
proof -
  have "encodeModifiedUTF8 [] = []" by code_simp
  then show ?thesis
    by (simp add: EncodePayload_def cancel_request_def NewResult_def WriteString_def WriteBytes_def WriteInt_def
        WriteLong_def NewRowOutput_def int32_bytes_def int64_bytes_def ucast_signed_drop_bit)
qed

lemma cancel_mode [simp]: "Mode (cancel_request c) = ModeSQLCancel"
  by (simp add: cancel_request_def NewResult_def)

lemma cancel_exchange_sends:
  assumes "pend n = []" "werr n = None"
    and "srv (peer n) (cancel_bytes (databaseID c) (sessionID c) (randomID c)) = (p, Inr (ans, e))"
  shows "\<exists>n'. cancel_exchange fmt_v srv (cancel_request c) n = Some n' \<and>
    sent n' = sent n @ cancel_bytes (databaseID c) (sessionID c) (randomID c)"
proof -
  let ?bs = "cancel_bytes (databaseID c) (sessionID c) (randomID c)"
  let ?n = "n\<lparr>peer := p, sent := sent n @ ?bs, pend := [], inp := inp n @ ans, inp_end := e\<rparr>"
  have ne: "?bs \<noteq> []" by (simp add: cancel_bytes_def int32_bytes_def)
  have "cancel_exchange fmt_v srv (cancel_request c) n = Some (snd (ReadFrame ?n))"
    using assms ne
    by (simp add: cancel_exchange_def cancel_payload bw_write_def WriteFrame_ok WriteTerminator_def bw_flush_def
        cancel_bytes_def transmission_def Bytes_def)
  moreover have "sent (snd (ReadFrame ?n)) = sent ?n"
    by (rule consumes_sent[OF consumes_ReadFrame[OF prod.collapse[symmetric]]])
  ultimately show ?thesis by simp
qed

text \<open>C6: whatever has been called on a connection since it was opened, a cancellation goes out over a
  second socket to the same address as the version number and one SQLCANCEL that names the session, the
  database and the random token of the acknowledged login and asks for whatever statement runs; then the
  second socket is closed.\<close>

theorem cancel_names_session:
  assumes "connect (FormatV lib) srv dial cf = Some (Inr c0)" "runs lib srv c0 c" "sessionID c0 \<noteq> 0"
    and "dial2 (address cf) (tls_settings cf) = Inr n" "pend n = []" "werr n = None"
    and "srv2 (peer n) (cancel_bytes (databaseID c0) (sessionID c0) (randomID c0)) = (p, Inr (ans, e))"
  shows "\<exists>n'. fireCancel fmt_v srv2 dial2 c = Some (Some n') \<and> shut n' \<and>
    sent n' = sent n @ cancel_bytes (databaseID c0) (sessionID c0) (randomID c0)"
proof -
  have "belongs c0 c" by (rule owned.runs_keep[OF assms(2) lax belongs_refl]) (rule Close_belongs)
  then have b: "cfg c = cf" "sessionID c = sessionID c0" "databaseID c = databaseID c0" "randomID c = randomID c0"
    using connect_cfg[OF assms(1)] by (simp_all add: belongs_def)
  from cancel_exchange_sends[of n srv2 c p ans e fmt_v] show ?thesis
    using assms(3-7) b by (auto simp: fireCancel_def net_close_def)
qed

theorem cancel_names_session_witness:
  "\<exists>c0 c n'. runs ascii_lib polite_server c0 c \<and> sent (net c0) \<noteq> sent (net c) \<and>
    fireCancel (FormatV ascii_lib) polite_server idle_dial c = Some (Some n') \<and>
    sent n' = cancel_bytes (databaseID c0) 77 (randomID c0)"
proof -
  obtain c0 c where r: "connect (FormatV ascii_lib) polite_server idle_dial sample_config = Some (Inr c0)"
      "sessionID c0 = 77" "runs ascii_lib polite_server c0 c" "sent (net c0) \<noteq> sent (net c)"
    by (rule polite_session)
  let ?bs = "cancel_bytes (databaseID c0) (sessionID c0) (randomID c0)"
  obtain ans where "polite_server () ?bs = ((), Inr (ans, EOF))" by (simp add: polite_server_def)
  with cancel_names_session[OF r(1,3), of idle_dial "idle_net ()" polite_server "()" ans EOF "FormatV ascii_lib"] r
  show ?thesis by (auto simp: idle_dial_def idle_net_def)
qed

end
