(* ===== verification/Sockets.thy ===== *)
theory Sockets
  imports Runs
begin

unbundle bit_operations_syntax

text \<open>
  The socket of a connection as a resource: who closes it, and that nothing uses it afterwards.  The
  sockets that cancellations open are in Cancel.
\<close>

section \<open>The socket and the closed flag\<close>

text \<open>Whether the socket has been closed, and whether the connection counts as closed.  No call changes either.\<close>

definition socket_state :: "'p conn \<Rightarrow> bool \<times> bool" where
  "socket_state c = (shut (net c), conn_closed c)"

lemma socket_evolves: "evolves c c' \<Longrightarrow> socket_state c' = socket_state c"
  by (simp add: socket_state_def evolves_def net_grows_def)

lemma socket_exec: "execCtx fmt_v srv ctx req c = Some (res, c') \<Longrightarrow> socket_state c' = socket_state c"
  by (rule socket_evolves) (rule evolves_execCtx)

lemma socket_lob:
  assumes "lobExchange srv writeReq c = Some (res, c')" "queues (net c) (writeReq c)"
  shows "socket_state c' = socket_state c"
  using lobExchange_grows[OF assms] by (cases c; cases c') (auto simp: socket_state_def net_grows_def)

interpretation handle: conn_invariant lib srv "\<lambda>c. socket_state c = x" False
  by unfold_locales
    (auto simp: leaves_def socket_exec intro: socket_lob[OF _ queues_lob_requests(1)] socket_lob[OF _ queues_lob_requests(2)],
     auto simp: socket_state_def)

text \<open>\<open>owns c\<close>: the socket has been closed exactly when the connection counts as closed.\<close>

definition owns :: "'p conn \<Rightarrow> bool" where
  "owns c \<longleftrightarrow> (shut (net c) \<longleftrightarrow> conn_closed c)"

lemma Close_socket:
  "\<exists>res c'. Close fmt_v srv c = Some (res, c') \<and> conn_closed c' \<and> (if conn_closed c then net c' = net c else shut (net c'))"
  using Close_outcome[of fmt_v srv c] by (auto split: if_splits)

lemma Close_owns: "Close fmt_v srv c = Some (res, c') \<Longrightarrow> owns c \<Longrightarrow> owns c'"
  using Close_socket[of fmt_v srv c] by (auto simp: owns_def split: if_splits)

lemma runs_own: "runs lib srv c c' \<Longrightarrow> owns c \<Longrightarrow> owns c'"
proof (induction rule: runs.induct)
  case (step c c' c'')
  then have o: "owns c'" by blast
  from step.hyps(2) show ?case
  proof cases
    case call
    have "socket_state c'' = socket_state c'" by (rule handle.call_keeps[OF call lax refl])
    then show ?thesis using o by (simp add: owns_def socket_state_def)
  next
    case (close res)
    then show ?thesis using Close_owns o by blast
  qed
qed simp

text \<open>What is closed stays untouched.\<close>

lemma closed_runs:
  assumes "runs lib srv c c'" "conn_closed c"
  shows "net c' = net c"
proof -
  have "unusable c' \<and> net c' = net c \<and> (conn_closed c' \<longleftrightarrow> True)"
    by (rule silent.runs_keep[OF assms(1) lax]) (use assms(2) in \<open>auto simp: unusable_def Close_def\<close>)
  then show ?thesis by blast
qed

lemma handshake_socket:
  assumes "handshake fmt_v srv c = Some (res, c')"
  shows "socket_state c' = socket_state c"
proof -
  obtain e1 n1 where w: "bw_write (int32_bytes NetworkCompatibilityVersionInt) (net c) = (e1, n1)" by fastforce
  obtain e2 n2 where f: "bw_flush srv n1 = (e2, n2)" by fastforce
  have 1: "socket_state (c\<lparr>net := n1\<rparr>) = socket_state c"
    using evolves_net[OF queues_grows[OF queues_write[OF w]]] by (rule socket_evolves)
  have 2: "socket_state (c\<lparr>net := n2\<rparr>) = socket_state c"
    using socket_evolves[OF evolves_net[where n = n2], of "c\<lparr>net := n1\<rparr>"] net_grows_flush[OF f] 1 by simp
  have 3: "socket_state (d\<lparr>sessionID := i, databaseID := j, randomID := k, serverProps := p\<rparr>) = socket_state d"
    for d :: "'a conn" and i j k p
    by (simp add: socket_state_def)
  have 4: "socket_state d' = socket_state c" if "exchange fmt_v srv req (c\<lparr>net := n2\<rparr>) = Some (r, d')" for req r d'
    using socket_evolves[OF evolves_exchange[OF that]] 2 by simp
  show ?thesis
    using assms w f 1 2
    by (auto simp: handshake_def Let_def andThen_def 3 split: option.splits bind_splits sum.splits if_splits) (erule 4)+
qed

section \<open>No socket is leaked\<close>

text \<open>C5: no socket is leaked, and none is used after it has been closed.  An attempt to connect that fails has
  closed the socket that it opened.  A connection that was opened holds an open socket; in every state that
  it can reach, the socket is closed exactly when the connection counts as closed, no other call closes it,
  and \<^verbatim>\<open>Close\<close> returns and leaves it closed, also when the connection is broken and when the DISCONNECT cannot be
  sent; and once it is closed no sequence of calls touches it.\<close>

theorem sockets_closed:
  assumes "\<And>a t n. dial a t = Inr n \<Longrightarrow> \<not> shut n" "connect (FormatV lib) srv dial cf = Some res"
  shows "case res of
      Inl (e, None) \<Rightarrow> isl (dial (address cf) (tls_settings cf))
    | Inl (e, Some n) \<Rightarrow> shut n
    | Inr c0 \<Rightarrow> \<not> shut (net c0) \<and> (\<forall>c. runs lib srv c0 c \<longrightarrow>
        (shut (net c) \<longleftrightarrow> conn_closed c) \<and>
        (\<forall>c'. call_step lib srv c c' \<longrightarrow> shut (net c') = shut (net c)) \<and>
        (\<exists>r c'. Close (FormatV lib) srv c = Some (r, c') \<and> conn_closed c' \<and> shut (net c')) \<and>
        (\<forall>c'. runs lib srv c c' \<and> shut (net c) \<longrightarrow> net c' = net c))"
proof (cases res)
  case (Inl f)
  then show ?thesis using assms(2) by (auto simp: connect_def net_close_def split: sum.splits bind_splits)
next
  case (Inr c0)
  obtain n where n: "dial (address cf) (tls_settings cf) = Inr n" "handshake (FormatV lib) srv (new_conn cf n) = Some (Inr (), c0)"
    using assms(2) unfolding Inr by (rule connect_cases)
  have s0: "socket_state c0 = (False, False)"
    using handshake_socket[OF n(2)] assms(1)[OF n(1)] by (simp add: socket_state_def new_conn_def)
  have own: "owns c" if "runs lib srv c0 c" for c
    using runs_own[OF that] s0 by (simp add: owns_def socket_state_def)
  have "shut (net c') = shut (net c)" if "call_step lib srv c c'" for c c'
    using handle.call_keeps[OF that lax refl] by (simp add: socket_state_def)
  moreover have "\<exists>r c'. Close (FormatV lib) srv c = Some (r, c') \<and> conn_closed c' \<and> shut (net c')" if "runs lib srv c0 c" for c
    using Close_socket[of "FormatV lib" srv c] own[OF that] by (auto simp: owns_def split: if_splits)
  ultimately show ?thesis using s0 own closed_runs by (auto simp: Inr owns_def socket_state_def)
qed

text \<open>A server that refuses the login, and one that accepts it.\<close>

lemma idle_dial_open: "idle_dial a t = Inr n \<Longrightarrow> \<not> shut n"
  by (auto simp: idle_dial_def idle_net_def)

lemma refused_login:
  "\<exists>e c. handshake fmt_v count_server (new_conn sample_config (idle_net ())) = Some (Inl e, c)"
proof -
  have n: "werr (net sample_conn) = None" "pend (net sample_conn) = []"
    "count_server (peer (net sample_conn)) (int32_bytes NetworkCompatibilityVersionInt) =
      ((), Inr (transmission count_reply, EOF))"
    by (simp_all add: idle_net_def count_server_def)
  obtain r c' where "exchange fmt_v count_server (connect_request (cfg sample_conn)) greeted_conn = Some (Inr r, c')"
      "Mode r = ModeUpdateCount"
    by (rule refused_exchange)
  then show ?thesis
    unfolding sample_conn_def[symmetric] handshake_steps[where srv = count_server, OF n] greeted_conn_def
    by (simp add: andThen_def)
qed

theorem sockets_closed_witness:
  "(\<exists>e n. connect (FormatV ascii_lib) count_server idle_dial sample_config = Some (Inl (e, Some n)) \<and> shut n) \<and>
    (\<exists>c0 c r c'. connect (FormatV ascii_lib) polite_server idle_dial sample_config = Some (Inr c0) \<and>
      runs ascii_lib polite_server c0 c \<and> sent (net c0) \<noteq> sent (net c) \<and> \<not> shut (net c) \<and>
      Close (FormatV ascii_lib) polite_server c = Some (r, c') \<and> shut (net c'))"
proof
  obtain e c where "handshake (FormatV ascii_lib) count_server (new_conn sample_config (idle_net ())) = Some (Inl e, c)"
    using refused_login by blast
  then have r: "connect (FormatV ascii_lib) count_server idle_dial sample_config = Some (Inl (e, Some (snd (net_close (net c)))))"
    by (simp add: connect_def idle_dial_def)
  from sockets_closed[OF idle_dial_open this] r
  show "\<exists>e n. connect (FormatV ascii_lib) count_server idle_dial sample_config = Some (Inl (e, Some n)) \<and> shut n"
    by auto
next
  obtain c0 c where r: "connect (FormatV ascii_lib) polite_server idle_dial sample_config = Some (Inr c0)"
      "runs ascii_lib polite_server c0 c" "IsValid c" "sent (net c0) \<noteq> sent (net c)"
    by (rule polite_session)
  from sockets_closed[OF idle_dial_open r(1)] r(2)
  have "shut (net c) \<longleftrightarrow> conn_closed c" "\<exists>r c'. Close (FormatV ascii_lib) polite_server c = Some (r, c') \<and> conn_closed c' \<and> shut (net c')"
    by auto
  with r show "\<exists>c0 c r c'. connect (FormatV ascii_lib) polite_server idle_dial sample_config = Some (Inr c0) \<and>
      runs ascii_lib polite_server c0 c \<and> sent (net c0) \<noteq> sent (net c) \<and> \<not> shut (net c) \<and>
      Close (FormatV ascii_lib) polite_server c = Some (r, c') \<and> shut (net c')"
    unfolding IsValid_def by blast
qed

end
