(* ===== verification/ColTypes.thy ===== *)
theory ColTypes
  imports ResultSets
begin

unbundle bit_operations_syntax

text \<open>
  \<^verbatim>\<open>rows_coltype.go\<close>: what a result set tells \<^verbatim>\<open>database/sql\<close> about the types of its columns.
\<close>

text \<open>The Go types that \<^verbatim>\<open>scanType\<close> names.\<close>

datatype go_type = TypeInt64 | TypeFloat64 | TypeBool | TypeString | TypeBytes | TypeTime | TypeAny

definition typeName :: "i16 \<Rightarrow> string" where
  "typeName code =
     (if code = SQLChar then ''CHAR''
      else if code = SQLVarchar then ''VARCHAR''
      else if code = SQLNumeric then ''NUMERIC''
      else if code = SQLDecimal then ''DECIMAL''
      else if code = SQLInteger then ''INTEGER''
      else if code = SQLSmallint then ''SMALLINT''
      else if code = SQLTinyint then ''TINYINT''
      else if code = SQLBigint then ''BIGINT''
      else if code = SQLReal then ''REAL''
      else if code = SQLFloat then ''FLOAT''
      else if code = SQLDouble then ''DOUBLE''
      else if code = SQLBoolean then ''BOOLEAN''
      else if code = SQLDate then ''DATE''
      else if code = SQLTime then ''TIME''
      else if code = SQLTimeTZ then ''TIME WITH TIME ZONE''
      else if code = SQLTimestamp then ''TIMESTAMP''
      else if code = SQLTimestampTZ then ''TIMESTAMP WITH TIME ZONE''
      else if code = SQLIntervalYear then ''INTERVAL YEAR''
      else if code = SQLIntervalMonth then ''INTERVAL MONTH''
      else if code = SQLIntervalDay then ''INTERVAL DAY''
      else if code = SQLIntervalHour then ''INTERVAL HOUR''
      else if code = SQLIntervalMinute then ''INTERVAL MINUTE''
      else if code = SQLIntervalSecond then ''INTERVAL SECOND''
      else if code = SQLIntervalYearToMonth then ''INTERVAL YEAR TO MONTH''
      else if code = SQLIntervalDayToHour then ''INTERVAL DAY TO HOUR''
      else if code = SQLIntervalDayToMinute then ''INTERVAL DAY TO MINUTE''
      else if code = SQLIntervalDayToSecond then ''INTERVAL DAY TO SECOND''
      else if code = SQLIntervalHourToMinute then ''INTERVAL HOUR TO MINUTE''
      else if code = SQLIntervalHourToSecond then ''INTERVAL HOUR TO SECOND''
      else if code = SQLIntervalMinuteToSecond then ''INTERVAL MINUTE TO SECOND''
      else if code = SQLBinary then ''BINARY''
      else if code = SQLVarbinary then ''VARBINARY''
      else if code = SQLBit \<or> code = SQLBitVarying then ''BIT''
      else if code = SQLBlob then ''BLOB''
      else if code = SQLClob then ''CLOB''
      else if code = SQLGuid then ''UUID''
      else if code = SQLArray then ''ARRAY''
      else ''OTHER'')"

definition scanType :: "i16 \<Rightarrow> go_type" where
  "scanType code =
     (if code \<in> {SQLTinyint, SQLSmallint, SQLInteger, SQLBigint} then TypeInt64
      else if code \<in> {SQLReal, SQLFloat, SQLDouble} then TypeFloat64
      else if code = SQLBoolean then TypeBool
      else if code \<in> {SQLChar, SQLVarchar, SQLDecimal, SQLNumeric, SQLIntervalYear, SQLIntervalMonth, SQLIntervalDay,
        SQLIntervalHour, SQLIntervalMinute, SQLIntervalSecond, SQLIntervalYearToMonth, SQLIntervalDayToHour,
        SQLIntervalDayToMinute, SQLIntervalDayToSecond, SQLIntervalHourToMinute, SQLIntervalHourToSecond,
        SQLIntervalMinuteToSecond, SQLArray} then TypeString
      else if code \<in> {SQLBinary, SQLVarbinary, SQLGuid, SQLOther} then TypeBytes
      else if code \<in> {SQLDate, SQLTime, SQLTimeTZ, SQLTimestamp, SQLTimestampTZ} then TypeTime
      else TypeAny)"

text \<open>The column at an index, if the result set has metadata and so many columns.\<close>

definition column_at :: "rows \<Rightarrow> nat \<Rightarrow> column option" where
  "column_at r index = (case rows_meta r of
      None \<Rightarrow> None
    | Some m \<Rightarrow> if length (Columns m) \<le> index then None else Some (Columns m ! index))"

definition ColumnTypeDatabaseTypeName :: "rows \<Rightarrow> nat \<Rightarrow> string" where
  "ColumnTypeDatabaseTypeName r index = (case column_at r index of None \<Rightarrow> [] | Some c \<Rightarrow> typeName (Code (ColType c)))"

definition ColumnTypeScanType :: "rows \<Rightarrow> nat \<Rightarrow> go_type" where
  "ColumnTypeScanType r index = (case column_at r index of None \<Rightarrow> TypeAny | Some c \<Rightarrow> scanType (Code (ColType c)))"

definition ColumnTypeNullable :: "rows \<Rightarrow> nat \<Rightarrow> bool \<times> bool" where
  "ColumnTypeNullable r index = (case column_at r index of
      None \<Rightarrow> (False, False)
    | Some c \<Rightarrow> if Attrs c AND 0x03 = 0 then (False, True)
                else if Attrs c AND 0x03 = 1 then (True, True)
                else (False, False))"

definition ColumnTypeLength :: "rows \<Rightarrow> nat \<Rightarrow> i64 \<times> bool" where
  "ColumnTypeLength r index = (case column_at r index of
      None \<Rightarrow> (0, False)
    | Some c \<Rightarrow>
        if Code (ColType c) \<in> {SQLChar, SQLVarchar, SQLBinary, SQLVarbinary, SQLBit, SQLBitVarying, SQLBlob, SQLClob}
        then if Precision (ColType c) <s 0 then (0, False) else (Precision (ColType c), True)
        else (0, False))"

definition ColumnTypePrecisionScale :: "rows \<Rightarrow> nat \<Rightarrow> i64 \<times> i64 \<times> bool" where
  "ColumnTypePrecisionScale r index = (case column_at r index of
      None \<Rightarrow> (0, 0, False)
    | Some c \<Rightarrow>
        if Code (ColType c) \<in> {SQLDecimal, SQLNumeric}
        then if Precision (ColType c) <s 0 then (0, 0, False)
             else (Precision (ColType c), scast (Scale (ColType c)), True)
        else (0, 0, False))"

section \<open>Values have the announced type\<close>

definition has_type :: "go_type \<Rightarrow> gval \<Rightarrow> bool" where
  "has_type t v = (case t of
      TypeInt64 \<Rightarrow> (case v of VInt64 _ \<Rightarrow> True | _ \<Rightarrow> False)
    | TypeFloat64 \<Rightarrow> (case v of VFloat64 _ \<Rightarrow> True | _ \<Rightarrow> False)
    | TypeBool \<Rightarrow> (case v of VBool _ \<Rightarrow> True | _ \<Rightarrow> False)
    | TypeString \<Rightarrow> (case v of VString _ \<Rightarrow> True | _ \<Rightarrow> False)
    | TypeBytes \<Rightarrow> (case v of VBytes _ \<Rightarrow> True | _ \<Rightarrow> False)
    | TypeTime \<Rightarrow> (case v of VTime _ \<Rightarrow> True | _ \<Rightarrow> False)
    | TypeAny \<Rightarrow> True)"

text \<open>The values that \<^verbatim>\<open>resolveValue\<close> passes on unchanged.\<close>

definition settled :: "gval \<Rightarrow> bool" where
  "settled v \<longleftrightarrow> (case v of VLobRef _ _ \<Rightarrow> False | VArrayValue _ _ \<Rightarrow> False | _ \<Rightarrow> True)"

lemma resolve_settled: "settled v \<Longrightarrow> resolveValue lib srv v c = Some (Inr v, v, c)"
  by (simp add: resolveValue_def settled_def split: gval.splits)

definition typed :: "i16 \<Rightarrow> gval \<Rightarrow> bool" where
  "typed code v \<longleftrightarrow> v = VNil \<or> (settled v \<and> has_type (scanType code) v) \<or>
     (\<exists>i b. v = VLobRef i b \<and> scanType code = TypeAny)"

lemma scan_types:
  "scanType SQLTinyint = TypeInt64" "scanType SQLSmallint = TypeInt64" "scanType SQLInteger = TypeInt64"
  "scanType SQLBigint = TypeInt64"
  "scanType SQLReal = TypeFloat64" "scanType SQLFloat = TypeFloat64" "scanType SQLDouble = TypeFloat64"
  "scanType SQLBoolean = TypeBool"
  "scanType SQLChar = TypeString" "scanType SQLVarchar = TypeString" "scanType SQLDecimal = TypeString"
  "scanType SQLNumeric = TypeString" "scanType SQLIntervalYear = TypeString" "scanType SQLIntervalMonth = TypeString"
  "scanType SQLIntervalDay = TypeString" "scanType SQLIntervalHour = TypeString" "scanType SQLIntervalMinute = TypeString"
  "scanType SQLIntervalSecond = TypeString" "scanType SQLIntervalYearToMonth = TypeString" "scanType SQLIntervalDayToHour = TypeString"
  "scanType SQLIntervalDayToMinute = TypeString" "scanType SQLIntervalDayToSecond = TypeString" "scanType SQLIntervalHourToMinute = TypeString"
  "scanType SQLIntervalHourToSecond = TypeString" "scanType SQLIntervalMinuteToSecond = TypeString" "scanType SQLArray = TypeString"
  "scanType SQLBinary = TypeBytes" "scanType SQLVarbinary = TypeBytes" "scanType SQLGuid = TypeBytes"
  "scanType SQLOther = TypeBytes"
  "scanType SQLDate = TypeTime" "scanType SQLTime = TypeTime" "scanType SQLTimeTZ = TypeTime"
  "scanType SQLTimestamp = TypeTime" "scanType SQLTimestampTZ = TypeTime"
  "scanType SQLBit = TypeAny" "scanType SQLBitVarying = TypeAny" "scanType SQLBlob = TypeAny"
  "scanType SQLClob = TypeAny"
  by (simp_all add: scanType_def)

lemma typed_intros:
  "typed code VNil" "scanType code = TypeString \<Longrightarrow> typed code (VString s)" "scanType code = TypeInt64 \<Longrightarrow> typed code (VInt64 i)"
  "scanType code = TypeFloat64 \<Longrightarrow> typed code (VFloat64 x)" "scanType code = TypeBool \<Longrightarrow> typed code (VBool b)"
  "scanType code = TypeTime \<Longrightarrow> typed code (VTime t)" "scanType code = TypeBytes \<Longrightarrow> typed code (VBytes bs)"
  "scanType code = TypeAny \<Longrightarrow> typed code (VBytes bs)" "scanType code = TypeAny \<Longrightarrow> typed code (VLobRef i b)"
  by (auto simp: typed_def settled_def has_type_def)

lemma typed_if:
  "(b \<Longrightarrow> typed code (fst x)) \<Longrightarrow> typed code (fst y) \<Longrightarrow> typed code (fst (if b then x else y))"
  "typed code v \<Longrightarrow> typed code (fst (v, r))"
  by simp_all

lemma scalar_type: "typed (Code ct) (fst (read_scalar ct r))"
  unfolding read_scalar_def Let_def case_prod_beta
  by (intro typed_if; (elim disjE)?; (rule typed_intros; simp only: scan_types)?)

text \<open>C20: whatever bytes a value is decoded from, what the driver finally delivers for it, LOBs fetched and
  arrays rendered, is NULL or has the Go type that the column's type announces.\<close>

theorem delivered_type:
  assumes "ReadValue ct r = (v, r')" "resolveValue lib srv v c = Some (Inr x, v', c')"
  shows "x = VNil \<or> has_type (scanType (Code ct)) x"
proof -
  consider "v = VNil" | vs where "v = VArrayValue vs (BaseCode ct) \<or> v = VArrayValue vs 0" "Code ct = SQLArray"
    | r1 where "read_scalar ct r1 = (v, r')"
    using assms(1) by (subst (asm) ReadValue.simps) (auto simp: Let_def split: if_splits prod.splits)
  then show ?thesis
  proof cases
    case 1
    then show ?thesis using assms(2) by (simp add: resolveValue_def)
  next
    case 2
    have "has_type TypeString x" using 2(1) assms(2)
      by (auto simp: resolveValue_def has_type_def split: bind_splits option.splits)
    then show ?thesis by (simp add: 2(2) scanType_def)
  next
    case 3
    have "typed (Code ct) v" using scalar_type[of ct r1] 3 by simp
    then consider "v = VNil" | "settled v" "has_type (scanType (Code ct)) v" | "scanType (Code ct) = TypeAny"
      by (auto simp: typed_def)
    then show ?thesis
    proof cases
      case 1
      then show ?thesis using assms(2) by (simp add: resolveValue_def)
    next
      case 2
      then show ?thesis using assms(2) resolve_settled[OF 2(1), of lib srv c] by simp
    next
      case 3
      then show ?thesis by (simp add: has_type_def)
    qed
  qed
qed

theorem delivered_type_witness:
  "has_type (scanType SQLInteger) (VInt64 7)"
proof -
  let ?ct = "type_of_code SQLInteger" and ?r = "NewRowInput [1, 0, 0, 0, 7]"
  obtain r' where r: "ReadValue ?ct ?r = (VInt64 7, r')"
    by (cases "ReadValue ?ct ?r", subst (asm) ReadValue.simps)
      (simp add: NewRowInput_def type_of_code_def ReadU8_def ReadInt_def need_def read_scalar_def Remaining_def)
  have "resolveValue lib srv (VInt64 7) c = Some (Inr (VInt64 7), VInt64 7, c)" for lib srv and c :: "unit conn"
    by (rule resolve_settled) (simp add: settled_def)
  from delivered_type[OF r this] show ?thesis by (simp add: type_of_code_def)
qed

end
