(* ===== verification/RowsProps.thy ===== *)
theory RowsProps
  imports ArrayProps ColTypes SessionProps
begin

unbundle bit_operations_syntax

text \<open>
  Result sets against their specification: iterating over the blocks that the server hands out is
  iterating over one list of rows, and closing sends CLOSE_RESULT exactly when rows are unread.
\<close>

section \<open>Requests\<close>

lemma encodable_by:
  "plain_request req \<Longrightarrow> (case EncodePayload fmt_v req NewRowOutput of Some (None, w) \<Rightarrow> True | _ \<Rightarrow> False) \<Longrightarrow> encodable fmt_v req"
  by (auto simp: encodable_def encodes_def split: option.splits prod.splits)

lemma encodable_rows [simp]:
  "encodable fmt_v ((NewResult ModeRequestData)\<lparr>ID := i, UpdateCount := u, FetchSize := s\<rparr>)"
  "encodable fmt_v (close_request i)"
  by (simp_all add: encodable_def encodes_def plain_request_def EncodePayload_def NewResult_def close_request_def Let_def)

text \<open>The request for the rows from position \<open>i\<close> on.\<close>

definition data_request :: "config \<Rightarrow> i64 \<Rightarrow> nat \<Rightarrow> message" where
  "data_request cf rid i = (NewResult ModeRequestData)\<lparr>ID := rid, UpdateCount := word_of_nat i,
     FetchSize := word_of_int (cfgFetchSize cf)\<rparr>"

lemma background_entry: "in_time Background"
  by simp

section \<open>Rows without LOBs\<close>

text \<open>Rows of at least \<open>w\<close> values that need no fetching.\<close>

definition plain_rows :: "nat \<Rightarrow> gval list list \<Rightarrow> bool" where
  "plain_rows w all \<longleftrightarrow> (\<forall>row\<in>set all. w \<le> length row \<and> list_all settled row)"

lemma resolve_plain:
  "k \<le> length row \<Longrightarrow> list_all settled row \<Longrightarrow> resolve_cells lib srv k row c = Some (Inr (take k row), row, c)"
proof (induction lib srv k row c rule: resolve_cells.induct)
  case (3 lib srv k v row c)
  then have r: "resolveValue lib srv v c = Some (Inr v, v, c)" by (simp add: resolve_settled)
  have "resolve_cells lib srv k row c = Some (Inr (take k row), row, c)" using 3(1)[OF r refl refl] 3(2,3) by simp
  then show ?case by (simp add: r)
qed auto

section \<open>The cursor and its rows\<close>

text \<open>
  A server that holds the rows \<open>all\<close> under the id \<open>rid\<close> in each of its states \<open>S\<close>: it answers the request
  for the rows from \<open>i\<close> on with some of them, at least one.
\<close>

definition serves_rows :: "(gval \<Rightarrow> string) \<Rightarrow> 'p reply \<Rightarrow> config \<Rightarrow> i64 \<Rightarrow> nat \<Rightarrow> gval list list \<Rightarrow> 'p set \<Rightarrow> bool" where
  "serves_rows fmt_v reply cf rid w all S \<longleftrightarrow> (\<forall>p\<in>S. \<forall>i<length all. \<exists>p' r rs rset k.
     reply p (request_frame fmt_v (data_request cf rid i)) = (p', r, rs) \<and> p' \<in> S \<and> Mode r \<noteq> ModeError \<and>
     RowSet r = Some rset \<and> Rows rset = take (Suc k) (drop i all) \<and>
     (\<forall>m. Meta r = Some m \<longrightarrow> length (Columns m) = w))"

text \<open>\<open>stands_at\<close>: the result set has the rows \<open>all\<close> and its reader stands before row \<open>i\<close>.\<close>

definition stands_at :: "i64 \<Rightarrow> nat \<Rightarrow> gval list list \<Rightarrow> rows \<Rightarrow> nat \<Rightarrow> bool" where
  "stands_at rid w all r i \<longleftrightarrow> resultID r = rid \<and> \<not> rows_done r \<and>
     (\<exists>m. rows_meta r = Some m \<and> length (Columns m) = w) \<and>
     total r = word_of_nat (length all) \<and> absPos r = word_of_nat i \<and> i \<le> length all \<and>
     (\<exists>k. drop (blockPos r) (block r) = take k (drop i all))"

lemma deliver_at:
  assumes "stands_at rid w all r i" "plain_rows w all" "blockPos r < length (block r)"
  shows "i < length all" "deliver lib srv n r c = Some (Inr (take (min n w) (all ! i)),
    r\<lparr>blockPos := blockPos r + 1, absPos := absPos r + 1\<rparr>, c)"
    "stands_at rid w all (r\<lparr>blockPos := blockPos r + 1, absPos := absPos r + 1\<rparr>) (Suc i)"
proof -
  obtain m k where m: "rows_meta r = Some m" "length (Columns m) = w"
    and d: "drop (blockPos r) (block r) = take k (drop i all)" and i: "i \<le> length all"
    using assms(1) by (auto simp: stands_at_def)
  obtain k' where k: "k = Suc k'" using d assms(3) by (cases k) auto
  have ne: "drop (blockPos r) (block r) \<noteq> []" using assms(3) by simp
  then show il: "i < length all" using d i by (cases "i = length all") auto
  have hd: "block r ! blockPos r = all ! i"
    using d il k by (metis Cons_nth_drop_Suc assms(3) nth_Cons_0 take_Suc_Cons)
  have tl: "drop (Suc (blockPos r)) (block r) = take k' (drop (Suc i) all)"
    using d il k assms(3) by (simp add: Cons_nth_drop_Suc[symmetric])
  have "all ! i \<in> set all" using il by simp
  then have row: "w \<le> length (all ! i)" "list_all settled (all ! i)" using assms(2) by (auto simp: plain_rows_def)
  show "deliver lib srv n r c = Some (Inr (take (min n w) (all ! i)), r\<lparr>blockPos := blockPos r + 1, absPos := absPos r + 1\<rparr>, c)"
    by (simp add: deliver_def m hd resolve_plain[OF min.coboundedI2[OF row(1)] row(2)])
  show "stands_at rid w all (r\<lparr>blockPos := blockPos r + 1, absPos := absPos r + 1\<rparr>) (Suc i)"
    using assms(1) il tl m by (auto simp: stands_at_def)
qed

lemma words_ordered:
  assumes "length all < 2 ^ 31" "i \<le> length all"
  shows "(word_of_nat (length all) :: i32) <=s word_of_nat i \<longleftrightarrow> i = length all"
proof -
  have "sint (word_of_nat j :: i32) = int j" if "j \<le> length all" for j
    using that assms(1) by (intro sint_of_nat_small) simp
  then show ?thesis using assms(2) by (auto simp: word_sle_eq)
qed

text \<open>One call of \<^verbatim>\<open>Next\<close> takes one row off the specification's list.\<close>

lemma Next_row:
  assumes "speaks srv reply" "serves_rows (FormatV lib) reply (cfg c) rid w all S" "plain_rows w all" "length all < 2 ^ 31"
    and "stands_at rid w all r i" "live c" "peer (net c) \<in> S" "i < length all"
  shows "\<exists>r' c'. Next lib srv n r c = Some (Inr (take (min n w) (all ! i)), r', c') \<and> stands_at rid w all r' (Suc i) \<and>
    live c' \<and> cfg c' = cfg c \<and> peer (net c') \<in> S"
proof (cases "blockPos r < length (block r)")
  case True
  have "\<not> rows_done r" using assms(5) by (simp add: stands_at_def)
  then show ?thesis
    using deliver_at(2)[OF assms(5,3) True, of lib srv n c] deliver_at(3)[OF assms(5,3) True] True assms(6,7)
    by (intro exI[of _ "r\<lparr>blockPos := blockPos r + 1, absPos := absPos r + 1\<rparr>"] exI[of _ c]) (simp add: Next_def)
next
  case False
  have open_: "\<not> rows_done r" and rq: "request_data r c = data_request (cfg c) rid i" and rem: "\<not> total r <=s absPos r"
    using assms(5,8) words_ordered[OF assms(4), of i] by (auto simp: stands_at_def request_data_def data_request_def)
  obtain p' m rs rset k where rp: "reply (peer (net c)) (request_frame (FormatV lib) (data_request (cfg c) rid i)) = (p', m, rs)"
    and p': "p' \<in> S" and ok: "Mode m \<noteq> ModeError" and rset: "RowSet m = Some rset" "Rows rset = take (Suc k) (drop i all)"
    and meta: "\<forall>x. Meta m = Some x \<longrightarrow> length (Columns x) = w"
    using assms(2,7,8) unfolding serves_rows_def by blast
  have enc: "encodable (FormatV lib) (data_request (cfg c) rid i)" by (simp add: data_request_def)
  obtain c' where c': "execCtx (FormatV lib) srv Background (data_request (cfg c) rid i) c = Some (Inr (message.extend m \<lparr>Chained = rs\<rparr>), c')"
    "said (FormatV lib) c [data_request (cfg c) rid i] c'" "peer (net c') = p'"
    using exec_speaks[OF assms(1,6) background_entry enc rp] ok by auto
  let ?r = "r\<lparr>block := Rows rset, blockPos := 0, rows_meta := (if Meta m = None then rows_meta r else Meta m)\<rparr>"
  have ne: "Rows rset \<noteq> []" using rset assms(8) by simp
  have f: "fetchMore lib srv r c = Some (None, ?r, c')"
    using rem c'(1) rset(1) ne by (simp add: fetchMore_def exec_def rq)
  have st: "stands_at rid w all ?r i"
  proof -
    obtain x where "(if Meta m = None then rows_meta r else Meta m) = Some x \<and> length (Columns x) = w"
      using assms(5) meta by (cases "Meta m") (auto simp: stands_at_def)
    then show ?thesis using assms(5) rset(2) by (auto simp: stands_at_def)
  qed
  have b: "blockPos ?r < length (block ?r)" using ne by simp
  have cl: "live c'" "cfg c' = cfg c" using c'(2) by (simp_all add: said_def)
  show ?thesis
    using deliver_at(2)[OF st assms(3) b, of lib srv n c'] deliver_at(3)[OF st assms(3) b] False open_ f ne cl c'(3) p'
    by (intro exI[of _ "?r\<lparr>blockPos := blockPos ?r + 1, absPos := absPos ?r + 1\<rparr>"] exI[of _ c'])
      (simp add: Next_def)
qed

lemma Next_end:
  assumes "stands_at rid w all r (length all)" "length all < 2 ^ 31"
  shows "\<exists>r'. Next lib srv n r c = Some (Inl EOF, r', c) \<and> rows_done r' \<and> total r' = total r \<and> absPos r' = absPos r \<and> resultID r' = rid"
proof -
  have "drop (blockPos r) (block r) = []" "total r <=s absPos r" "\<not> rows_done r" "resultID r = rid"
    using assms words_ordered[OF assms(2), of "length all"] by (auto simp: stands_at_def)
  then show ?thesis by (simp add: Next_def fetchMore_def)
qed

section \<open>Draining\<close>

text \<open>What \<^verbatim>\<open>database/sql\<close> does: call \<^verbatim>\<open>Next\<close> until it fails, at most \<open>k\<close> times.\<close>

fun drain :: "text_lib \<Rightarrow> 'p server \<Rightarrow> nat \<Rightarrow> nat \<Rightarrow> rows \<Rightarrow> 'p conn \<Rightarrow> (gval list list \<times> go_error \<times> rows \<times> 'p conn) option" where
  "drain lib srv n 0 r c = None"
| "drain lib srv n (Suc k) r c =
     do { (res, r, c) \<leftarrow> Next lib srv n r c;
          case res of
            Inl e \<Rightarrow> Some ([], e, r, c)
          | Inr row \<Rightarrow> do { (rows, e, r, c) \<leftarrow> drain lib srv n k r c; Some (row # rows, e, r, c) } }"

lemma drain_from:
  assumes "speaks srv reply" "serves_rows (FormatV lib) reply (cfg c) rid w all S" "plain_rows w all" "length all < 2 ^ 31"
    and "stands_at rid w all r i" "live c" "peer (net c) \<in> S"
  shows "\<exists>r' c'. drain lib srv n (length all - i + 1) r c = Some (map (take (min n w)) (drop i all), EOF, r', c') \<and>
    live c' \<and> total r' = absPos r' \<and> resultID r' = rid"
  using assms(2,5-7)
proof (induction "length all - i" arbitrary: i r c)
  case 0
  then have "i = length all" by (simp add: stands_at_def)
  then show ?case using Next_end[of rid w all r lib srv n c] 0 assms(4) by (force simp: stands_at_def)
next
  case (Suc d)
  have i: "i < length all" using Suc(2) by simp
  obtain r1 c1 where 1: "Next lib srv n r c = Some (Inr (take (min n w) (all ! i)), r1, c1)" "stands_at rid w all r1 (Suc i)"
    "live c1" "cfg c1 = cfg c" "peer (net c1) \<in> S"
    using Next_row[OF assms(1) Suc(3) assms(3,4) Suc(4-6) i] by blast
  have sv: "serves_rows (FormatV lib) reply (cfg c1) rid w all S" using Suc(3) 1(4) by simp
  have d: "d = length all - Suc i" using Suc(2) by simp
  obtain r' c' where 2: "drain lib srv n (length all - Suc i + 1) r1 c1 = Some (map (take (min n w)) (drop (Suc i) all), EOF, r', c')"
    "live c'" "total r' = absPos r'" "resultID r' = rid"
    using Suc(1)[OF d sv 1(2,3,5)] by blast
  have l: "length all - i + 1 = Suc (length all - Suc i + 1)" using i by simp
  have "drain lib srv n (length all - i + 1) r c = Some (map (take (min n w)) (drop i all), EOF, r', c')"
    unfolding l drain.simps using 1(1) 2(1) i by (simp add: Cons_nth_drop_Suc[symmetric] del: drain.simps)
  then show ?case using 2(2-4) by blast
qed

text \<open>C13: iterating over a result set is iterating over one list.  If the server holds the rows, announces
  their number, delivers a first block and answers each request for more with at least one further row,
  then, however it cuts the rows into blocks, calling \<^verbatim>\<open>Next\<close> until it fails yields exactly the rows in
  order, ends with \<^verbatim>\<open>io.EOF\<close>, leaves the connection live, and the following \<^verbatim>\<open>Close\<close> sends nothing.\<close>

theorem result_set_refines:
  assumes "speaks srv reply" "serves_rows (FormatV lib) reply (cfg c) (SetID rset) w all S" "plain_rows w all"
    and "length all < 2 ^ 31" "live c" "peer (net c) \<in> S"
    and "isRowsResult res" "Meta res = Some m" "length (Columns m) = w" "RowSet res = Some rset"
    and "SetSize rset = word_of_nat (length all)" "Rows rset = take k all"
  shows "\<exists>r' c'. drain lib srv n (length all + 1) (newRows res chained) c = Some (map (take (min n w)) all, EOF, r', c') \<and>
    live c' \<and> CloseRows lib srv r' c' = Some (Inr (), r'\<lparr>rows_done := True, next_results := []\<rparr>, c')"
proof -
  have st: "stands_at (SetID rset) w all (newRows res chained) 0"
    using assms(8-12) by (auto simp: stands_at_def newRows_def loadResult_def empty_rows_def Let_def)
  obtain r' c' where d: "drain lib srv n (length all - 0 + 1) (newRows res chained) c = Some (map (take (min n w)) (drop 0 all), EOF, r', c')"
    "live c'" "total r' = absPos r'"
    using drain_from[OF assms(1-4) st assms(5,6), of n] by blast
  have "CloseRows lib srv r' c' = Some (Inr (), r'\<lparr>rows_done := True, next_results := []\<rparr>, c')"
    using d(3) by (simp add: CloseRows_def closeCurrent_def Let_def)
  then show ?thesis using d(1,2) by (intro exI[of _ r'] exI[of _ c']) simp
qed

text \<open>A peer that holds one row and sends it on every request.\<close>

definition page_payload :: "byte list" where
  "page_payload = [0, 0, 0, 1, 0, 0, 0, 1, 0, 0, 0, 1, 0, 4, 0, 0, 0, 0, 0, 0, 0, 0, 0, 0, 0, 0, 0, 0, 0, 1, 78,
     0, 0, 0, 0, 0, 0, 0, 0, 0, 0, 0, 0, 0, 0, 0, 0, 0, 0, 0, 0, 0, 0, 0, 0, 9, 0, 0, 0, 1, 0, 0, 0, 0, 0, 0, 0, 1,
     1, 0, 0, 0, 7]"

definition page_meta :: metadata where
  "page_meta = zero_meta\<lparr>MetaType := MetaResult, ColumnCount := 1, ExtendedCount := 1,
     Types := [type_of_code SQLInteger], Columns := [zero_column\<lparr>ColType := type_of_code SQLInteger, Label := ''N''\<rparr>]\<rparr>"

definition page_rows :: "gval list list \<Rightarrow> row_set" where
  "page_rows rows = \<lparr>SetID = 9, SetSize = 1, CurrentOffset = 0, Rows = rows\<rparr>"

definition page_message :: message where
  "page_message = (NewResult ModeDataRows)\<lparr>Meta := Some page_meta, RowSet := Some (page_rows [[VInt64 7]])\<rparr>"

definition page_server :: "unit server" where
  "page_server p bs = (p, Inr (transmission [(ModeDataRows, page_payload)], EOF))"

definition page_reply :: "unit reply" where
  "page_reply p f = (p, page_message, [])"

lemma speaks_page: "speaks page_server page_reply"
proof -
  have "DecodeResult ModeDataRows page_payload = Some (Inr page_message)" by code_simp
  then have "decodes [(ModeDataRows, page_payload)] [page_message]"
    by (simp add: decodes_def) (simp add: page_payload_def)
  then show ?thesis by (auto simp: speaks_def page_server_def page_reply_def)
qed

theorem result_set_refines_witness:
  "\<exists>r' c'. drain ascii_lib page_server 1 2 (newRows (page_message\<lparr>Mode := ModeDataHead, RowSet := Some (page_rows [])\<rparr>) [])
      sample_conn = Some ([[VInt64 7]], EOF, r', c') \<and> live c'"
proof -
  let ?res = "page_message\<lparr>Mode := ModeDataHead, RowSet := Some (page_rows [])\<rparr>" and ?all = "[[VInt64 7]]"
  have sv: "serves_rows (FormatV ascii_lib) page_reply (cfg sample_conn) (SetID (page_rows [])) 1 ?all {()}"
    by (auto simp: serves_rows_def page_reply_def page_message_def NewResult_def page_rows_def page_meta_def intro: exI[of _ 0])
  have pl: "plain_rows 1 ?all" by (simp add: plain_rows_def settled_def)
  have rr: "isRowsResult ?res" "Meta ?res = Some page_meta" "length (Columns page_meta) = 1" "RowSet ?res = Some (page_rows [])"
    "SetSize (page_rows []) = word_of_nat (length ?all)" "Rows (page_rows []) = take 0 ?all"
    by (simp_all add: isRowsResult_def page_message_def page_meta_def page_rows_def)
  have "length ?all < 2 ^ 31" "peer (net sample_conn) \<in> {()}" by simp_all
  from result_set_refines[OF speaks_page sv pl this(1) sample_conn_live(1) this(2) rr, of 1 "[]"]
  obtain r' c' where d: "drain ascii_lib page_server 1 (length ?all + 1) (newRows ?res []) sample_conn =
      Some (map (take (min 1 1)) ?all, EOF, r', c')" "live c'" by blast
  have "length ?all + 1 = 2" "map (take (min 1 1)) ?all = ?all" by simp_all
  then show ?thesis using d by (metis (no_types))
qed

section \<open>Closing\<close>

text \<open>C26: closing a result set on a live connection sends one CLOSE_RESULT with its id if rows are left to
  be read, and nothing otherwise, whatever the server answers.  That is also so when every row has
  already been delivered in the block at hand, which the comment on \<^verbatim>\<open>Close\<close> excludes.\<close>

theorem close_sends:
  assumes "speaks srv reply" "live c"
  shows "\<exists>res c'. CloseRows lib srv r c = Some (res, r\<lparr>rows_done := True, next_results := []\<rparr>, c') \<and>
    said (FormatV lib) c (if resultID r \<noteq> 0 \<and> absPos r <s total r then [close_request (resultID r)] else []) c'"
proof (cases "resultID r \<noteq> 0 \<and> absPos r <s total r")
  case True
  obtain p' m rs where rp: "reply (peer (net c)) (request_frame (FormatV lib) (close_request (resultID r))) = (p', m, rs)"
    by (metis prod_cases3)
  obtain x c' where x: "execCtx (FormatV lib) srv Background (close_request (resultID r)) c = Some (x, c')"
    "said (FormatV lib) c [close_request (resultID r)] c'"
    using exec_speaks[OF assms background_entry encodable_rows(2) rp] by blast
  have "\<not> total r <=s absPos r" using True by (simp add: word_sle_eq word_sless_alt)
  then show ?thesis
    using True x live_not_unusable[OF assms(2)]
    by (auto simp: CloseRows_def closeCurrent_def Let_def exec_def unit_step[of _ c] andThen_def ok_def split: sum.split)
next
  case False
  then show ?thesis using assms(2)
    by (auto simp: CloseRows_def closeCurrent_def Let_def said_refl word_sle_eq word_sless_alt)
qed

theorem close_sends_witness:
  "\<exists>res c'. CloseRows ascii_lib page_server (newRows page_message []) sample_conn =
      Some (res, (newRows page_message [])\<lparr>rows_done := True, next_results := []\<rparr>, c') \<and>
    said (FormatV ascii_lib) sample_conn [close_request 9] c' \<and> length (block (newRows page_message [])) = 1"
proof -
  have r: "resultID (newRows page_message []) = 9" "total (newRows page_message []) = 1" "absPos (newRows page_message []) = 0"
    "length (block (newRows page_message [])) = 1"
    by (simp_all add: newRows_def loadResult_def page_message_def page_rows_def Let_def)
  show ?thesis using close_sends[OF speaks_page sample_conn_live(1), where r = "newRows page_message []" and lib = ascii_lib] r
    by (simp add: word_sless_alt)
qed

end
