(* ===== verification/StmtProps.thy ===== *)
theory StmtProps
  imports Statements RowsProps "HOL-Library.Multiset"
begin

unbundle bit_operations_syntax

text \<open>
  Procedure calls with OUT and INOUT parameters, and prepared batches: the requests they send and what they
  leave in the destinations.
\<close>

section \<open>The contract of the statement operations\<close>

lemma steady_PrepareContext [intro]: "steady (PrepareContext lib srv ctx query)"
  unfolding PrepareContext_def[abs_def]
  by (intro steady_guard steady_andThen steady_execCtx) (auto simp: steady_def)

lemma steady_direct [intro]:
  "steady (ExecContext lib srv ctx query args)" "steady (QueryContext lib srv ctx query args)"
proof -
  have "steady (\<lambda>c. andThen (execCtx (FormatV lib) srv ctx (f c)) (\<lambda>res. ok (g res)) c)" for f and g :: "response \<Rightarrow> 'b"
    by (rule steady_at[where f = "\<lambda>c0. andThen (execCtx (FormatV lib) srv ctx (f c0)) (\<lambda>res. ok (g res))"])
      (intro steady_andThen steady_execCtx steady_ok)
  then show "steady (ExecContext lib srv ctx query args)" unfolding ExecContext_def[abs_def] by (intro steady_guard)
  have "steady (\<lambda>c. andThen (execCtx (FormatV lib) srv ctx (f c)) (\<lambda>res. ok (g res)) c)" for f and g :: "response \<Rightarrow> 'b"
    by (rule steady_at[where f = "\<lambda>c0. andThen (execCtx (FormatV lib) srv ctx (f c0)) (\<lambda>res. ok (g res))"])
      (intro steady_andThen steady_execCtx steady_ok)
  then show "steady (QueryContext lib srv ctx query args)" unfolding QueryContext_def[abs_def] by (intro steady_guard)
qed

lemma evolves_CloseStmt: "CloseStmt lib srv s c = Some (res, s', c') \<Longrightarrow> evolves c c'"
  by (auto simp: CloseStmt_def exec_def dest!: evolves_execCtx split: if_splits bind_splits)

lemma steady_ExecBatch [intro]: "steady (ExecBatch lib srv ctx sqls)"
  unfolding ExecBatch_def[abs_def] by (intro steady_guard steady_andThen steady_execCtx steady_ok)

lemma steady_ExecPreparedBatch [intro]: "steady (ExecPreparedBatch lib srv ctx query argRows)"
proof -
  have "evolves c c'" if "execCtx (FormatV lib) srv ctx req c = Some (res, c1)" "CloseStmt lib srv s c1 = Some (e, s', c')"
    for c c' c1 req res s e s'
    using evolves_trans[OF evolves_execCtx[OF that(1)] evolves_CloseStmt[OF that(2)]] .
  then show ?thesis
    unfolding ExecPreparedBatch_def[abs_def]
    by (intro steady_guard steady_andThen steady_PrepareContext) (auto simp: steady_def split: option.splits bind_splits)
qed

interpretation prepare_stmt_call: conn_call "PrepareContext lib srv ctx query"
  by (rule conn_callI[OF _ steady_PrepareContext])
    (auto simp: PrepareContext_def unusable_def execCtx_def andThen_def)

interpretation exec_direct_call: conn_call "ExecContext lib srv ctx query []"
  by (rule conn_callI[OF _ steady_direct(1)]) (simp add: ExecContext_def unusable_def)

interpretation query_direct_call: conn_call "QueryContext lib srv ctx query []"
  by (rule conn_callI[OF _ steady_direct(2)]) (simp add: QueryContext_def unusable_def)

interpretation batch_call: conn_call "ExecBatch lib srv ctx sqls"
  by (rule conn_callI[OF _ steady_ExecBatch]) (simp add: ExecBatch_def unusable_def)

interpretation prepared_batch_call: conn_call "ExecPreparedBatch lib srv ctx query argRows"
  by (rule conn_callI[OF _ steady_ExecPreparedBatch]) (simp add: ExecPreparedBatch_def unusable_def)

section \<open>Binding\<close>

text \<open>The value that is sent for an argument, and the arguments that can be bound.\<close>

definition bound :: "store \<Rightarrow> gval \<Rightarrow> gval" where
  "bound st v = (case v of VOut (DestPtr p) inout \<Rightarrow> if inout then interface_of (st p) else VNil | _ \<Rightarrow> v)"

definition bindable :: "store \<Rightarrow> gval \<Rightarrow> bool" where
  "bindable st v = (case v of
      VOut (DestPtr p) inout \<Rightarrow> inout \<longrightarrow> checkOutInputValue (interface_of (st p)) = None
    | VOut _ _ \<Rightarrow> False
    | _ \<Rightarrow> True)"

text \<open>The positions of the OUT arguments with their pointers.\<close>

fun outs_from :: "nat \<Rightarrow> gval list \<Rightarrow> (nat \<times> nat) list" where
  "outs_from k [] = []"
| "outs_from k (v # vs) = (case v of VOut (DestPtr p) _ \<Rightarrow> [(k, p)] | _ \<Rightarrow> []) @ outs_from (Suc k) vs"

lemma split_outs_ok: "list_all (bindable st) vals \<Longrightarrow> split_outs st k vals = Inr (map (bound st) vals, outs_from k vals)"
proof (induction vals arbitrary: k)
  case (Cons v vs)
  then show ?case
    by (cases v) (auto simp: bindable_def bound_def checkOutValue_def Let_def map_prod_def split: out_dest.splits)
qed simp

lemma set_outs_from: "(j, p) \<in> set (outs_from k vals) \<longleftrightarrow>
    (\<exists>i<length vals. j = k + i \<and> (\<exists>inout. vals ! i = VOut (DestPtr p) inout))"
proof (induction vals arbitrary: k)
  case (Cons v vs)
  have "(j, p) \<in> set (outs_from k (v # vs)) \<longleftrightarrow> (j = k \<and> (\<exists>inout. v = VOut (DestPtr p) inout)) \<or> (j, p) \<in> set (outs_from (Suc k) vs)"
    by (cases v) (auto split: out_dest.splits)
  then show ?case unfolding Cons.IH by (simp add: Ex_less_Suc2 del: outs_from.simps)
qed simp

text \<open>No destination is bound twice.\<close>

definition separate :: "gval list \<Rightarrow> bool" where
  "separate vals \<longleftrightarrow> (\<forall>i j p a b. i < length vals \<and> j < length vals \<and> vals ! i = VOut (DestPtr p) a \<and>
     vals ! j = VOut (DestPtr p) b \<longrightarrow> i = j)"

lemma separate_Cons:
  assumes "separate (v # vs)"
  shows "separate vs" "v = VOut (DestPtr p) a \<Longrightarrow> i < length vs \<Longrightarrow> vs ! i \<noteq> VOut (DestPtr p) b"
proof -
  show "separate vs"
    using assms unfolding separate_def by (metis Suc_inject Suc_less_eq length_Cons nth_Cons_Suc)
  show "vs ! i \<noteq> VOut (DestPtr p) b" if "v = VOut (DestPtr p) a" "i < length vs"
    using assms that unfolding separate_def
    by (metis Suc_less_eq length_Cons nat.distinct(1) nth_Cons_0 nth_Cons_Suc zero_less_Suc)
qed

lemma distinct_outs_from: "separate vals \<Longrightarrow> distinct (map snd (outs_from k vals))"
proof (induction vals arbitrary: k)
  case (Cons v vs)
  have "(j, p) \<notin> set (outs_from (Suc k) vs)" if "v = VOut (DestPtr p) a" for j p a
    using separate_Cons(2)[OF Cons.prems that] by (auto simp: set_outs_from)
  then show ?case using Cons.IH[OF separate_Cons(1)[OF Cons.prems]]
    by (cases v) (force split: out_dest.splits)+
qed simp

section \<open>Assignment\<close>

lemma assign_outs_all:
  assumes "list_all settled row" "distinct (map snd xs)"
    and "\<forall>(i, p)\<in>set xs. i < length row \<and> fst (assignOutValue lib (scan p) (st p) (row ! i)) = None"
  shows "\<exists>st'. assign_outs lib srv scan row xs st c = Some (None, st', c) \<and>
    (\<forall>(i, p)\<in>set xs. st' p = snd (assignOutValue lib (scan p) (st p) (row ! i))) \<and> (\<forall>p. p \<notin> snd ` set xs \<longrightarrow> st' p = st p)"
  using assms(2,3)
proof (induction xs arbitrary: st)
  case (Cons x xs)
  obtain i p where x: "x = (i, p)" by fastforce
  have i: "i < length row" using Cons.prems(2) x by simp
  then have r: "resolveValue lib srv (row ! i) c = Some (Inr (row ! i), row ! i, c)"
    using assms(1) by (simp add: resolve_settled list_all_length)
  have "fst (assignOutValue lib (scan p) (st p) (row ! i)) = None" using Cons.prems(2) x by simp
  then obtain cell where a: "assignOutValue lib (scan p) (st p) (row ! i) = (None, cell)" by (metis prod.collapse)
  have other: "q \<noteq> p" if "(j, q) \<in> set xs" for j q
    using Cons.prems(1) x that by force
  have "\<forall>(j, q)\<in>set xs. j < length row \<and> fst (assignOutValue lib (scan q) ((st(p := cell)) q) (row ! j)) = None"
    using Cons.prems(2) other by fastforce
  moreover have "distinct (map snd xs)" using Cons.prems(1) by simp
  ultimately obtain st' where st': "assign_outs lib srv scan row xs (st(p := cell)) c = Some (None, st', c)"
    "\<forall>(j, q)\<in>set xs. st' q = snd (assignOutValue lib (scan q) ((st(p := cell)) q) (row ! j))"
    "\<forall>q. q \<notin> snd ` set xs \<longrightarrow> st' q = (st(p := cell)) q"
    using Cons.IH by blast
  have "p \<notin> snd ` set xs" using Cons.prems(1) x by simp
  then have "st' p = cell" using st'(3) by simp
  moreover have "assign_outs lib srv scan row (x # xs) st c = Some (None, st', c)"
    using i r a st'(1) by (simp add: x Let_def)
  ultimately show ?case using st'(2,3) other x a by fastforce
qed simp

section \<open>Calling a procedure\<close>

lemma resolve_all_ok:
  assumes "list_all settled row" "separate vals" "mset xs = mset (outs_from 0 vals)"
    and "\<forall>i<length vals. \<forall>p inout. vals ! i = VOut (DestPtr p) inout \<longrightarrow>
      i < length row \<and> fst (assignOutValue lib (scan p) (st p) (row ! i)) = None"
  shows "\<exists>st'. assign_outs lib srv scan row xs st c = Some (None, st', c) \<and>
    (\<forall>i<length vals. \<forall>p inout. vals ! i = VOut (DestPtr p) inout \<longrightarrow>
      st' p = snd (assignOutValue lib (scan p) (st p) (row ! i))) \<and>
    (\<forall>p. (\<forall>i<length vals. \<forall>inout. vals ! i \<noteq> VOut (DestPtr p) inout) \<longrightarrow> st' p = st p)"
proof -
  have s: "set xs = set (outs_from 0 vals)" using assms(3) by (rule mset_eq_setD)
  have d: "distinct (map snd xs)"
    using distinct_outs_from[OF assms(2), of 0] assms(3) by (metis mset_map mset_eq_imp_distinct_iff)
  have o: "\<forall>(i, p)\<in>set xs. i < length row \<and> fst (assignOutValue lib (scan p) (st p) (row ! i)) = None"
    using assms(4) by (auto simp: s set_outs_from)
  obtain st' where st': "assign_outs lib srv scan row xs st c = Some (None, st', c)"
    "\<forall>(i, p)\<in>set xs. st' p = snd (assignOutValue lib (scan p) (st p) (row ! i))"
    "\<forall>p. p \<notin> snd ` set xs \<longrightarrow> st' p = st p"
    using assign_outs_all[OF assms(1) d o] by blast
  have "st' p = snd (assignOutValue lib (scan p) (st p) (row ! i))"
    if "i < length vals" "vals ! i = VOut (DestPtr p) inout" for i p inout
  proof -
    have "(i, p) \<in> set xs" using that unfolding s set_outs_from by auto
    then show ?thesis using st'(2) by blast
  qed
  moreover have "st' p = st p" if "\<forall>i<length vals. \<forall>inout. vals ! i \<noteq> VOut (DestPtr p) inout" for p
  proof -
    have "(j, p) \<notin> set xs" for j using that unfolding s set_outs_from by auto
    then show ?thesis using st'(3) by force
  qed
  ultimately show ?thesis using st'(1) by blast
qed

lemma namedToValues_in_order [simp]: "namedToValues (valuesToNamed vals) = vals"
proof -
  let ?f = "\<lambda>out a. let idx = Ordinal a - 1 in if 0 \<le> idx \<and> idx < int (length out) then out[nat idx := NamedVal a] else out"
  have "foldl ?f (take k vals @ replicate (length vals - k) VNil) (drop k (valuesToNamed vals)) = vals" if "k \<le> length vals" for k
    using that
  proof (induction "length vals - k" arbitrary: k)
    case 0
    then show ?case by (simp add: valuesToNamed_def)
  next
    case (Suc d)
    then have k: "k < length vals" by simp
    have n: "drop k (valuesToNamed vals) = \<lparr>Ordinal = int k + 1, NamedVal = vals ! k\<rparr> # drop (Suc k) (valuesToNamed vals)"
      using k by (simp add: valuesToNamed_def Cons_nth_drop_Suc[symmetric] drop_map)
    have "?f (take k vals @ replicate (length vals - k) VNil) \<lparr>Ordinal = int k + 1, NamedVal = vals ! k\<rparr> =
        take (Suc k) vals @ replicate (length vals - Suc k) VNil"
      using k by (simp add: list_update_append take_Suc_conv_app_nth flip: Suc_diff_Suc)
    then show ?case unfolding n foldl_Cons using Suc.hyps(1)[of "Suc k"] Suc.hyps(2) k by simp
  qed
  from this[of 0] show ?thesis by (simp add: namedToValues_def valuesToNamed_def)
qed


section \<open>Batches\<close>

lemma encodable_statement [simp]:
  "encodable fmt_v (prepare_request q)" "encodable fmt_v (free_request i)"
  by (simp_all add: encodable_def encodes_def plain_request_def EncodePayload_def NewResult_def prepare_request_def
      free_request_def Let_def)

text \<open>C18: a prepared batch on a live connection is three requests: it prepares the statement, executes it
  with all rows and frees it, also when the server rejects the batch; its result is decided by the
  answer to the second request alone.\<close>

theorem prepared_batch_dialogue:
  assumes "speaks srv reply" "live c" "in_time ctx"
    and "reply (peer (net c)) (request_frame (FormatV lib) (prepare_request q)) = (p1, a, as)"
    and "Mode a = ModePrepareAck" "ParamMeta a = Some m"
    and "encodable (FormatV lib) (batch_execute_request (StatementID a) m rows)"
    and "reply p1 (request_frame (FormatV lib) (batch_execute_request (StatementID a) m rows)) = (p2, b, bs)"
  shows "\<exists>c'. ExecPreparedBatch lib srv ctx q rows c =
      Some (if Mode b = ModeError then Inl (ServerError (MessageText b) (SQLState b) (ErrorCode b)) else Inr (batchCounts b), c') \<and>
    said (FormatV lib) c [prepare_request q, batch_execute_request (StatementID a) m rows, free_request (StatementID a)] c'"
proof -
  let ?f = "FormatV lib" and ?x = "batch_execute_request (StatementID a) m rows" and ?free = "free_request (StatementID a)"
  obtain c1 where 1: "execCtx ?f srv ctx (prepare_request q) c = Some (Inr (message.extend a \<lparr>Chained = as\<rparr>), c1)"
    "said ?f c [prepare_request q] c1" "peer (net c1) = p1"
    using exec_speaks[OF assms(1-3) encodable_statement(1) assms(4)] assms(5) by auto
  obtain c2 where 2: "execCtx ?f srv ctx ?x c1 =
      Some (if Mode b = ModeError then Inl (ServerError (MessageText b) (SQLState b) (ErrorCode b))
        else Inr (message.extend b \<lparr>Chained = bs\<rparr>), c2)" "said ?f c1 [?x] c2"
    using exec_speaks[OF assms(1) said_live[OF 1(2)] assms(3,7)] assms(8) 1(3) by blast
  obtain p3 r rs where "reply (peer (net c2)) (request_frame ?f ?free) = (p3, r, rs)" by (metis prod_cases3)
  from exec_speaks[OF assms(1) said_live[OF 2(2)] background_entry encodable_statement(2) this]
  obtain y c3 where 3: "execCtx ?f srv Background ?free c2 = Some (y, c3)" "said ?f c2 [?free] c3" by blast
  have "ExecPreparedBatch lib srv ctx q rows c =
      Some (if Mode b = ModeError then Inl (ServerError (MessageText b) (SQLState b) (ErrorCode b)) else Inr (batchCounts b), c3)"
    using 1(1) 2(1) 3(1) assms(5,6) live_not_unusable[OF assms(2)] live_not_unusable[OF said_live[OF 2(2)]]
    by (simp add: ExecPreparedBatch_def PrepareContext_def andThen_def CloseStmt_def exec_def batchCounts_def)
  moreover have "said ?f c ([prepare_request q] @ [?x] @ [?free]) c3"
    using 1(2) 2(2) 3(2) said_trans by blast
  ultimately show ?thesis by (intro exI[of _ c3]) simp
qed

section \<open>Values of the wrong type\<close>

text \<open>\<open>arrives f c v x\<close>: the value \<open>v\<close> bound to a parameter of type \<open>c\<close> is sent without an error and is \<open>x\<close> at the other end.\<close>

definition arrives :: "(gval \<Rightarrow> string) \<Rightarrow> column_type \<Rightarrow> gval \<Rightarrow> gval \<Rightarrow> bool" where
  "arrives f c v x \<longleftrightarrow> (\<exists>w. WriteValue f c v NewRowOutput = (None, w) \<and>
     ReadValue c (NewRowInput (out_buf w)) = (x, \<lparr>in_buf = out_buf w, in_pos = length (out_buf w), in_err = None\<rparr>))"

lemma arrives_norm:
  assumes "value_error f c v = None" "wire_fits f c v"
  shows "arrives f c v (wire_norm f c v)"
proof -
  obtain w where w: "WriteValue f c v NewRowOutput = (None, w)" using assms(1) by (cases "WriteValue f c v NewRowOutput") (simp add: value_error_def)
  then show ?thesis using read_Value[OF assms, of "[]" "[]"]
    by (auto simp: arrives_def value_bytes_def reading_New reading_def)
qed

text \<open>C28: values of the wrong type are not refused: the text of a number bound to an INTEGER arrives as 0, a
  text bound to a BOOLEAN as false and to a TIMESTAMP as January 1 of the year 1; a Go int bound to a DOUBLE
  arrives as 0.0 and an integer that is too large for INTEGER wraps.  The check of INOUT values, which is
  there to reject what would be coerced to zero, accepts these texts and ints.\<close>

theorem mismatched_values_arrive:
  shows "arrives f (type_of_code SQLInteger) (VString t) (VInt64 0) \<and>
    arrives f (type_of_code SQLBoolean) (VString t) (VBool False) \<and>
    arrives f (type_of_code SQLTimestamp) (VString t) (VTime zero_time) \<and>
    arrives f (type_of_code SQLDouble) (VGoInt n) (VFloat64 0) \<and>
    arrives f (type_of_code SQLInteger) (VInt64 n) (VInt64 (signed_take_bit 31 n)) \<and>
    checkOutInputValue (VString t) = None \<and> checkOutInputValue (VGoInt n) = None"
proof -
  have a: "arrives f (type_of_code k) v (wire_norm f (type_of_code k) v)"
    if "k \<in> {SQLInteger, SQLBoolean, SQLTimestamp, SQLDouble}" "v \<noteq> VNil" for k v
    using that by (intro arrives_norm)
      (auto simp: value_error_def WriteValue.simps write_scalar_def type_of_code_def wire_fits.simps scalar_fits_def Let_def)
  have "(scast (ucast n :: i32) :: i64) = signed_take_bit 31 n"
    by (rule bit_word_eqI) (auto simp: bit_simps min_def)
  then show ?thesis
    using a[of SQLInteger "VString t"] a[of SQLBoolean "VString t"] a[of SQLTimestamp "VString t"] a[of SQLDouble "VGoInt n"]
      a[of SQLInteger "VInt64 n"]
    by (simp add: wire_norm.simps scalar_norm_def type_of_code_def asInt64_def asBool_def asTime_def asFloat64_def
        checkOutInputValue_def zero_time_def unix_time_def)
qed

section \<open>Witnesses\<close>

text \<open>
  A peer that answers by the mode of the request: a statement with one BIGINT parameter, the values 5 and 12
  of a call's parameters, and two counts for a batch.
\<close>

definition table_server :: "(byte \<Rightarrow> byte \<times> byte list) \<Rightarrow> unit server" where
  "table_server tab p bs = (p, Inr (transmission [tab (hd bs)], EOF))"

definition table_reply :: "(byte \<Rightarrow> message) \<Rightarrow> unit reply" where
  "table_reply tab p f = (p, tab (fst f), [])"

lemma speaks_table:
  assumes "\<And>b. decodes [tab b] [mtab b]"
  shows "speaks (table_server tab) (table_reply mtab)"
proof -
  have "table_server tab p (transmission [f]) = (fst (table_reply mtab p f), Inr (transmission (tab (fst f) # []), EOF)) \<and>
      decodes (tab (fst f) # []) (fst (snd (table_reply mtab p f)) # snd (snd (table_reply mtab p f)))" for p f
    using assms by (simp add: table_server_def table_reply_def transmission_hd)
  then show ?thesis unfolding speaks_def by blast
qed

definition long_meta :: "nat \<Rightarrow> metadata" where
  "long_meta n = zero_meta\<lparr>MetaType := MetaSimpleResult, ColumnCount := word_of_nat n, Types := replicate n (type_of_code SQLBigint)\<rparr>"

definition stmt_frames :: "byte \<Rightarrow> byte \<times> byte list" where
  "stmt_frames b =
     (if b = ModePrepare then
        (ModePrepareAck, [0, 0, 0, 0, 0, 0, 0, 0, 1, 8, 0, 0, 0, 2, 0, 0, 0, 0, 0, 0, 0, 2, 0, 0, 0, 1, 0, 25])
      else if b = ModeExecute then
        (ModeCallResponse, [0, 0, 0, 0, 0, 0, 0, 0, 0, 0, 0, 0, 0, 0, 0, 1, 0, 0, 0, 0, 0, 2, 0, 0, 0, 2, 0, 25, 0, 25,
           0, 0, 0, 1, 1, 0, 0, 0, 0, 0, 0, 0, 5, 1, 0, 0, 0, 0, 0, 0, 0, 12])
      else
        (ModeBatchExecResponse, [0, 0, 0, 0, 0, 0, 0, 0, 0, 0, 0, 0, 0, 0, 0, 1, 0, 0, 0, 0, 0, 2, 0, 0, 0, 1, 0, 25,
           0, 0, 0, 2, 1, 0, 0, 0, 0, 0, 0, 0, 1, 1, 0, 0, 0, 0, 0, 0, 0, 3]))"

definition stmt_messages :: "byte \<Rightarrow> message" where
  "stmt_messages b =
     (if b = ModePrepare then
        (NewResult ModePrepareAck)\<lparr>StatementID := 1, RSProperties := 8, Meta := Some (long_meta 0), ParamMeta := Some (long_meta 1)\<rparr>
      else if b = ModeExecute then
        (NewResult ModeCallResponse)\<lparr>StatementID := 1, Meta := Some (long_meta 2),
           RowSet := Some (zero_rows\<lparr>Rows := [[VInt64 5, VInt64 12]]\<rparr>)\<rparr>
      else
        (NewResult ModeBatchExecResponse)\<lparr>StatementID := 1, Meta := Some (long_meta 1),
           RowSet := Some (zero_rows\<lparr>Rows := [[VInt64 1], [VInt64 3]]\<rparr>)\<rparr>)"

lemma stmt_decodes:
  "DecodeResult (fst (stmt_frames ModePrepare)) (snd (stmt_frames ModePrepare)) = Some (Inr (stmt_messages ModePrepare))"
  "DecodeResult (fst (stmt_frames ModeExecute)) (snd (stmt_frames ModeExecute)) = Some (Inr (stmt_messages ModeExecute))"
  "DecodeResult (fst (stmt_frames ModeBatchExecute)) (snd (stmt_frames ModeBatchExecute)) =
    Some (Inr (stmt_messages ModeBatchExecute))"
  by code_simp+

lemma stmt_speaks: "speaks (table_server stmt_frames) (table_reply stmt_messages)"
proof (rule speaks_table)
  fix b
  have "stmt_frames b = stmt_frames c \<and> stmt_messages b = stmt_messages c"
    if "c = (if b = ModePrepare then ModePrepare else if b = ModeExecute then ModeExecute else ModeBatchExecute)" for c
    using that by (simp add: stmt_frames_def stmt_messages_def)
  then have "stmt_frames b \<in> stmt_frames ` {ModePrepare, ModeExecute, ModeBatchExecute} \<and>
      DecodeResult (fst (stmt_frames b)) (snd (stmt_frames b)) = Some (Inr (stmt_messages b))"
    using stmt_decodes by (metis imageI insertI1 insertI2)
  moreover have "fst (stmt_frames b) = Mode (stmt_messages b)" by (simp add: stmt_frames_def stmt_messages_def NewResult_def)
  ultimately show "decodes [stmt_frames b] [stmt_messages b]"
    by (cases "stmt_frames b") (auto simp: decodes_def, auto simp: stmt_frames_def split: if_splits)
qed

definition small_store :: store where
  "small_store p = \<lparr>cell_type = DestKind (KInt 16), type_name = ''int16'', cell_val = DInt 0\<rparr>"

definition sample_stmt :: stmt where
  "sample_stmt = \<lparr>stmt_id = 1, stmt_meta = Some (long_meta 0), stmt_paramMeta = Some (long_meta 2), stmt_closed = False\<rparr>"


theorem prepared_batch_dialogue_witness:
  "\<exists>c'. ExecPreparedBatch ascii_lib (table_server stmt_frames) Background ''DELETE FROM T WHERE N = ?''
      [[VInt64 4], [VInt64 5]] sample_conn = Some (Inr [1, 3], c') \<and> live c'"
proof -
  let ?x = "batch_execute_request (StatementID (stmt_messages ModePrepare)) (long_meta 1) [[VInt64 4], [VInt64 5]]"
  have m: "fst (request_frame f (prepare_request q)) = ModePrepare" "fst (request_frame f ?x) = ModeBatchExecute" for f q
    by (simp_all add: request_frame_def prepare_request_def batch_execute_request_def NewResult_def)
  have 1: "table_reply stmt_messages (peer (net sample_conn)) (request_frame (FormatV ascii_lib) (prepare_request q)) =
      ((), stmt_messages ModePrepare, [])" for q by (simp add: table_reply_def m)
  have 2: "table_reply stmt_messages () (request_frame (FormatV ascii_lib) ?x) = ((), stmt_messages ModeBatchExecute, [])"
    by (simp only: table_reply_def m)
  have a: "Mode (stmt_messages ModePrepare) = ModePrepareAck" "ParamMeta (stmt_messages ModePrepare) = Some (long_meta 1)"
    by (simp_all add: stmt_messages_def NewResult_def)
  have e: "encodable (FormatV ascii_lib) ?x" by (rule encodable_by; code_simp)
  have b: "Mode (stmt_messages ModeBatchExecute) = ModeBatchExecResponse" "batchCounts (stmt_messages ModeBatchExecute) = [1, 3]"
    by (simp_all add: stmt_messages_def NewResult_def batchCounts_def batch_count_def)
  from prepared_batch_dialogue[OF stmt_speaks sample_conn_live(1) background_entry 1 a e 2, of "''DELETE FROM T WHERE N = ?''"]
  show ?thesis using b by (auto simp: said_live)
qed

end
