(* ===== verification/UpdatableProps.thy ===== *)
theory UpdatableProps
  imports Updatable RowsProps "HOL-Library.Sublist"
begin

unbundle bit_operations_syntax

text \<open>
  An updatable result set is a finite map from the server's row numbers to row images, whatever rows
  have been deleted before: its operations refine deletion from and update of that map.
\<close>

section \<open>Well-formed cursors\<close>

definition cursor_ok :: "updatable_rows \<Rightarrow> bool" where
  "cursor_ok u \<longleftrightarrow> length (serverNums u) = length (upd_rows u) \<and> distinct (serverNums u) \<and>
     - 1 \<le> upd_pos u \<and> upd_pos u < int (length (upd_rows u))"

text \<open>The abstraction: the row image of each server row number.\<close>

definition view :: "updatable_rows \<Rightarrow> i64 \<rightharpoonup> gval list" where
  "view u = map_of (zip (serverNums u) (upd_rows u))"

text \<open>The row number that an image from the server carries, and the merge of images into the map.\<close>

definition row_number :: "updatable_rows \<Rightarrow> gval list \<Rightarrow> i64 option" where
  "row_number u row =
     (if length row \<le> visible_columns u + SysOffsetRowNum then None
      else case row ! (visible_columns u + SysOffsetRowNum) of VInt64 n \<Rightarrow> Some n | _ \<Rightarrow> None)"

definition merged :: "updatable_rows \<Rightarrow> gval list \<Rightarrow> (i64 \<rightharpoonup> gval list) \<Rightarrow> i64 \<rightharpoonup> gval list" where
  "merged u row V = (case row_number u row of
      Some n \<Rightarrow> if n \<in> dom V then V(n \<mapsto> row) else V
    | None \<Rightarrow> V)"

lemma length_remove_at: "i < length xs \<Longrightarrow> length (remove_at i xs) = length xs - 1"
  by (simp add: remove_at_def)

lemma zip_remove_at: "length xs = length ys \<Longrightarrow> zip (remove_at i xs) (remove_at i ys) = remove_at i (zip xs ys)"
  by (simp add: remove_at_def take_zip drop_zip)

lemma set_remove_at: "distinct xs \<Longrightarrow> i < length xs \<Longrightarrow> set (remove_at i xs) = set xs - {xs ! i} \<and> distinct (remove_at i xs)"
proof -
  assume d: "distinct xs" and i: "i < length xs"
  have "xs = take i xs @ xs ! i # drop (Suc i) xs" using i by (simp add: id_take_nth_drop)
  with d show ?thesis by (metis Diff_insert_absorb Un_insert_right distinct.simps(2) distinct_append disjoint_insert(1)
      list.simps(15) not_distinct_conv_prefix remove_at_def set_append Un_iff)
qed

lemma map_of_remove_at:
  assumes "length xs = length ys" "distinct xs" "i < length xs"
  shows "map_of (zip (remove_at i xs) (remove_at i ys)) = (map_of (zip xs ys))(xs ! i := None)"
proof
  fix x
  show "map_of (zip (remove_at i xs) (remove_at i ys)) x = ((map_of (zip xs ys))(xs ! i := None)) x"
  proof (cases "x \<in> set (remove_at i xs)")
    case True
    obtain y where "map_of (zip (remove_at i xs) (remove_at i ys)) x = Some y"
      using True length_remove_at assms(1,3) by (metis map_of_zip_is_Some)
    then have "(x, y) \<in> set (remove_at i (zip xs ys))" using map_of_SomeD zip_remove_at[OF assms(1)] by fastforce
    then have "(x, y) \<in> set (zip xs ys)" by (auto simp: remove_at_def dest: in_set_takeD in_set_dropD)
    then have "map_of (zip xs ys) x = Some y" using assms(1,2) by simp
    moreover have "x \<noteq> xs ! i" using True set_remove_at[OF assms(2,3)] by blast
    ultimately show ?thesis using \<open>map_of (zip (remove_at i xs) (remove_at i ys)) x = Some y\<close> by simp
  next
    case False
    then have n: "map_of (zip (remove_at i xs) (remove_at i ys)) x = None"
      using length_remove_at assms(1,3) by (metis map_of_zip_is_None)
    have "x \<notin> set xs \<or> x = xs ! i" using False set_remove_at[OF assms(2,3)] by blast
    then show ?thesis using n map_of_zip_is_None[OF assms(1), of x] by auto
  qed
qed

lemma map_of_zip_set:
  "length xs = length ys \<Longrightarrow> distinct xs \<Longrightarrow> i < length xs \<Longrightarrow>
    map_of (zip xs (ys[i := y])) = (map_of (zip xs ys))(xs ! i \<mapsto> y)"
  by (induction xs ys arbitrary: i rule: list_induct2) (fastforce simp: nth_Cons' intro: fun_upd_twist dest: nth_mem split: nat.splits)+

lemma merge_row_view:
  assumes "cursor_ok u"
  shows "cursor_ok (merge_row row u) \<and> view (merge_row row u) = merged u row (view u) \<and>
    serverNums (merge_row row u) = serverNums u \<and> upd_meta (merge_row row u) = upd_meta u"
proof -
  have l: "length (serverNums u) = length (upd_rows u)" "distinct (serverNums u)" using assms by (auto simp: cursor_ok_def)
  show ?thesis
  proof (cases "row_number u row")
    case None
    then have "merge_row row u = u" by (auto simp: merge_row_def row_number_def Let_def split: if_splits gval.splits)
    then show ?thesis using assms None by (simp add: merged_def)
  next
    case (Some n)
    have m: "merge_row row u = (case find (\<lambda>i. serverNums u ! i = n) [0..<length (serverNums u)] of
        Some i \<Rightarrow> u\<lparr>upd_rows := (upd_rows u)[i := row]\<rparr> | None \<Rightarrow> u)"
      using Some by (auto simp: merge_row_def row_number_def Let_def split: if_splits gval.splits)
    show ?thesis
    proof (cases "find (\<lambda>i. serverNums u ! i = n) [0..<length (serverNums u)]")
      case None
      then have "n \<notin> set (serverNums u)" by (auto simp: find_None_iff in_set_conv_nth)
      then have "n \<notin> dom (view u)" using l by (simp add: view_def)
      then show ?thesis using m None Some assms by (simp add: merged_def)
    next
      case (Some i)
      then have i: "i < length (serverNums u)" "serverNums u ! i = n" by (auto simp: find_Some_iff)
      have "n \<in> dom (view u)" using i l by (auto simp: view_def)
      moreover have "map_of (zip (serverNums u) ((upd_rows u)[i := row])) = (view u)(n \<mapsto> row)"
        using map_of_zip_set[OF l i(1), of row] i(2) by (simp add: view_def)
      ultimately show ?thesis
        using m Some \<open>row_number u row = Some n\<close> assms by (simp add: merged_def cursor_ok_def view_def)
    qed
  qed
qed

lemma merge_rows_view:
  "cursor_ok u \<Longrightarrow> cursor_ok (fold merge_row rows u) \<and> view (fold merge_row rows u) = fold (merged u) rows (view u) \<and>
    serverNums (fold merge_row rows u) = serverNums u \<and> upd_meta (fold merge_row rows u) = upd_meta u"
proof (induction rows arbitrary: u)
  case (Cons row rows)
  note m = merge_row_view[OF Cons.prems, of row]
  have "merged (merge_row row u) = merged u"
    using m by (auto simp: fun_eq_iff merged_def row_number_def visible_columns_def)
  then show ?case using Cons.IH[of "merge_row row u"] m by simp
qed simp

lemma merge_response:
  assumes "cursor_ok u"
  shows "cursor_ok (mergeUpdatedRows res u) \<and> serverNums (mergeUpdatedRows res u) = serverNums u \<and>
    view (mergeUpdatedRows res u) = (case RowSet res of None \<Rightarrow> view u | Some rs \<Rightarrow> fold (merged u) (Rows rs) (view u))"
  using merge_rows_view[OF assms] assms by (simp add: mergeUpdatedRows_def split: option.split)

section \<open>Updating and deleting\<close>

lemma current_row:
  "cursor_ok u \<Longrightarrow> \<not> upd_closed u \<Longrightarrow> 0 \<le> upd_pos u \<Longrightarrow> current u = Inr (upd_rows u ! nat (upd_pos u))"
  by (auto simp: cursor_ok_def current_def)

lemma delete_view:
  assumes "cursor_ok u" "0 \<le> upd_pos u"
  defines "u' \<equiv> u\<lparr>upd_rows := remove_at (nat (upd_pos u)) (upd_rows u),
    serverNums := remove_at (nat (upd_pos u)) (serverNums u), upd_pos := upd_pos u - 1\<rparr>"
  shows "cursor_ok u' \<and> view u' = (view u)(serverNums u ! nat (upd_pos u) := None)"
proof -
  have l: "length (serverNums u) = length (upd_rows u)" "distinct (serverNums u)" "nat (upd_pos u) < length (serverNums u)"
    using assms(1,2) by (auto simp: cursor_ok_def)
  have "length (remove_at (nat (upd_pos u)) (serverNums u)) = length (remove_at (nat (upd_pos u)) (upd_rows u))"
    "int (length (remove_at (nat (upd_pos u)) (upd_rows u))) = int (length (upd_rows u)) - 1"
    using l by (simp_all add: length_remove_at)
  then have "cursor_ok u'" using l assms(1,2) set_remove_at[OF l(2,3)] by (auto simp: cursor_ok_def u'_def)
  then show ?thesis using map_of_remove_at[OF l(1,2,3)] by (simp add: view_def u'_def)
qed

text \<open>C16: a row that is updated through the cursor is addressed by the server's own number for it,
  whatever rows were deleted before it, and the images in the answer replace exactly the rows of
  their numbers: on the map of row numbers to rows, an update is the merge of the answer.\<close>

theorem update_row_refines:
  assumes "speaks srv reply" "live c" "in_time ctx" "cursor_ok u" "\<not> upd_closed u" "0 \<le> upd_pos u" "updates \<noteq> []"
    and "0 \<le>s ColumnCount (upd_meta u)" "visible_columns u + SysOffsetRowNum < length (Types (upd_meta u))"
    and "set_columns eq_fold u updates (replicate (length (Types (upd_meta u))) VNil) (replicate (visible_columns u) False) =
      Some (Inr (values, sets))"
  defines "req \<equiv> update_request u (upd_rows u ! nat (upd_pos u)) values sets"
  assumes "encodable (FormatV lib) req" "reply (peer (net c)) (request_frame (FormatV lib) req) = (p', r, rs)" "Mode r \<noteq> ModeError"
  shows "\<exists>u' c'. UpdateRow lib srv eq_fold ctx updates u c = Some (Inr (), u', c') \<and> said (FormatV lib) c [req] c' \<and>
    (\<exists>row. BatchRows req = [row] \<and> row ! (visible_columns u + SysOffsetRowNum) = VInt64 (serverNums u ! nat (upd_pos u))) \<and>
    cursor_ok u' \<and> view u' = (case RowSet r of None \<Rightarrow> view u | Some rs \<Rightarrow> fold (merged u) (Rows rs) (view u))"
proof -
  have len: "set_columns eq_fold u updates vs ss = Some (Inr (vs', ss')) \<Longrightarrow> length vs' = length vs" for vs ss vs' ss'
    by (induction eq_fold u updates vs ss rule: set_columns.induct) (auto split: sum.splits if_splits)
  have lv: "length values = length (Types (upd_meta u))" using len[OF assms(10)] by simp
  obtain c' where c': "execCtx (FormatV lib) srv ctx req c = Some (Inr (message.extend r \<lparr>Chained = rs\<rparr>), c')"
    "said (FormatV lib) c [req] c'"
    using exec_speaks[OF assms(1-3,12,13)] assms(14) by auto
  let ?u = "mergeUpdatedRows (message.extend r \<lparr>Chained = rs\<rparr>) u"
  have "UpdateRow lib srv eq_fold ctx updates u c = Some (Inr (), ?u, c')"
    using assms(4-10) c'(1) current_row[OF assms(4-6)] by (auto simp: UpdateRow_def req_def word_sle_eq word_sless_alt)
  moreover have "BatchRows req = [fillRowIdentity u values (upd_rows u ! nat (upd_pos u))]"
    by (simp add: req_def update_request_def cursor_request_def Let_def)
  moreover have "fillRowIdentity u values (upd_rows u ! nat (upd_pos u)) ! (visible_columns u + SysOffsetRowNum) =
      VInt64 (serverNums u ! nat (upd_pos u))"
    using assms(9) lv by (simp add: fillRowIdentity_def Let_def)
  ultimately show ?thesis
    using c'(2) merge_response[OF assms(4), of "message.extend r \<lparr>Chained = rs\<rparr>"] by auto
qed

text \<open>C15: deleting the current row through the cursor removes exactly its row number from the map, also
  when rows before it have been deleted or changed; a refused deletion changes nothing.  The cursor
  then stands on the row before, which a second deletion without \<^verbatim>\<open>Next\<close> would delete.\<close>

theorem delete_row_refines:
  assumes "cursor_ok u" "DeleteRow lib srv ctx u c = Some (res, u', c')"
  shows "cursor_ok u' \<and>
    view u' = (case res of Inl e \<Rightarrow> view u | Inr _ \<Rightarrow> (view u)(serverNums u ! nat (upd_pos u) := None)) \<and>
    (res = Inr () \<and> 0 < upd_pos u \<longrightarrow> current u' = Inr (upd_rows u ! nat (upd_pos u - 1)))"
proof (cases "current u")
  case (Inl e)
  then have "res = Inl e" "u' = u" using assms(2) by (auto simp: DeleteRow_def)
  then show ?thesis using assms(1) by simp
next
  case (Inr row)
  then have p: "0 \<le> upd_pos u" "\<not> upd_closed u" "upd_pos u < int (length (upd_rows u))" by (auto simp: current_def split: if_splits)
  show ?thesis
  proof (cases res)
    case (Inl e)
    then have "u' = u" using assms(2) \<open>current u = Inr row\<close> by (auto simp: DeleteRow_def Let_def split: bind_splits sum.splits)
    then show ?thesis using Inl assms(1) by simp
  next
    case (Inr x)
    let ?u = "u\<lparr>upd_rows := remove_at (nat (upd_pos u)) (upd_rows u),
      serverNums := remove_at (nat (upd_pos u)) (serverNums u), upd_pos := upd_pos u - 1\<rparr>"
    have u': "u' = ?u" using assms(2) Inr \<open>current u = Inr row\<close> by (auto simp: DeleteRow_def Let_def split: bind_splits sum.splits)
    have "current ?u = Inr (upd_rows u ! nat (upd_pos u - 1))" if "0 < upd_pos u"
    proof -
      have "nat (upd_pos u - 1) < nat (upd_pos u)" "nat (upd_pos u) < length (upd_rows u)" using that p by auto
      then have "remove_at (nat (upd_pos u)) (upd_rows u) ! nat (upd_pos u - 1) = upd_rows u ! nat (upd_pos u - 1)"
        by (simp add: remove_at_def nth_append)
      then show ?thesis using that p length_remove_at[of "nat (upd_pos u)" "upd_rows u"] by (simp add: current_def)
    qed
    then show ?thesis unfolding u' using delete_view[OF assms(1) p(1)] Inr by simp
  qed
qed

section \<open>Every state of a cursor\<close>

text \<open>
  The calls that can be made on an updatable result set, in any order, with any arguments and any answers;
  \<^verbatim>\<open>InsertRow\<close>, \<^verbatim>\<open>Columns\<close> and \<^verbatim>\<open>Len\<close> leave it alone.
\<close>

inductive cursor_step :: "text_lib \<Rightarrow> 'p server \<Rightarrow> updatable_rows \<Rightarrow> updatable_rows \<Rightarrow> bool"
  for lib srv where
  moved: "UpdNext u = (b, u') \<Longrightarrow> cursor_step lib srv u u'"
| scanned: "UpdScan lib srv scan dest u st c = Some (err, u', st', c') \<Longrightarrow> cursor_step lib srv u u'"
| updated: "UpdateRow lib srv eq_fold ctx updates u c = Some (res, u', c') \<Longrightarrow> cursor_step lib srv u u'"
| deleted: "DeleteRow lib srv ctx u c = Some (res, u', c') \<Longrightarrow> cursor_step lib srv u u'"
| closed: "CloseUpdatable lib srv u c = Some (res, u', c') \<Longrightarrow> cursor_step lib srv u u'"

inductive cursor_reach :: "text_lib \<Rightarrow> 'p server \<Rightarrow> updatable_rows \<Rightarrow> updatable_rows \<Rightarrow> bool"
  for lib srv u0 where
  opened: "cursor_reach lib srv u0 u0"
| stepped: "cursor_reach lib srv u0 u \<Longrightarrow> cursor_step lib srv u u' \<Longrightarrow> cursor_reach lib srv u0 u'"

lemma dom_merged: "dom (fold (merged u) rows V) = dom V"
proof (induction rows arbitrary: V)
  case (Cons row rows)
  have "dom (merged u row V) = dom V" by (auto simp: merged_def split: option.splits)
  then show ?case using Cons by simp
qed simp

lemma dom_view: "cursor_ok u \<Longrightarrow> dom (view u) = set (serverNums u)"
  by (simp add: view_def cursor_ok_def)

lemma subseq_remove_at: "i < length xs \<Longrightarrow> subseq (remove_at i xs) xs"
  unfolding remove_at_def
  by (metis id_take_nth_drop list_emb_append_mono subseq_Cons' subseq_order.order_refl)

lemma step_keeps:
  assumes "cursor_step lib srv u u'" "cursor_ok u"
  shows "cursor_ok u' \<and> subseq (serverNums u') (serverNums u)"
  using assms(1)
proof cases
  case (moved b)
  then show ?thesis using assms(2) by (auto simp: UpdNext_def cursor_ok_def split: if_splits)
next
  case (scanned scan dest st c err st' c')
  then have "serverNums u' = serverNums u \<and> length (upd_rows u') = length (upd_rows u) \<and> upd_pos u' = upd_pos u"
    by (auto simp: UpdScan_def split: sum.splits bind_splits)
  then show ?thesis using assms(2) by (auto simp: cursor_ok_def)
next
  case (updated eq_fold ctx updates c res c')
  then show ?thesis using assms(2)
    by (auto simp: UpdateRow_def Let_def merge_response[OF assms(2)] split: sum.splits if_splits bind_splits)
next
  case (deleted ctx c res c')
  then have "u' = u \<or> (\<exists>row. current u = Inr row) \<and> u' = u\<lparr>upd_rows := remove_at (nat (upd_pos u)) (upd_rows u),
      serverNums := remove_at (nat (upd_pos u)) (serverNums u), upd_pos := upd_pos u - 1\<rparr>"
    by (auto simp: DeleteRow_def Let_def split: sum.splits bind_splits)
  then show ?thesis
  proof
    assume *: "(\<exists>row. current u = Inr row) \<and> u' = u\<lparr>upd_rows := remove_at (nat (upd_pos u)) (upd_rows u),
      serverNums := remove_at (nat (upd_pos u)) (serverNums u), upd_pos := upd_pos u - 1\<rparr>"
    then have p: "0 \<le> upd_pos u" "nat (upd_pos u) < length (serverNums u)"
      using assms(2) by (auto simp: current_def cursor_ok_def split: if_splits)
    show ?thesis using * delete_view[OF assms(2) p(1)] subseq_remove_at[OF p(2)] by simp
  qed (use assms(2) in simp)
next
  case (closed c res c')
  then have "serverNums u' = serverNums u \<and> upd_rows u' = upd_rows u \<and> upd_pos u' = upd_pos u"
    by (auto simp: CloseUpdatable_def split: if_splits bind_splits)
  then show ?thesis using assms(2) by (auto simp: cursor_ok_def)
qed

text \<open>C14: in every state that any sequence of calls on a cursor can reach, each cached row has the number
  the server gave it when the query ran, the numbers are distinct and in order, and the position is
  that of a row or before the first.\<close>

theorem cursor_invariant:
  assumes "QueryUpdatable lib srv ctx query args c = Some (Inr u0, c0)" "length (upd_rows u0) \<le> 2 ^ 64"
    and "cursor_reach lib srv u0 u"
  shows "length (serverNums u) = length (upd_rows u) \<and> distinct (serverNums u) \<and>
    subseq (serverNums u) (map word_of_nat [0..<length (upd_rows u0)]) \<and>
    - 1 \<le> upd_pos u \<and> upd_pos u < int (length (upd_rows u))"
proof -
  have u0: "serverNums u0 = map word_of_nat [0..<length (upd_rows u0)]" "upd_pos u0 = -1"
    using assms(1)
    by (auto simp: QueryUpdatable_def close_and_fail_def andThen_def Let_def split: if_splits bind_splits sum.splits)
  have "inj_on (word_of_nat :: nat \<Rightarrow> i64) {0..<2 ^ 64}"
    by (rule inj_onI) (simp add: word_unat_eq_iff unsigned_of_nat take_bit_nat_eq_self)
  then have "distinct (map (word_of_nat :: nat \<Rightarrow> i64) [0..<length (upd_rows u0)])"
    using assms(2) by (auto simp: distinct_map intro: inj_on_subset)
  then have ok: "cursor_ok u0" using u0 by (simp add: cursor_ok_def)
  from assms(3) have "cursor_ok u \<and> subseq (serverNums u) (serverNums u0)"
  proof (induction rule: cursor_reach.induct)
    case opened
    show ?case using ok by simp
  next
    case (stepped u u')
    then show ?case using step_keeps[of lib srv u u'] subseq_order.trans by blast
  qed
  then show ?thesis by (auto simp: cursor_ok_def u0)
qed

section \<open>Witnesses\<close>

text \<open>A peer with an updatable result of two rows, and the cursor before its first row.\<close>

definition ack_payload :: "byte list" where
  "ack_payload = [0, 0, 0, 0, 0, 0, 0, 0, 1, 8, 0, 0, 0, 2, 0, 0, 0, 0, 0, 0, 0, 2, 0, 0, 0, 0]"

definition data_payload :: "byte list" where
  "data_payload = [0, 0, 0, 0, 0, 0, 0, 9, 0, 0, 0, 0, 0, 0, 0, 0, 0,
     0, 0, 0, 1, 0, 0, 0, 1, 0, 0, 0, 4,
     0, 4, 0, 0, 0, 0, 0, 0, 0, 0, 0, 0, 0, 0, 0, 4, 0, 0, 0, 0, 0, 0, 0, 0, 0, 0, 0, 0,
     0, 4, 0, 0, 0, 0, 0, 0, 0, 0, 0, 0, 0, 0, 0, 4, 0, 0, 0, 0, 0, 0, 0, 0, 0, 0, 0, 0,
     0, 0, 0, 1, 78, 0, 0, 0, 0, 0, 0, 0, 0, 0, 0, 0, 0, 0, 0, 0, 0, 0, 0, 0, 0, 0,
     0, 0, 0, 0, 0, 0, 0, 9, 0, 0, 0, 2, 0, 0, 0, 0, 0, 0, 0, 2,
     1, 0, 0, 0, 7, 1, 0, 0, 0, 50, 0, 1, 0, 0, 0, 0, 1, 0, 0, 0, 8, 1, 0, 0, 0, 60, 0, 1, 0, 0, 0, 1]"

definition simple_meta :: metadata where
  "simple_meta = zero_meta\<lparr>MetaType := MetaSimpleResult\<rparr>"

definition ack_message :: message where
  "ack_message = (NewResult ModePrepareAck)\<lparr>StatementID := 1, RSProperties := RSUpdatable, Meta := Some simple_meta,
     ParamMeta := Some simple_meta\<rparr>"

definition cursor_meta :: metadata where
  "cursor_meta = zero_meta\<lparr>MetaType := MetaResult, ColumnCount := 1, ExtendedCount := 4,
     Types := replicate 4 (type_of_code SQLInteger),
     Columns := [zero_column\<lparr>ColType := type_of_code SQLInteger, Label := ''N''\<rparr>], ColIndexes := [0]\<rparr>"

definition cursor_rows :: "gval list list" where
  "cursor_rows = [[VInt64 7, VInt64 50, VNil, VInt64 0], [VInt64 8, VInt64 60, VNil, VInt64 1]]"

definition data_message :: message where
  "data_message = (NewResult ModeData)\<lparr>ID := 9, Meta := Some cursor_meta,
     RowSet := Some \<lparr>SetID = 9, SetSize = 2, CurrentOffset = 0, Rows = cursor_rows\<rparr>\<rparr>"

definition cursor_server :: "unit server" where
  "cursor_server p bs = (p, Inr (transmission [if hd bs = ModePrepare then (ModePrepareAck, ack_payload) else (ModeData, data_payload)], EOF))"

definition cursor_reply :: "unit reply" where
  "cursor_reply p f = (p, if fst f = ModePrepare then ack_message else data_message, [])"

definition cursor0 :: updatable_rows where
  "cursor0 = \<lparr>upd_stmt = \<lparr>stmt_id = 1, stmt_meta = Some simple_meta, stmt_paramMeta = Some simple_meta, stmt_closed = False\<rparr>,
     upd_meta = cursor_meta, upd_resultID = 9, upd_rows = cursor_rows, serverNums = [0, 1], upd_pos = -1, upd_closed = False\<rparr>"

lemma ack_decodes: "DecodeResult ModePrepareAck ack_payload = Some (Inr ack_message)"
  by code_simp

lemma data_decodes: "DecodeResult ModeData data_payload = Some (Inr data_message)"
  by code_simp

lemma speaks_cursor: "speaks cursor_server cursor_reply"
proof -
  have "Mode ack_message = ModePrepareAck \<and> Mode data_message = ModeData" by (simp add: ack_message_def data_message_def NewResult_def)
  then have "decodes [(ModePrepareAck, ack_payload)] [ack_message]" "decodes [(ModeData, data_payload)] [data_message]"
    using ack_decodes data_decodes by (simp_all add: decodes_def) (simp_all add: ack_payload_def data_payload_def)
  moreover have "\<exists>f1 fs e. cursor_server p (transmission [f]) = (fst (cursor_reply p f), Inr (transmission (f1 # fs), e)) \<and>
      decodes (f1 # fs) (fst (snd (cursor_reply p f)) # snd (snd (cursor_reply p f)))" for p f
    using calculation by (cases "fst f = ModePrepare") (auto simp: cursor_server_def cursor_reply_def transmission_hd)
  ultimately show ?thesis by (simp add: speaks_def)
qed

lemma cursor_requests:
  "encodable (FormatV ascii_lib) (updatable_prepare ''SELECT N FROM T'')"
  "encodable (FormatV ascii_lib) (updatable_execute (upd_stmt cursor0) [])"
  "encodable (FormatV ascii_lib) (update_request (cursor0\<lparr>upd_pos := 1\<rparr>) [VInt64 8, VInt64 60, VNil, VInt64 1]
     [VInt64 5, VNil, VNil, VNil] [True])"
  by (rule encodable_by; code_simp)+

lemma cursor_opens:
  "\<exists>c'. QueryUpdatable ascii_lib cursor_server Background ''SELECT N FROM T'' [] sample_conn = Some (Inr cursor0, c')"
proof -
  let ?p = "updatable_prepare ''SELECT N FROM T''" and ?e = "updatable_execute (upd_stmt cursor0) []"
  have m: "fst (request_frame f ?p) = ModePrepare" "fst (request_frame f ?e) = ModeExecute" for f
    by (simp_all add: request_frame_def updatable_prepare_def updatable_execute_def NewResult_def)
  have "cursor_reply (peer (net sample_conn)) (request_frame (FormatV ascii_lib) ?p) = ((), ack_message, [])"
    by (simp add: cursor_reply_def m)
  from exec_speaks[OF speaks_cursor sample_conn_live(1) background_entry cursor_requests(1) this]
  obtain c1 where 1: "execCtx (FormatV ascii_lib) cursor_server Background ?p sample_conn =
      Some (Inr (message.extend ack_message \<lparr>Chained = []\<rparr>), c1)" "said (FormatV ascii_lib) sample_conn [?p] c1"
    by (auto simp: ack_message_def NewResult_def)
  have "cursor_reply (peer (net c1)) (request_frame (FormatV ascii_lib) ?e) = ((), data_message, [])"
    by (simp add: cursor_reply_def m)
  from exec_speaks[OF speaks_cursor said_live[OF 1(2)] background_entry cursor_requests(2) this]
  obtain c2 where 2: "execCtx (FormatV ascii_lib) cursor_server Background ?e c1 =
      Some (Inr (message.extend data_message \<lparr>Chained = []\<rparr>), c2)"
    by (auto simp: data_message_def NewResult_def)
  have f: "Mode ack_message = ModePrepareAck" "RSProperties ack_message AND RSUpdatable \<noteq> 0" "StatementID ack_message = 1"
    "Meta ack_message = Some simple_meta" "ParamMeta ack_message = Some simple_meta"
    by (simp_all add: ack_message_def NewResult_def)
  have st: "upd_stmt cursor0 = \<lparr>stmt_id = 1, stmt_meta = Some simple_meta, stmt_paramMeta = Some simple_meta, stmt_closed = False\<rparr>"
    by (simp add: cursor0_def)
  have g: "isRowsResult (message.extend data_message \<lparr>Chained = []\<rparr>)" "Meta data_message = Some cursor_meta"
    "RowSet data_message = Some \<lparr>SetID = 9, SetSize = 2, CurrentOffset = 0, Rows = cursor_rows\<rparr>"
    "\<not> ExtendedCount cursor_meta <=s ColumnCount cursor_meta" "map word_of_nat [0..<length cursor_rows] = [0, 1 :: i64]"
    by (simp_all add: isRowsResult_def data_message_def NewResult_def cursor_meta_def word_sle_eq cursor_rows_def)
  have "QueryUpdatable ascii_lib cursor_server Background ''SELECT N FROM T'' [] sample_conn = Some (Inr cursor0, c2)"
    using 1(1) 2 f g
    by (simp add: QueryUpdatable_def andThen_def st[symmetric] Let_def) (simp add: cursor0_def)
  then show ?thesis by blast
qed

theorem cursor_invariant_witness:
  "\<exists>u. cursor_reach ascii_lib cursor_server cursor0 u \<and> upd_pos u = 0 \<and> distinct (serverNums u)"
proof -
  let ?u = "cursor0\<lparr>upd_pos := 0\<rparr>"
  obtain c' where q: "QueryUpdatable ascii_lib cursor_server Background ''SELECT N FROM T'' [] sample_conn = Some (Inr cursor0, c')"
    using cursor_opens by blast
  have "UpdNext cursor0 = (True, ?u)" by (simp add: UpdNext_def cursor0_def cursor_rows_def)
  then have r: "cursor_reach ascii_lib cursor_server cursor0 ?u" by (blast intro: cursor_reach.intros cursor_step.intros)
  have "length (upd_rows cursor0) \<le> 2 ^ 64" by (simp add: cursor0_def cursor_rows_def)
  from cursor_invariant[OF q this r] r show ?thesis by (intro exI[of _ ?u]) simp
qed

theorem update_row_refines_witness:
  "\<exists>u' c'. UpdateRow ascii_lib cursor_server (=) Background [(''N'', VInt64 5)] (cursor0\<lparr>upd_pos := 1\<rparr>) sample_conn =
      Some (Inr (), u', c') \<and> view u' 1 = Some [VInt64 8, VInt64 60, VNil, VInt64 1]"
proof -
  let ?u = "cursor0\<lparr>upd_pos := 1\<rparr>" and ?v = "[VInt64 5, VNil, VNil, VNil]"
  have ok: "cursor_ok ?u" "\<not> upd_closed ?u" "0 \<le> upd_pos ?u" "[(''N'', VInt64 5)] \<noteq> []" "0 \<le>s ColumnCount (upd_meta ?u)"
    "visible_columns ?u + SysOffsetRowNum < length (Types (upd_meta ?u))"
    by (simp_all add: cursor_ok_def cursor0_def cursor_rows_def cursor_meta_def visible_columns_def word_sle_eq)
  have s: "set_columns (=) ?u [(''N'', VInt64 5)] (replicate (length (Types (upd_meta ?u))) VNil)
      (replicate (visible_columns ?u) False) = Some (Inr (?v, [True]))"
    by (simp add: columnIndex_def cursor0_def cursor_meta_def visible_columns_def numeral_eq_Suc)
  have row: "upd_rows ?u ! nat (upd_pos ?u) = [VInt64 8, VInt64 60, VNil, VInt64 1]" by (simp add: cursor0_def cursor_rows_def)
  let ?r = "update_request ?u (upd_rows ?u ! nat (upd_pos ?u)) ?v [True]"
  have e: "encodable (FormatV ascii_lib) ?r" using cursor_requests(3) unfolding row .
  have "fst (request_frame f ?r) = ModeUpdateResult" for f
    by (simp add: request_frame_def update_request_def cursor_request_def NewResult_def Let_def)
  then have rp: "cursor_reply (peer (net sample_conn)) (request_frame (FormatV ascii_lib) ?r) = ((), data_message, [])"
    by (simp add: cursor_reply_def)
  have "Mode data_message \<noteq> ModeError" by (simp add: data_message_def NewResult_def)
  from update_row_refines[OF speaks_cursor sample_conn_live(1) background_entry ok s e rp this]
  obtain u' c' where "UpdateRow ascii_lib cursor_server (=) Background [(''N'', VInt64 5)] ?u sample_conn = Some (Inr (), u', c')"
    "view u' = fold (merged ?u) cursor_rows (view ?u)"
    by (auto simp: data_message_def)
  moreover have "fold (merged ?u) cursor_rows (view ?u) 1 = Some [VInt64 8, VInt64 60, VNil, VInt64 1]"
    by (simp add: cursor_rows_def merged_def row_number_def visible_columns_def cursor0_def cursor_meta_def view_def)
  ultimately show ?thesis by auto
qed

theorem delete_row_refines_witness:
  "\<exists>u' c'. DeleteRow ascii_lib count_server Background (cursor0\<lparr>upd_pos := 1\<rparr>) sample_conn = Some (Inr (), u', c') \<and>
    view u' 1 = None \<and> current u' = Inr [VInt64 7, VInt64 50, VNil, VInt64 0]"
proof -
  let ?u = "cursor0\<lparr>upd_pos := 1\<rparr>"
  let ?r = "cursor_request ?u ActionDeleteCursor (Types (upd_meta ?u))
    (fillRowIdentity ?u (replicate (length (Types (upd_meta ?u))) VNil) [VInt64 8, VInt64 60, VNil, VInt64 1])"
  have ok: "cursor_ok ?u" by (simp add: cursor_ok_def cursor0_def cursor_rows_def)
  have e: "encodable (FormatV ascii_lib) ?r" by (rule encodable_by; code_simp)
  obtain x c' where x: "execCtx (FormatV ascii_lib) count_server Background ?r sample_conn = Some (Inr x, c')"
    using exec_accepted[OF speaks_count sample_conn_live(1) background_entry e] by blast
  have cur: "current ?u = Inr [VInt64 8, VInt64 60, VNil, VInt64 1]" by (simp add: current_def cursor0_def cursor_rows_def)
  obtain u' where u': "DeleteRow ascii_lib count_server Background ?u sample_conn = Some (Inr (), u', c')"
    using x by (simp add: DeleteRow_def sendCursorAction_def cur Let_def)
  from delete_row_refines[OF ok u'] show ?thesis
    by (intro exI[of _ u'] exI[of _ c']) (simp add: u', simp add: cursor0_def cursor_rows_def)
qed

end
