(* ===== verification/Cleanup.thy ===== *)
theory Cleanup
  imports StmtProps UpdatableProps Orderly
begin

unbundle bit_operations_syntax

text \<open>
  Requests that fail half-way: what is freed on the server when an updatable query is refused, and what
  becomes of an error that the server chains to the answer of a batch.
\<close>

section \<open>Refused updatable queries\<close>

text \<open>One request on a connection that is still valid afterwards: nothing was sent, or the whole request.\<close>

lemma exec_sent:
  assumes "orderly srv" "sound c" "execCtx fmt_v srv ctx req c = Some (res, c')" "IsValid c'"
  shows "sound c'" and "isl res \<and> c' = c \<or> (\<exists>bs. sent (net c') = sent (net c) @ Mode req # bs)"
proof -
  show "sound c'" using exec_sound[OF assms(1,2)] assms(3) by (auto simp: leaves_def)
  show "isl res \<and> c' = c \<or> (\<exists>bs. sent (net c') = sent (net c) @ Mode req # bs)"
    using exec_step[OF assms] by (auto simp: answered_def exchanged_def)
qed

lemma freed_last:
  assumes "orderly srv" "sound c" "\<not> stmt_closed st" "close_and_fail lib srv st e c = Some (res, c')" "IsValid c'"
  shows "isl res" "IsValid c"
    and "sent (net c') = sent (net c) @ transmission [request_frame (FormatV lib) (free_request (stmt_id st))]"
proof -
  let ?free = "free_request (stmt_id st)"
  obtain y where y: "execCtx (FormatV lib) srv Background ?free c = Some (y, c')" and "isl res"
    using assms(3-5) by (auto simp: close_and_fail_def CloseStmt_def exec_def IsValid_def split: if_splits bind_splits)
  then show "isl res" "IsValid c" using assms(5) evolves_execCtx[OF y] by (auto simp: IsValid_def evolves_def)
  obtain m where "answered srv (FormatV lib) ?free (net c) (net c') m"
    using exec_step[OF assms(1,2) y assms(5)] by auto
  moreover obtain payload where "encodes (FormatV lib) ?free payload" "request_frame (FormatV lib) ?free = (Mode ?free, payload)"
    using encodable_statement(2)[of "FormatV lib" "stmt_id st"] by (auto simp: encodable_def encodes_def request_frame_def)
  ultimately show "sent (net c') = sent (net c) @ transmission [request_frame (FormatV lib) ?free]"
    by (auto simp: answered_def exchanged_def)
qed

text \<open>The query from the acknowledgement on.\<close>

lemma query_after_ack:
  assumes "\<not> unusable c" "execCtx (FormatV lib) srv ctx (updatable_prepare q) c = Some (Inr a, c1)"
    and "Mode a = ModePrepareAck"
    and "st = \<lparr>stmt_id = StatementID a, stmt_meta = Meta a, stmt_paramMeta = ParamMeta a, stmt_closed = False\<rparr>"
    and "execCtx (FormatV lib) srv ctx (updatable_execute st args) c1 = Some (x, c2)"
  shows "QueryUpdatable lib srv ctx q args c =
      (if RSProperties a AND RSUpdatable = 0 then close_and_fail lib srv st (Errorf ''hsql: query is not updatable'') c1
       else case x of
         Inl e \<Rightarrow> close_and_fail lib srv st e c2
       | Inr r \<Rightarrow>
           if \<not> isRowsResult r
           then close_and_fail lib srv st (Errorf ''hsql: unexpected updatable query response mode'') c2
           else if ExtendedCount (the (Meta r)) <=s ColumnCount (the (Meta r))
           then close_and_fail lib srv st (Errorf ''hsql: server returned no updatable cursor metadata'') c2
           else Some (Inr \<lparr>upd_stmt = st, upd_meta = the (Meta r), upd_resultID = SetID (the (RowSet r)),
             upd_rows = Rows (the (RowSet r)), serverNums = map word_of_nat [0..<length (Rows (the (RowSet r)))],
             upd_pos = -1, upd_closed = False\<rparr>, c2))"
  using assms(1-3,5)
  by (simp add: QueryUpdatable_def andThen_def Let_def unusable_def assms(4)[symmetric] split: sum.split)

lemma query_outcomes:
  assumes "QueryUpdatable lib srv ctx q args c = Some (res, c')"
    and "execCtx (FormatV lib) srv ctx (updatable_prepare q) c = Some (Inr a, c1)" "Mode a = ModePrepareAck"
    and "st = \<lparr>stmt_id = StatementID a, stmt_meta = Meta a, stmt_paramMeta = ParamMeta a, stmt_closed = False\<rparr>"
  obtains (refused) e where "close_and_fail lib srv st e c1 = Some (res, c')"
    | (failed) x c2 e where "execCtx (FormatV lib) srv ctx (updatable_execute st args) c1 = Some (x, c2)"
        "close_and_fail lib srv st e c2 = Some (res, c')"
    | (opened) x u where "execCtx (FormatV lib) srv ctx (updatable_execute st args) c1 = Some (Inr x, c')"
        "res = Inr u" "upd_stmt u = st"
proof -
  have ok: "\<not> (conn_closed c \<or> broken c)" using exec_call.success_usable[OF assms(2)] by (simp add: unusable_def)
  show ?thesis
    using assms(1-3) ok refused failed opened
    by (auto simp: QueryUpdatable_def andThen_def Let_def assms(4)[symmetric] split: if_split_asm bind_splits sum.splits)
qed

text \<open>C7: an updatable query leaks no statement on a connection that stays in use.  Once the server has
  acknowledged the statement, and whatever the arguments, the context, the answers and the reason of a
  failure are (a statement that is not updatable, an argument that cannot be encoded, a context that is done, an
  execution that is refused, an answer without rows or without cursor metadata), the connection is given up,
  and with it the session; or the query fails and the last request it sent, on a connection in sync, is the
  one that frees the statement; or it returns a result that holds the open statement, to be freed by its
  \<^verbatim>\<open>Close\<close>.\<close>

theorem updatable_no_leak:
  assumes "orderly srv" "live c" "execCtx (FormatV lib) srv ctx (updatable_prepare q) c = Some (Inr a, c1)"
    and "Mode a = ModePrepareAck" "QueryUpdatable lib srv ctx q args c = Some (res, c')"
  shows "\<not> IsValid c' \<or> in_sync (net c') \<and>
    (case res of
       Inl _ \<Rightarrow> \<exists>bs. sent (net c') = sent (net c1) @ bs @ transmission [request_frame (FormatV lib) (free_request (StatementID a))] \<and>
         (bs = [] \<or> hd bs = ModeExecute)
     | Inr u \<Rightarrow> (\<exists>bs. sent (net c') = sent (net c1) @ ModeExecute # bs) \<and>
         stmt_id (upd_stmt u) = StatementID a \<and> \<not> stmt_closed (upd_stmt u))"
proof (cases "IsValid c'")
  case True
  define st where "st = \<lparr>stmt_id = StatementID a, stmt_meta = Meta a, stmt_paramMeta = ParamMeta a, stmt_closed = False\<rparr>"
  have st: "\<not> stmt_closed st" "stmt_id st = StatementID a" by (simp_all add: st_def)
  have "sound c" using assms(2) by (simp add: sound_def live_def)
  then have 1: "sound c1" using exec_sound[OF assms(1)] assms(3) by (auto simp: leaves_def)
  have s: "sound c'" using sync.QueryUpdatable_keeps[of srv c lib ctx q args] \<open>sound c\<close> assms(1,5) by (auto simp: leaves_def)
  from assms(5,3,4) st_def show ?thesis
  proof (cases rule: query_outcomes)
    case (refused e)
    then show ?thesis using freed_last[OF assms(1) 1 st(1) refused True] s True st(2) assms(1) by (cases res) (auto simp: sound_def)
  next
    case (failed x c2 e)
    have 2: "sound c2" using exec_sound[OF assms(1) 1] failed(1) by (auto simp: leaves_def)
    note free = freed_last[OF assms(1) 2 st(1) failed(2) True]
    obtain bs where "sent (net c2) = sent (net c1) @ bs" "bs = [] \<or> hd bs = ModeExecute"
      using exec_sent(2)[OF assms(1) 1 failed(1) free(2)] by fastforce
    then show ?thesis using free s True st(2) assms(1) by (cases res) (auto simp: sound_def)
  next
    case (opened x u)
    then show ?thesis using exec_sent(2)[OF assms(1) 1 opened(1) True] s True st assms(1) by (auto simp: sound_def)
  qed
qed simp

section \<open>Errors chained to the answer of a batch\<close>

text \<open>C27: an error that the server chains to the counts of a batch is lost: the batch reports the counts of
  the first message and no error, and the connection is as after a success.\<close>

theorem chained_errors_dropped:
  assumes "speaks srv reply" "live c" "in_time ctx" "encodable (FormatV lib) (batch_direct_request sqls)"
    and "reply (peer (net c)) (request_frame (FormatV lib) (batch_direct_request sqls)) = (p, b, bs)"
    and "Mode b = ModeBatchExecResponse" "err \<in> set bs" "Mode err = ModeError"
  shows "\<exists>c'. ExecBatch lib srv ctx sqls c = Some (Inr (batchCounts b), c') \<and>
    said (FormatV lib) c [batch_direct_request sqls] c' \<and> IsValid c'"
proof -
  obtain c' where "execCtx (FormatV lib) srv ctx (batch_direct_request sqls) c = Some (Inr (message.extend b \<lparr>Chained = bs\<rparr>), c')"
    "said (FormatV lib) c [batch_direct_request sqls] c'"
    using exec_speaks[OF assms(1-5)] assms(6) by auto
  then show ?thesis
    using live_not_unusable[OF assms(2)] said_live by (auto simp: ExecBatch_def andThen_def ok_def batchCounts_def live_def)
qed

section \<open>Witnesses\<close>

text \<open>
  A peer that prepares everything as statement 1, with updatable rows promised, and answers an EXECUTE with
  the response of a procedure call; LOB requests and the version number are answered in their way.
\<close>

definition tidy_server :: "unit server" where
  "tidy_server p bs = (p, Inr
     (if bs = int32_bytes NetworkCompatibilityVersionInt then []
      else if hd bs = ModeLargeObjectOp then lob_answer (replicate 20 0) LobRespSet [0] []
      else transmission [stmt_frames (hd bs)], EOF))"

lemma tidy_orderly: "orderly tidy_server"
proof -
  have "whole_lob_answer (lob_answer (replicate 20 0) LobRespSet [0] [])"
    unfolding whole_lob_answer_def by (rule disjI1) (intro exI[of _ "replicate 20 0"] exI[of _ LobRespSet] exI[of _ 0], simp)
  moreover have "list_all whole_frame [f] \<Longrightarrow> \<exists>g fs. transmission [f] = transmission (g # fs) \<and> list_all whole_frame (g # fs)" for f
    by blast
  moreover have "list_all whole_frame [stmt_frames b]" for b
    by (simp add: whole_frame_def stmt_frames_def frame_fits_def)
  ultimately show ?thesis by (auto simp: orderly_def answers_def tidy_server_def)
qed

lemma tidy_answers:
  assumes "live c" "encodable fmt_v req" "Mode req \<in> {ModePrepare, ModeExecute, ModeFreeStmt}"
  shows "\<exists>c'. execCtx fmt_v tidy_server Background req c =
    Some (Inr (message.extend (stmt_messages (Mode req)) \<lparr>Chained = []\<rparr>), c') \<and> live c'"
proof -
  let ?m = "stmt_messages (Mode req)"
  obtain w where w: "plain_request req" "EncodePayload fmt_v req NewRowOutput = Some (None, w)"
    using assms(2) by (auto simp: encodable_def encodes_def)
  have "transmission [(Mode req, out_buf w)] \<noteq> int32_bytes NetworkCompatibilityVersionInt"
      "hd (transmission [(Mode req, out_buf w)]) = Mode req" "Mode req \<noteq> ModeLargeObjectOp"
    using assms(3) not_version[of "Mode req"] by (auto simp: transmission_def frame_bytes_def)
  then have sv: "tidy_server (peer (net c)) (transmission [(Mode req, out_buf w)]) =
      (peer (net c), Inr (transmission (stmt_frames (Mode req) # []), EOF))"
    by (simp add: tidy_server_def)
  have d: "decodes (stmt_frames (Mode req) # []) (?m # [])"
    using assms(3) stmt_decodes by (auto simp: decodes_def stmt_frames_def stmt_messages_def)
  have l: "\<not> unusable c" "ctx_entry Background (sent (net c)) = None" "in_sync (net c)"
    using assms(1) by (auto simp: live_def IsValid_def unusable_def)
  have "Mode ?m \<noteq> ModeError" by (simp add: stmt_messages_def)
  then show ?thesis
    using answered_exec[where srv = tidy_server, OF l w sv d] by (auto simp: live_def)
qed

theorem updatable_no_leak_witness:
  "\<exists>c1 c' bs. execCtx (FormatV ascii_lib) tidy_server Background (updatable_prepare ''SELECT N FROM T'') sample_conn =
      Some (Inr (message.extend (stmt_messages ModePrepare) \<lparr>Chained = []\<rparr>), c1) \<and>
    QueryUpdatable ascii_lib tidy_server Background ''SELECT N FROM T'' [VInt64 4] sample_conn =
      Some (Inl (Errorf ''hsql: unexpected updatable query response mode''), c') \<and> IsValid c' \<and>
    sent (net c') = sent (net c1) @ bs @ transmission [request_frame (FormatV ascii_lib) (free_request 1)]"
proof -
  let ?f = "FormatV ascii_lib" and ?q = "''SELECT N FROM T''" and ?st = "sample_stmt\<lparr>stmt_paramMeta := Some (long_meta 1)\<rparr>"
  let ?a = "message.extend (stmt_messages ModePrepare) \<lparr>Chained = []\<rparr> :: response"
  have a: "Mode ?a = ModePrepareAck" "StatementID ?a = 1" "RSProperties ?a AND RSUpdatable \<noteq> 0"
    by (simp_all add: stmt_messages_def)
  have st: "?st = \<lparr>stmt_id = StatementID ?a, stmt_meta = Meta ?a, stmt_paramMeta = ParamMeta ?a, stmt_closed = False\<rparr>"
    by (simp add: stmt_messages_def NewResult_def sample_stmt_def)
  have e: "encodable ?f (updatable_execute ?st [VInt64 4])" by (rule encodable_by; code_simp)
  obtain c1 where 1: "execCtx ?f tidy_server Background (updatable_prepare ?q) sample_conn = Some (Inr ?a, c1)" "live c1"
    using tidy_answers[OF sample_conn_live(1) cursor_requests(1)] by auto
  obtain r c2 where 2: "execCtx ?f tidy_server Background (updatable_execute ?st [VInt64 4]) c1 = Some (Inr r, c2)" "live c2"
      "\<not> isRowsResult r"
    using tidy_answers[OF 1(2) e] by (auto simp: isRowsResult_def stmt_messages_def)
  obtain y c3 where 3: "execCtx ?f tidy_server Background (free_request (stmt_id ?st)) c2 = Some (y, c3)" "live c3"
    using tidy_answers[OF 2(2) encodable_statement(2), of "stmt_id ?st" ?f] by auto
  have "QueryUpdatable ascii_lib tidy_server Background ?q [VInt64 4] sample_conn =
      close_and_fail ascii_lib tidy_server ?st (Errorf ''hsql: unexpected updatable query response mode'') c2"
    using query_after_ack[OF _ 1(1) a(1) st 2(1)] a(3) 2(3) by simp
  also have "\<dots> = Some (Inl (Errorf ''hsql: unexpected updatable query response mode''), c3)"
    using 3(1) live_not_unusable[OF 2(2)] by (simp add: close_and_fail_def CloseStmt_def exec_def sample_stmt_def)
  finally have q: "QueryUpdatable ascii_lib tidy_server Background ?q [VInt64 4] sample_conn =
      Some (Inl (Errorf ''hsql: unexpected updatable query response mode''), c3)" .
  have "IsValid c3" using 3(2) by (simp add: live_def)
  with updatable_no_leak[OF tidy_orderly sample_conn_live(1) 1(1) a(1) q] show ?thesis using 1(1) q unfolding a(2) by auto
qed

text \<open>A peer that reports the counts of two statements and, chained to them, the error of the third.\<close>

definition half_frames :: "(byte \<times> byte list) list" where
  "half_frames = [stmt_frames ModeBatchExecute, (ModeError, replicate 12 0)]"

definition half_server :: "unit server" where
  "half_server p bs = (p, Inr (transmission half_frames, EOF))"

definition half_reply :: "unit reply" where
  "half_reply p f = (p, stmt_messages ModeBatchExecute, [NewResult ModeError])"

lemma speaks_half: "speaks half_server half_reply"
proof -
  have "DecodeResult ModeError (replicate 12 0) = Some (Inr (NewResult ModeError))" by code_simp
  then have "decodes half_frames [stmt_messages ModeBatchExecute, NewResult ModeError]"
    using stmt_decodes(3) by (simp add: decodes_def half_frames_def) (simp add: stmt_frames_def)
  then have "\<exists>f1 fs e. half_server p (transmission [f]) = (fst (half_reply p f), Inr (transmission (f1 # fs), e)) \<and>
      decodes (f1 # fs) (fst (snd (half_reply p f)) # snd (snd (half_reply p f)))" for p f
    by (intro exI[of _ "stmt_frames ModeBatchExecute"] exI[of _ "[(ModeError, replicate 12 0)]"] exI[of _ EOF])
      (simp add: half_server_def half_reply_def half_frames_def)
  then show ?thesis unfolding speaks_def by blast
qed

theorem chained_errors_dropped_witness:
  "\<exists>c'. ExecBatch ascii_lib half_server Background [''DELETE FROM A'', ''DELETE FROM B'', ''DELETE FROM'']
      sample_conn = Some (Inr [1, 3], c') \<and> IsValid c'"
proof -
  let ?req = "batch_direct_request [''DELETE FROM A'', ''DELETE FROM B'', ''DELETE FROM'']"
  have e: "encodable (FormatV ascii_lib) ?req" by (rule encodable_by; code_simp)
  have r: "half_reply (peer (net sample_conn)) (request_frame (FormatV ascii_lib) ?req) =
      ((), stmt_messages ModeBatchExecute, [NewResult ModeError])" by (simp add: half_reply_def)
  have b: "Mode (stmt_messages ModeBatchExecute) = ModeBatchExecResponse" "batchCounts (stmt_messages ModeBatchExecute) = [1, 3]"
    by (simp_all add: stmt_messages_def NewResult_def batchCounts_def batch_count_def)
  have "NewResult ModeError \<in> set [NewResult ModeError]" "Mode (NewResult ModeError) = ModeError"
    by (simp_all add: NewResult_def)
  from chained_errors_dropped[OF speaks_half sample_conn_live(1) background_entry e r b(1) this]
  show ?thesis unfolding b(2) by blast
qed

end
