(* ===== verification/Ledger.thy ===== *)
theory Ledger
  imports Runs Cleanup "HOL-Library.Multiset"
begin

unbundle bit_operations_syntax

text \<open>
  The statements that are open on the server against the statements that the driver has handed out.  A
  ledger is kept beside any server, from the bytes that go over the wire alone: one more use of a
  statement id for each acknowledged PREPARE, one less for each FREE_STMT.
\<close>

section \<open>The ledger\<close>

type_synonym ledger = "i64 \<Rightarrow> int"

definition acknowledged :: "byte list \<Rightarrow> i64 option" where
  "acknowledged ans =
     (case fst (ReadFrame ((idle_net ())\<lparr>inp := ans\<rparr>)) of
        Inl _ \<Rightarrow> None
      | Inr (mode, payload) \<Rightarrow>
          (case DecodeResult mode payload of
             Some (Inr m) \<Rightarrow> if Mode m = ModePrepareAck then Some (StatementID m) else None
           | _ \<Rightarrow> None))"

definition book :: "byte list \<Rightarrow> byte list \<Rightarrow> ledger \<Rightarrow> ledger" where
  "book req ans l =
     (if hd req = ModePrepare then
        (case acknowledged ans of Some i \<Rightarrow> l(i := l i + 1) | None \<Rightarrow> l)
      else if hd req = ModeFreeStmt then
        (let i = be64 (take 8 (drop 5 req)) in l(i := l i - 1))
      else l)"

text \<open>A server and its ledger: the server is not affected.\<close>

definition audited :: "'p server \<Rightarrow> ('p \<times> ledger) server" where
  "audited srv s req =
     (case srv (fst s) req of
        (p, Inl e) \<Rightarrow> ((p, snd s), Inl e)
      | (p, Inr (ans, e)) \<Rightarrow> ((p, book req ans (snd s)), Inr (ans, e)))"

lemma audited_orderly: "orderly srv \<Longrightarrow> orderly (audited srv)"
  unfolding orderly_def audited_def by (auto split: prod.splits sum.splits)

lemma exchanged_audited:
  "exchanged (audited srv) req ans n n' \<Longrightarrow> snd (peer n') = book req ans (snd (peer n))"
  by (auto simp: exchanged_def audited_def split: prod.splits sum.splits)

lemma acknowledged_answer:
  assumes "list_all whole_frame (f # fs)" "DecodeResult (fst f) (snd f) = Some (Inr m)"
  shows "acknowledged (transmission (f # fs)) = (if Mode m = ModePrepareAck then Some (StatementID m) else None)"
proof -
  obtain mode payload where f: "f = (mode, payload)" by fastforce
  have "ReadFrame ((idle_net ())\<lparr>inp := frame_bytes mode payload @ transmission fs\<rparr>) =
      (Inr (mode, payload), (idle_net ())\<lparr>inp := transmission fs\<rparr>)"
    using assms(1) f by (intro read_whole_frame) simp
  moreover have "transmission (f # fs) = frame_bytes mode payload @ transmission fs" by (simp add: transmission_def f)
  ultimately show ?thesis using assms(2) f by (simp add: acknowledged_def)
qed

text \<open>What the driver's requests do to the ledger.\<close>

lemma answered_books:
  assumes "answered (audited srv) fmt_v req n n' m"
  shows "snd (peer n') =
    (if Mode req = ModePrepare then
       (if Mode m = ModePrepareAck then (snd (peer n))(StatementID m := snd (peer n) (StatementID m) + 1) else snd (peer n))
     else if Mode req = ModeFreeStmt then snd (peer n') else snd (peer n))"
proof -
  obtain bs f fs where x: "exchanged (audited srv) (Mode req # bs) (transmission (f # fs)) n n'"
    "list_all whole_frame (f # fs)" "DecodeResult (fst f) (snd f) = Some (Inr m)"
    using assms by (auto simp: answered_def)
  then show ?thesis
    using exchanged_audited[OF x(1)] acknowledged_answer[OF x(2,3)] by (auto simp: book_def)
qed

lemma free_payload: "encodes fmt_v (free_request i) (int64_bytes i)"
  by (simp add: encodes_def plain_request_def EncodePayload_def free_request_def NewResult_def WriteLong_def
      NewRowOutput_def int64_bytes_def ucast_signed_drop_bit)

lemma answered_frees:
  assumes "answered (audited srv) fmt_v (free_request i) n n' m"
  shows "snd (peer n') = (snd (peer n))(i := snd (peer n) i - 1)"
proof -
  obtain f fs where x: "exchanged (audited srv) (transmission [(ModeFreeStmt, int64_bytes i)]) (transmission (f # fs)) n n'"
    using assms free_payload[of fmt_v i] by (auto simp: answered_def)
  have "transmission [(ModeFreeStmt, int64_bytes i)] = ModeFreeStmt # int32_bytes 12 @ int64_bytes i @ [ModeNone]"
    by (simp add: transmission_def frame_bytes_def)
  then show ?thesis using exchanged_audited[OF x] by (simp add: book_def Let_def)
qed

section \<open>Balance\<close>

text \<open>A valid connection is in sync, and the ledger has each statement id as often as \<open>hs\<close>.\<close>

definition balanced :: "i64 multiset \<Rightarrow> ('p \<times> ledger) conn \<Rightarrow> bool" where
  "balanced hs c \<longleftrightarrow> (IsValid c \<longrightarrow> in_sync (net c) \<and> snd (peer (net c)) = (\<lambda>i. int (count hs i)))"

lemma balanced_flags [simp]:
  "balanced hs (c\<lparr>autocommit := a\<rparr>) = balanced hs c" "balanced hs (c\<lparr>txAlteredSession := b\<rparr>) = balanced hs c"
  "balanced hs (c\<lparr>lobIDSeq := s\<rparr>) = balanced hs c" "balanced hs (c\<lparr>broken := True\<rparr>)"
  by (simp_all add: balanced_def IsValid_def)

lemma balanced_sound: "balanced hs c \<Longrightarrow> sound c"
  by (simp add: balanced_def sound_def)

lemma exec_ledger:
  assumes "orderly srv" "balanced hs c" "execCtx fmt_v (audited srv) ctx req c = Some (res, c')" "IsValid c'"
  obtains (idle) "ctx_entry ctx (sent (net c)) \<noteq> None" "c' = c" "isl res"
    | (asked) m rs where "answered (audited srv) fmt_v req (net c) (net c') m" "in_sync (net c')"
      "snd (peer (net c)) = (\<lambda>i. int (count hs i))"
      "res = (if Mode m = ModeError then Inl (ServerError (MessageText m) (SQLState m) (ErrorCode m))
        else Inr (message.extend m \<lparr>Chained = rs\<rparr>))"
proof -
  have "IsValid c" using evolves_execCtx[OF assms(3)] assms(4) by (auto simp: IsValid_def evolves_def)
  then have "in_sync (net c)" "snd (peer (net c)) = (\<lambda>i. int (count hs i))" using assms(2) by (simp_all add: balanced_def)
  then show ?thesis
    using exec_step[OF audited_orderly[OF assms(1)] balanced_sound[OF assms(2)] assms(3,4)] answered_in_sync idle asked by blast
qed

lemma quiet_exec:
  assumes "orderly srv" "balanced hs c" "Mode req \<notin> {ModePrepare, ModeFreeStmt}"
    and "execCtx fmt_v (audited srv) ctx req c = Some (res, c')"
  shows "balanced hs c'"
proof (cases "IsValid c'")
  case True
  from assms(1,2,4) True show ?thesis
  proof (cases rule: exec_ledger)
    case (asked m rs)
    then show ?thesis using answered_books[OF asked(1)] assms(3) by (simp add: balanced_def)
  qed (use assms(2) in simp)
qed (simp add: balanced_def)

lemma prepare_exec:
  assumes "orderly srv" "balanced hs c" "Mode req = ModePrepare" "execCtx fmt_v (audited srv) ctx req c = Some (res, c')"
  shows "balanced (case res of Inr r \<Rightarrow> if Mode r = ModePrepareAck then add_mset (StatementID r) hs else hs | Inl _ \<Rightarrow> hs) c'"
proof (cases "IsValid c'")
  case True
  from assms(1,2,4) True show ?thesis
  proof (cases rule: exec_ledger)
    case idle
    then show ?thesis using assms(2) by (cases res) auto
  next
    case (asked m rs)
    have "snd (peer (net c')) = (if Mode m = ModePrepareAck then (\<lambda>i. int (count hs i))(StatementID m := int (count hs (StatementID m)) + 1)
        else (\<lambda>i. int (count hs i)))"
      using answered_books[OF asked(1)] assms(3) asked(3) by simp
    then show ?thesis using asked(2,4) by (auto simp: balanced_def fun_eq_iff)
  qed
qed (simp add: balanced_def)

lemma free_exec:
  assumes "orderly srv" "balanced hs c" "i \<in># hs" "execCtx fmt_v (audited srv) Background (free_request i) c = Some (res, c')"
  shows "balanced (hs - {#i#}) c'"
proof (cases "IsValid c'")
  case True
  from assms(1,2,4) True show ?thesis
  proof (cases rule: exec_ledger)
    case (asked m rs)
    have "int (count (hs - {#i#}) j) = (if j = i then int (count hs i) - 1 else int (count hs j))" for j
      using assms(3) by (auto simp: count_greater_zero_iff[symmetric] simp del: count_greater_zero_iff)
    then show ?thesis
      using asked(2,3) answered_frees[OF asked(1)] by (simp add: balanced_def fun_eq_iff)
  qed (simp add: Background_def)
qed (simp add: balanced_def)

lemma lob_balanced:
  assumes "orderly srv" "balanced hs c" "\<And>c :: ('p \<times> ledger) conn. live c \<Longrightarrow> \<exists>q. writeReq c = (net c)\<lparr>pend := q\<rparr> \<and> q \<noteq> [] \<and> hd q = ModeLargeObjectOp"
  shows "leaves (balanced hs) snd (lobExchange (audited srv :: ('p \<times> ledger) server) writeReq c)"
proof -
  have "balanced hs c'" if x: "lobExchange (audited srv) writeReq c = Some (res, c')" for res c'
  proof (cases "IsValid c'")
    case True
    then have v: "IsValid c" using x
      by (auto simp: lobExchange_def IsValid_def split: option.splits prod.splits bind_splits sum.splits if_splits)
    obtain r where r: "lobExchange (audited srv) writeReq c = Some (Inr r, c')"
      using x True v by (cases res) (auto simp: lobExchange_def IsValid_def split: option.splits prod.splits bind_splits sum.splits if_splits)
    have l: "live c" using v assms(2) by (simp add: live_def balanced_def)
    obtain q where q: "writeReq c = (net c)\<lparr>pend := q\<rparr>" "q \<noteq> []" "hd q = ModeLargeObjectOp" using assms(3)[OF l] by blast
    obtain ans where "exchanged (audited srv) (q @ [ModeNone]) ans (net c) (net c')"
      using lob_step[OF audited_orderly[OF assms(1)] l q r] by blast
    then show ?thesis
      using assms(2) v l q exchanged_audited exchanged_in_sync by (fastforce simp: balanced_def live_def book_def)
  qed (simp add: balanced_def)
  then show ?thesis by (auto simp: leaves_def)
qed

lemma quiet_exec_leaves:
  "orderly srv \<Longrightarrow> balanced hs c \<Longrightarrow> Mode req \<notin> {ModePrepare, ModeFreeStmt} \<Longrightarrow>
    leaves (balanced hs) snd (execCtx fmt_v (audited srv) ctx req c)"
  by (auto simp: leaves_def dest: quiet_exec)

text \<open>The requests other than PREPARE and FREE_STMT keep the balance: a strict instance of the contract.\<close>

interpretation quiet: conn_invariant lib "audited srv" "\<lambda>c. orderly srv \<longrightarrow> balanced hs c" True
  by unfold_locales (auto intro!: leaves_under lob_balanced lob_requests intro: quiet_exec_leaves)

section \<open>The operations that prepare and free statements\<close>

text \<open>The statements that are open after a call that hands one out, or fails.\<close>

definition handed_out :: "('a \<Rightarrow> i64) \<Rightarrow> 'a go_result \<Rightarrow> i64 multiset \<Rightarrow> i64 multiset" where
  "handed_out sid res hs = (case res of Inr x \<Rightarrow> add_mset (sid x) hs | Inl _ \<Rightarrow> hs)"

lemma handed_out_simps [simp]:
  "handed_out sid (Inl e) hs = hs" "handed_out sid (Inr x) hs = add_mset (sid x) hs"
  by (simp_all add: handed_out_def)

lemma balanced_closed [simp]: "conn_closed c \<Longrightarrow> balanced hs c"
  by (simp add: balanced_def IsValid_def)

lemma prepare_balanced:
  assumes "orderly srv" "balanced hs c" "PrepareContext lib (audited srv) ctx q c = Some (res, c')"
  shows "balanced (handed_out stmt_id res hs) c' \<and> (\<forall>s. res = Inr s \<longrightarrow> \<not> stmt_closed s)"
proof (cases "conn_closed c")
  case False
  with assms(3) obtain r where x: "execCtx (FormatV lib) (audited srv) ctx (prepare_request q) c = Some (r, c')"
    and res: "res = (case r of Inl e \<Rightarrow> Inl e | Inr a \<Rightarrow>
      if Mode a \<noteq> ModePrepareAck then Inl (Errorf ''hsql: unexpected prepare response mode'')
      else Inr \<lparr>stmt_id = StatementID a, stmt_meta = Meta a, stmt_paramMeta = ParamMeta a, stmt_closed = False\<rparr>)"
    by (auto simp: PrepareContext_def andThen_def split: bind_splits sum.splits if_splits)
  show ?thesis using prepare_exec[OF assms(1,2) _ x] res by (cases r) auto
qed (use assms(3) in \<open>auto simp: PrepareContext_def\<close>)

lemma close_balanced:
  assumes "orderly srv" "balanced hs c" "stmt_id s \<in># hs" "\<not> stmt_closed s" "CloseStmt lib (audited srv) s c = Some (res, s', c')"
  shows "balanced (hs - {#stmt_id s#}) c'"
proof (cases "conn_closed c")
  case False
  then show ?thesis
    using assms(4,5) free_exec[OF assms(1-3)] by (auto simp: CloseStmt_def exec_def split: bind_splits)
qed (use assms(5) in \<open>simp add: CloseStmt_def\<close>)

lemma batch_balanced:
  assumes "orderly srv" "balanced hs c" "ExecPreparedBatch lib (audited srv) ctx q rows c = Some (res, c')"
  shows "balanced hs c'"
proof (cases "unusable c")
  case False
  from assms(3) False have "andThen (PrepareContext lib (audited srv) ctx q) (\<lambda>s c.
        do { m \<leftarrow> stmt_paramMeta s;
             (res, c) \<leftarrow> execCtx (FormatV lib) (audited srv) ctx (batch_execute_request (stmt_id s) m rows) c;
             (_, _, c) \<leftarrow> CloseStmt lib (audited srv) s c;
             Some (map_sum id batchCounts res, c) }) c = Some (res, c')"
    by (simp add: ExecPreparedBatch_def unusable_def)
  then show ?thesis
  proof (cases rule: andThenE)
    case (failed e)
    then show ?thesis using prepare_balanced[OF assms(1,2) failed(1)] by simp
  next
    case (went s c1)
    note p = prepare_balanced[OF assms(1,2) went(1)]
    from went(2) obtain m r c2 x s' where e: "execCtx (FormatV lib) (audited srv) ctx (batch_execute_request (stmt_id s) m rows) c1 = Some (r, c2)"
      and f: "CloseStmt lib (audited srv) s c2 = Some (x, s', c')"
      by (auto split: bind_splits)
    have "balanced (add_mset (stmt_id s) hs) c2" by (rule quiet_exec[OF assms(1) _ _ e]) (use p in simp_all)
    from close_balanced[OF assms(1) this _ _ f] p show ?thesis by simp
  qed
qed (use assms(2,3) in \<open>auto simp: ExecPreparedBatch_def unusable_def\<close>)

lemma fail_balanced:
  assumes "orderly srv" "balanced (add_mset (stmt_id st) hs) c" "\<not> stmt_closed st"
    and "close_and_fail lib (audited srv) st e c = Some (res, c')"
  shows "balanced hs c' \<and> isl res"
  using assms(4) close_balanced[OF assms(1,2) _ assms(3)] by (auto simp: close_and_fail_def split: bind_splits)

lemma cursor_balanced:
  assumes "orderly srv" "balanced hs c" "QueryUpdatable lib (audited srv) ctx q args c = Some (res, c')"
  shows "balanced (handed_out (\<lambda>u. stmt_id (upd_stmt u)) res hs) c' \<and> (\<forall>u. res = Inr u \<longrightarrow> \<not> stmt_closed (upd_stmt u))"
proof (cases "unusable c")
  case False
  from assms(3) False obtain r c1 where p: "execCtx (FormatV lib) (audited srv) ctx (updatable_prepare q) c = Some (r, c1)"
    by (auto simp: QueryUpdatable_def unusable_def andThen_def split: bind_splits)
  note b = prepare_exec[OF assms(1,2) _ p]
  show ?thesis
  proof (cases "\<exists>a. r = Inr a \<and> Mode a = ModePrepareAck")
    case False
    then show ?thesis
      using assms(3) p b \<open>\<not> unusable c\<close>
      by (cases r) (auto simp: QueryUpdatable_def unusable_def andThen_def)
  next
    case True
    then obtain a where a: "r = Inr a" "Mode a = ModePrepareAck" by blast
    define st where st: "st = \<lparr>stmt_id = StatementID a, stmt_meta = Meta a, stmt_paramMeta = ParamMeta a, stmt_closed = False\<rparr>"
    have b1: "balanced (add_mset (stmt_id st) hs) c1" using b a by (simp add: st)
    have o: "\<not> stmt_closed st" by (simp add: st)
    show ?thesis
    proof (cases "execCtx (FormatV lib) (audited srv) ctx (updatable_execute st args) c1")
      case None
      then have "RSProperties a AND RSUpdatable = 0"
        using assms(3) p a \<open>\<not> unusable c\<close> by (auto simp: QueryUpdatable_def unusable_def andThen_def Let_def st split: if_splits)
      then have "close_and_fail lib (audited srv) st (Errorf ''hsql: query is not updatable'') c1 = Some (res, c')"
        using assms(3) p a \<open>\<not> unusable c\<close> by (simp add: QueryUpdatable_def unusable_def andThen_def Let_def st)
      from fail_balanced[OF assms(1) b1 o this] show ?thesis by (cases res) auto
    next
      case (Some xc)
      obtain x c2 where x: "xc = (x, c2)" by fastforce
      have b2: "balanced (add_mset (stmt_id st) hs) c2"
        by (rule quiet_exec[OF assms(1) b1 _ Some[unfolded x]]) simp
      note eq = query_after_ack[OF \<open>\<not> unusable c\<close> p[unfolded a(1)] a(2) st Some[unfolded x]]
      show ?thesis
        using assms(3)[unfolded eq] b2 o
        by (cases res) (auto split: if_splits sum.splits dest: fail_balanced[OF assms(1) b1 o] fail_balanced[OF assms(1) b2 o])
    qed
  qed
qed (use assms(2,3) in \<open>auto simp: QueryUpdatable_def unusable_def\<close>)

lemma close_cursor_balanced:
  assumes "orderly srv" "balanced hs c" "\<not> upd_closed u" "stmt_id (upd_stmt u) \<in># hs" "\<not> stmt_closed (upd_stmt u)"
    and "CloseUpdatable lib (audited srv) u c = Some (res, u', c')"
  shows "balanced (hs - {#stmt_id (upd_stmt u)#}) c'"
proof -
  obtain r c1 x s' where c1: "(if \<not> conn_closed c \<and> upd_resultID u \<noteq> 0
        then do { (res, c) \<leftarrow> exec (FormatV lib) (audited srv) (close_request (upd_resultID u)) c; Some (map_sum id (\<lambda>_. ()) res, c) }
        else Some (Inr (), c)) = Some (r, c1)"
    and f: "CloseStmt lib (audited srv) (upd_stmt u) c1 = Some (x, s', c')"
    using assms(3,6) by (auto simp: CloseUpdatable_def split: bind_splits)
  have "balanced hs c1"
    using c1 assms(2) quiet_exec[OF assms(1,2), of "close_request (upd_resultID u)"]
    by (auto simp: exec_def split: if_splits bind_splits)
  from close_balanced[OF assms(1) this assms(4,5) f] show ?thesis .
qed

section \<open>Runs with their open statements\<close>

text \<open>
  \<open>holds lib srv c0 hs c\<close>: some calls lead from \<open>c0\<close> to \<open>c\<close>, and \<open>hs\<close> are the ids of the statements that they
  handed out and that have not been closed, those inside updatable results included.  Only statements and
  results that were handed out can be closed; closing them again is a call that changes nothing.
\<close>

inductive holds :: "text_lib \<Rightarrow> 'p server \<Rightarrow> 'p conn \<Rightarrow> i64 multiset \<Rightarrow> 'p conn \<Rightarrow> bool" for lib srv c0 where
  start: "holds lib srv c0 {#} c0"
| quiet: "holds lib srv c0 hs c \<Longrightarrow> quiet_step lib srv c c' \<Longrightarrow> holds lib srv c0 hs c'"
| prepare: "holds lib srv c0 hs c \<Longrightarrow> PrepareContext lib srv ctx q c = Some (sres, c') \<Longrightarrow>
    holds lib srv c0 (handed_out stmt_id sres hs) c'"
| close: "holds lib srv c0 hs c \<Longrightarrow> CloseStmt lib srv s c = Some (res, s', c') \<Longrightarrow> \<not> stmt_closed s \<Longrightarrow>
    stmt_id s \<in># hs \<Longrightarrow> holds lib srv c0 (hs - {#stmt_id s#}) c'"
| close_again: "holds lib srv c0 hs c \<Longrightarrow> CloseStmt lib srv s c = Some (res, s', c') \<Longrightarrow> stmt_closed s \<Longrightarrow>
    holds lib srv c0 hs c'"
| batch: "holds lib srv c0 hs c \<Longrightarrow> ExecPreparedBatch lib srv ctx q rows c = Some (bres, c') \<Longrightarrow> holds lib srv c0 hs c'"
| query: "holds lib srv c0 hs c \<Longrightarrow> QueryUpdatable lib srv ctx q args c = Some (ures, c') \<Longrightarrow>
    holds lib srv c0 (handed_out (\<lambda>u. stmt_id (upd_stmt u)) ures hs) c'"
| close_cursor: "holds lib srv c0 hs c \<Longrightarrow> CloseUpdatable lib srv u c = Some (res, u', c') \<Longrightarrow> \<not> upd_closed u \<Longrightarrow>
    \<not> stmt_closed (upd_stmt u) \<Longrightarrow> stmt_id (upd_stmt u) \<in># hs \<Longrightarrow> holds lib srv c0 (hs - {#stmt_id (upd_stmt u)#}) c'"
| close_cursor_again: "holds lib srv c0 hs c \<Longrightarrow> CloseUpdatable lib srv u c = Some (res, u', c') \<Longrightarrow> upd_closed u \<Longrightarrow>
    holds lib srv c0 hs c'"

lemma holds_balanced:
  assumes "holds lib (audited srv) c0 hs c" "orderly srv" "balanced {#} c0"
  shows "balanced hs c"
  using assms
proof (induction rule: holds.induct)
  case (quiet hs c c')
  then show ?case using quiet.quiet_keeps[OF quiet.hyps(2)] by blast
next
  case (prepare hs c ctx q sres c')
  then show ?case using prepare_balanced by blast
next
  case (close hs c s res s' c')
  then show ?case using close_balanced by blast
next
  case (batch hs c ctx q rows bres c')
  then show ?case using batch_balanced by blast
next
  case (query hs c ctx q args ures c')
  then show ?case using cursor_balanced by blast
next
  case (close_cursor hs c u res u' c')
  then show ?case using close_cursor_balanced by blast
qed (auto simp: CloseStmt_def CloseUpdatable_def)

lemma fresh_balanced:
  assumes "connect (FormatV lib) (audited srv) dial cf = Some (Inr c)" "orderly srv"
    and "\<And>a t n. dial a t = Inr n \<Longrightarrow> in_sync n \<and> snd (peer n) = (\<lambda>_. 0)"
  shows "balanced {#} c"
proof -
  obtain n where n: "dial (address cf) (tls_settings cf) = Inr n" "handshake (FormatV lib) (audited srv) (new_conn cf n) = Some (Inr (), c)"
    using assms(1) by (rule connect_cases)
  have i: "in_sync (net (new_conn cf n))" "snd (peer (net (new_conn cf n))) = (\<lambda>_. 0)"
    using assms(3)[OF n(1)] by (simp_all add: new_conn_def)
  obtain m bs ans where x: "exchanged (audited srv) (int32_bytes NetworkCompatibilityVersionInt) [] (net (new_conn cf n)) m"
    "exchanged (audited srv) (ModeConnect # bs) ans m (net c)"
    using handshake_step[OF audited_orderly[OF assms(2)] i(1) n(2)] by blast
  have "hd (int32_bytes NetworkCompatibilityVersionInt) \<notin> {ModePrepare, ModeFreeStmt}"
    by simp
  then have "snd (peer (net c)) = (\<lambda>_. 0)"
    using exchanged_audited[OF x(1)] exchanged_audited[OF x(2)] i(2) by (simp add: book_def)
  then show ?thesis
    using exchanged_in_sync[OF x(2) exchanged_in_sync[OF x(1) i(1)]] by (simp add: balanced_def)
qed

text \<open>C2: no statement is leaked and none is freed twice.  Whatever is called on a connection that was opened
  to an orderly server, as long as the connection is valid, each statement id has been acknowledged
  exactly as often more than it has been freed over the wire, as there are open handles for it: those of
  \<^verbatim>\<open>Prepare\<close> and those inside updatable results.  Queries and batches that fail half-way leave nothing behind.\<close>

theorem statements_balance:
  assumes "connect (FormatV lib) (audited srv) dial cf = Some (Inr c0)"
    and "\<And>a t n. dial a t = Inr n \<Longrightarrow> in_sync n \<and> snd (peer n) = (\<lambda>_. 0)"
    and "orderly srv" "holds lib (audited srv) c0 hs c" "IsValid c"
  shows "snd (peer (net c)) i = int (count hs i)"
proof -
  have "balanced {#} c0" by (rule fresh_balanced[OF assms(1,3)]) (rule assms(2))
  then have "balanced hs c" by (rule holds_balanced[OF assms(4,3)])
  then show ?thesis using assms(5) by (simp add: balanced_def)
qed

section \<open>Witness\<close>

text \<open>A server that prepares everything as statement 1.\<close>

definition ready_server :: "unit server" where
  "ready_server p req =
     (if hd req = ModePrepare then (p, Inr (transmission [stmt_frames ModePrepare], EOF)) else polite_server p req)"

lemma ready_orderly: "orderly ready_server"
proof -
  have "whole_frame (stmt_frames ModePrepare)" by (simp add: whole_frame_def stmt_frames_def frame_fits_def)
  then show ?thesis using polite_orderly answers_frame by (auto simp: orderly_def ready_server_def)
qed

abbreviation zero_dial :: "(unit \<times> ledger) dialer" where
  "zero_dial \<equiv> (\<lambda>_ _. Inr (idle_net ((), \<lambda>_. 0)))"

lemma ready_login:
  obtains c where "connect (FormatV ascii_lib) (audited ready_server) zero_dial sample_config = Some (Inr c)" "live c"
proof -
  have "\<exists>c. connect (FormatV ascii_lib) (audited ready_server) zero_dial sample_config = Some (Inr c) \<and> sessionID c = 77 \<and> IsValid c"
    by (rule login) (auto simp: audited_def ready_server_def polite_server_def book_def not_version)
  then obtain c where c: "connect (FormatV ascii_lib) (audited ready_server) zero_dial sample_config = Some (Inr c)" "IsValid c"
    by blast
  show ?thesis by (rule that[OF c(1) login_live[OF c(1) audited_orderly[OF ready_orderly] c(2)]])
qed

lemma ready_prepares:
  assumes "live c"
  shows "\<exists>s c'. PrepareContext ascii_lib (audited ready_server) Background ''SELECT N FROM T'' c = Some (Inr s, c') \<and>
    stmt_id s = 1 \<and> IsValid c'"
proof -
  let ?req = "prepare_request ''SELECT N FROM T''" and ?m = "stmt_messages ModePrepare"
  obtain w where w: "EncodePayload (FormatV ascii_lib) ?req NewRowOutput = Some (None, w)"
    by (simp add: EncodePayload_def prepare_request_def)
  obtain l where sv: "audited ready_server (peer (net c)) (transmission [(Mode ?req, out_buf w)]) =
      (((), l), Inr (transmission (stmt_frames ModePrepare # []), EOF))"
    by (simp add: audited_def ready_server_def transmission_def frame_bytes_def)
  have m: "Mode ?m = ModePrepareAck" "StatementID ?m = 1" by (simp_all add: stmt_messages_def)
  have d: "decodes (stmt_frames ModePrepare # []) (?m # [])"
    using stmt_decodes(1) by (simp add: decodes_def) (simp add: stmt_frames_def)
  have l: "\<not> unusable c" "ctx_entry Background (sent (net c)) = None" "in_sync (net c)" "plain_request ?req"
    using assms by (auto simp: live_def Background_def IsValid_def unusable_def plain_request_def)
  show ?thesis
    using answered_exec[where srv = "audited ready_server", OF l w sv d] l(1) m
    by (auto simp: PrepareContext_def unusable_def andThen_def)
qed

theorem statements_balance_witness:
  "\<exists>c0 c. connect (FormatV ascii_lib) (audited ready_server) zero_dial sample_config = Some (Inr c0) \<and>
    holds ascii_lib (audited ready_server) c0 {#1#} c \<and> snd (peer (net c)) 1 = 1 \<and> snd (peer (net c)) 2 = 0"
proof -
  obtain c0 where c0: "connect (FormatV ascii_lib) (audited ready_server) zero_dial sample_config = Some (Inr c0)" "live c0"
    by (rule ready_login)
  obtain s c where p: "PrepareContext ascii_lib (audited ready_server) Background ''SELECT N FROM T'' c0 = Some (Inr s, c)"
    "stmt_id s = 1" "IsValid c" using ready_prepares[OF c0(2)] by blast
  have h: "holds ascii_lib (audited ready_server) c0 {#1#} c" using holds.prepare[OF holds.start p(1)] p(2) by simp
  have "snd (peer (net c)) i = int (count {#1#} i)" for i
    by (rule statements_balance[OF c0(1) _ ready_orderly h p(3)]) (auto simp: idle_net_def in_sync_def)
  then show ?thesis using c0(1) h by auto
qed

end
