(* ===== verification/Spec2Isabelle.thy ===== *)
theory Spec2Isabelle
  imports Autocommit LobBounds Arguments DsnProps Watch Cancel Sockets Ledger
begin

text \<open>
  A model of go-hsql, a pure-Go \<^verbatim>\<open>database/sql\<close> driver for HSQLDB that speaks the server's binary network
  protocol.  The driver is a codec (\<^verbatim>\<open>internal/proto\<close>) below a connection (\<^verbatim>\<open>conn.go\<close>), on which statements, result
  sets, transactions, LOBs and updatable cursors are built; \<^verbatim>\<open>database/sql\<close> and its pool are the callers.

  \<^bold>\<open>Conventions.\<close>  Go integers are words of their width, \<open>int\<close> where the code uses an unbounded quantity or a
  \<^verbatim>\<open>big.Int\<close>; strings and byte slices are lists (a string is a list of its bytes, as in Go); a value of type \<^verbatim>\<open>any\<close>
  is a \<open>gval\<close>.  An error is the left summand of \<open>go_result\<close>; a panic is \<open>None\<close> of the option type around it.
  Operations on a connection take it as their last argument and return it changed (\<open>conn_op\<close>).

  \<^bold>\<open>The codec.\<close>  GoLang, GoStrings and GoQuote hold what is used of Go's language and libraries (UTF-8, runes,
  slices, decimal numbers, \<^verbatim>\<open>strconv.Quote\<close>).  RowOut and RowIn are \<^verbatim>\<open>rowout.go\<close> and \<^verbatim>\<open>rowin.go\<close>; Decimals, Temporal and
  Values are \<^verbatim>\<open>types.go\<close>; Messages is \<^verbatim>\<open>result.go\<close> and Frames is \<^verbatim>\<open>frame.go\<close>.  RowCodec, TextCodec, ValueCodec, NativeValues and
  MessageCodec prove that what is written is read back, field by field up to whole messages, and that the
  readers neither lose their place nor run past the end.  Props is \<^verbatim>\<open>props.go\<close>.

  \<^bold>\<open>The connection.\<close>  The state of the socket (\<open>net\<close>) is the peer's state, the bytes pending, sent and unread and
  the error of the writer; the peer is a function from its state and the bytes of a flush to its next
  state and the bytes it sends.  Conn is \<^verbatim>\<open>conn.go\<close> and \<^verbatim>\<open>errors.go\<close>, LobParams the binding of ARRAY and LOB arguments
  (\<^verbatim>\<open>array_param.go\<close>, \<^verbatim>\<open>lob.go\<close>).  ConnProps shows what one exchange does, and when a connection is given up.  Dialogue
  lifts this to a server that is given by its answers to whole messages (\<open>speaks\<close>, \<open>said\<close>): the theories above
  state which requests go out and what comes of the answers.

  \<^bold>\<open>The life of a connection.\<close>  Keeps states once, as the locale \<open>conn_invariant\<close>, that an invariant of the two kinds
  of exchange and of the flags is an invariant of every public operation.  Orderly describes the servers that
  answer every request with one complete answer (\<open>orderly\<close>) and interprets the locale on three invariants: a
  valid connection is in sync, it stays the same session, and an unusable one stays silent.  Runs has the step
  relation of all public operations (\<open>call_step\<close>, \<open>driver_step\<close>, \<open>runs\<close>) and draws the conclusions from the opening
  of the connection on.  Ledger sets a ledger of acknowledged and freed statements beside any server and shows
  that it always balances with the handles that the driver has handed out (\<open>holds\<close>).  Sockets shows that a socket is
  closed when its login fails and by \<^verbatim>\<open>Close\<close>, whatever state the connection is in, by nothing else, and never touched again.

  \<^bold>\<open>Cancellation.\<close>  Watch is \<^verbatim>\<open>watchCancel\<close>: the call, its context and the goroutine that watches it as a step relation,
  with its invariant, the bound on the number of actions, and the late cancellation that the code admits; a call under a
  context without a \<^verbatim>\<open>Done\<close> channel has no watcher.
  In the sequential theories a cancelled call is one whose read or write fails.  Cancel is about the second
  socket of \<^verbatim>\<open>cancel.go\<close>: which bytes go over it, and that they name the session of the connection after any run.

  \<^bold>\<open>Sessions.\<close>  Session is \<^verbatim>\<open>tx.go\<close>, \<^verbatim>\<open>savepoint.go\<close>, \<^verbatim>\<open>twophase.go\<close>, \<^verbatim>\<open>sessionattr.go\<close> and what \<^verbatim>\<open>cancel.go\<close> writes.  SessionProps has the
  dialogue of a transaction and the outcome of its end under every answer.  Autocommit is the abstract
  specification of the flag: after any sequence of session operations the driver's idea of autocommit is
  the server's, proved by rule induction over \<open>session_reach\<close>.

  \<^bold>\<open>LOBs.\<close>  LobFetch, Utf16, LobProps and LobBounds model the fetch of BLOBs and CLOBs and show that it returns the
  stored content and that it ends against any peer.  LobCreate shows that the frames of a LOB parameter, from memory
  or streamed, rebuild its content and that the temporary ids are fresh.

  \<^bold>\<open>Statements and results.\<close>  ResultSets is \<^verbatim>\<open>conn_query.go\<close>, \<^verbatim>\<open>result_exec.go\<close> and \<^verbatim>\<open>rows.go\<close>; ColTypes is \<^verbatim>\<open>rows_coltype.go\<close>; ArrayText is
  \<^verbatim>\<open>array.go\<close>; Statements is \<^verbatim>\<open>stmt.go\<close>, \<^verbatim>\<open>callable.go\<close> and \<^verbatim>\<open>batch.go\<close>; Updatable is \<^verbatim>\<open>updatable.go\<close>.  RowsProps proves that the
  paged iteration refines the iteration over one list, ArrayProps the round trip of the array text,
  StmtProps the assignment of OUT parameters and the dialogue of a batch, UpdatableProps that the cached rows
  refine a map from server row numbers to rows, Cleanup that an updatable query that fails frees its statement or gives the
  connection up, and
  that an error chained to the counts of a batch is lost.  Arguments puts binding, encoding and framing together: from
  the bytes of an EXECUTE a server reads the arguments that were bound, with their LOBs.

  \<^bold>\<open>Connection strings.\<close>  Dsn is \<^verbatim>\<open>dsn.go\<close>, \<^verbatim>\<open>tls_config.go\<close> and \<^verbatim>\<open>hsql.go\<close>; DsnProps states declaratively what a
  parsed URL stands for (\<open>dsn_means\<close>) and that the parser computes exactly this.

  \<^bold>\<open>Interfaces.\<close>  The locales \<open>appender\<close>, \<open>reader\<close> and \<open>codec\<close> are the contracts of the writers and readers of one field,
  interpreted on all of them; \<open>conn_call\<close> is the contract of a call on a connection (it refuses an unusable one
  and only ever adds to what was sent), interpreted on the calls of the connection, the session, the statements
  and the batches; \<open>conn_invariant\<close> is the contract of an invariant, interpreted on those of Orderly and Sockets and, in its
  strict form (for the requests other than PREPARE and FREE_STMT), on the balance of Ledger; \<open>chunked\<close> is what the
  two loops that fetch LOBs share, interpreted on both.

  \<^bold>\<open>Bounds and fuel.\<close>  The recursions are structural or terminate by a measure on the bytes left or the length
  announced.  \<open>drain\<close> takes the number of calls of \<^verbatim>\<open>Next\<close> to make: one more than there are rows is enough, as
  \<open>result_set_refines\<close> proves.

  \<^bold>\<open>Parameters.\<close>  \<open>text_lib\<close>: the tables of printable characters, the printers and parsers of floats and times,
  and \<^verbatim>\<open>fmt\<close>'s \<^verbatim>\<open>%v\<close>; \<open>parse_url\<close>: the parser of \<^verbatim>\<open>net/url\<close>; \<open>dial\<close>: \<^verbatim>\<open>net\<close> and \<^verbatim>\<open>crypto/tls\<close>, from an
  address and TLS settings to an error or a socket; \<open>eq_fold\<close>: \<^verbatim>\<open>strings.EqualFold\<close>;
  \<open>scan\<close>: the user's \<^verbatim>\<open>sql.Scanner\<close>; \<open>shuffle\<close>: the order in which a Go map is ranged over; \<open>ctx\<close>: the error of a context
  before each request and after each failed exchange of an operation, as a function of what has been sent by then, so that a
  context may be done between two requests of one operation (\<open>in_time\<close> says that it is not).

  \<^bold>\<open>Not modelled.\<close>  What a dial does.  Time: a deadline is a context that becomes done.  The limits of memory,
  and readers that return nothing a hundred times in a row (\<^verbatim>\<open>io.ErrNoProgress\<close>).  The context of \<^verbatim>\<open>connect\<close> acts only through the
  dial and failed reads and writes.  The locks of the TLS registry, the
  registration with \<^verbatim>\<open>database/sql\<close>, interface assertions and the example program.
\<close>

end
